(* ===== verification/Prelude.thy ===== *)
theory Prelude
  imports
    "HOL-Library.State_Monad"
    "HOL-Library.Char_ord"
    "HOL-Library.List_Lexorder"
    "HOL-Library.Multiset"
begin

text \<open>
  What the components share.
  \<^item> The effect monad: a program of the model is a state transformer over an opaque world
    \<open>'w\<close> (everything the process talks to: the API server, Stripe, the clock, the
    environment variables) and a trace of the calls that change something outside the process.
    \<open>ask\<close> is a call that only reads, \<open>act\<close> a call that is recorded on the trace with
    its outcome. The operations called are parameters, so the model says nothing about what
    they answer.
  \<^item> \<open>effects m s\<close>, the calls a program makes from a state, and \<open>emits P m\<close>, a program
    all of whose calls satisfy \<open>P\<close>; the rules in the collection \<open>effect_rules\<close>
    follow the shape of a program. Likewise \<open>answers Q m\<close>, a program whose answers all
    satisfy \<open>Q\<close>, with the collection \<open>answer_rules\<close>; and \<open>keeps H m\<close>, a program after
    which \<open>H\<close> is still true of the world, with the collection \<open>keep_rules\<close>.
  \<^item> The parts of the Go language and standard library the code uses: byte strings with
    \<open>%d\<close>, \<open>%q\<close>, \<open>Sscanf\<close>, \<open>strings.Split\<close>, \<open>strings.TrimSpace\<close>,
    \<open>strings.Contains\<close>, the conversion to \<open>int32\<close> and 64-bit increments.
\<close>

section \<open>Programs with effects\<close>

record ('w, 'e) st =
  world :: 'w
  trace :: "'e list"

type_synonym ('w, 'e, 'a) io = "(('w, 'e) st, 'a) state"

abbreviation ret :: "'a \<Rightarrow> ('s, 'a) state" where
  "ret x \<equiv> State_Monad.return x"

definition ask :: "('w \<Rightarrow> 'r \<times> 'w) \<Rightarrow> ('w, 'e, 'r) io" where
  "ask f = State (\<lambda>s. case f (world s) of (r, w) \<Rightarrow> (r, s\<lparr>world := w\<rparr>))"

definition act :: "('w \<Rightarrow> 'r \<times> 'w) \<Rightarrow> ('r \<Rightarrow> 'e) \<Rightarrow> ('w, 'e, 'r) io" where
  "act f ev = State (\<lambda>s. case f (world s) of (r, w) \<Rightarrow>
     (r, s\<lparr>world := w, trace := trace s @ [ev r]\<rparr>))"

named_theorems effect_rules "rules for the calls a program can make"

lemma run_ask [simp]:
  "run_state (ask f) s = (case f (world s) of (r, w) \<Rightarrow> (r, s\<lparr>world := w\<rparr>))"
  by (simp add: ask_def)

lemma run_act [simp]:
  "run_state (act f ev) s =
     (case f (world s) of (r, w) \<Rightarrow> (r, s\<lparr>world := w, trace := trace s @ [ev r]\<rparr>))"
  by (simp add: act_def)

definition effects :: "('w, 'e, 'a) io \<Rightarrow> ('w, 'e) st \<Rightarrow> 'e list" where
  "effects m s = drop (length (trace s)) (trace (snd (run_state m s)))"

definition emits :: "('e \<Rightarrow> bool) \<Rightarrow> ('w, 'e, 'a) io \<Rightarrow> bool" where
  "emits P m \<longleftrightarrow> (\<forall>s. \<exists>es. trace (snd (run_state m s)) = trace s @ es \<and> list_all P es)"

lemma emitsI:
  "(\<And>s. \<exists>es. trace (snd (run_state m s)) = trace s @ es \<and> list_all P es) \<Longrightarrow> emits P m"
  by (simp add: emits_def)

lemma emits_trace:
  "emits P m \<Longrightarrow> trace (snd (run_state m s)) = trace s @ effects m s"
  unfolding emits_def effects_def by (metis append_eq_conv_conj)

lemma emits_effects:
  "emits P m \<Longrightarrow> list_all P (effects m s)"
  unfolding emits_def effects_def by (metis append_eq_conv_conj)

lemma emitsD: "emits P m \<Longrightarrow> e \<in> set (effects m s) \<Longrightarrow> P e"
  using emits_effects [of P m s] by (simp add: list_all_iff)

lemma emits_run:
  "emits P m \<Longrightarrow> run_state m s = (x, s') \<Longrightarrow> \<exists>es. trace s' = trace s @ es \<and> list_all P es"
  unfolding emits_def by (metis snd_conv)

lemma emits_mono: "emits P m \<Longrightarrow> (\<And>e. P e \<Longrightarrow> Q e) \<Longrightarrow> emits Q m"
  unfolding emits_def by (metis (mono_tags, lifting) list_all_iff)

lemma emits_ret [effect_rules]: "emits P (ret x)"
  by (rule emitsI) simp

lemma emits_ask [effect_rules]: "emits P (ask f)"
  by (rule emitsI) (simp split: prod.split)

lemma emits_act [effect_rules]: "(\<And>r. P (ev r)) \<Longrightarrow> emits P (act f ev)"
  by (rule emitsI) (simp split: prod.split)

lemma emits_bind_run:
  assumes "emits P m" and "\<And>s x s'. run_state m s = (x, s') \<Longrightarrow> emits P (f x)"
  shows "emits P (State_Monad.bind m f)"
proof (rule emitsI)
  fix s
  obtain x t where run: "run_state m s = (x, t)" by fastforce
  obtain es where es: "trace t = trace s @ es" "list_all P es"
    using assms(1) run unfolding emits_def by (metis snd_conv)
  obtain es' where "trace (snd (run_state (f x) t)) = trace t @ es'" "list_all P es'"
    using assms(2) [OF run] unfolding emits_def by blast
  then show "\<exists>es. trace (snd (run_state (State_Monad.bind m f) s)) = trace s @ es \<and> list_all P es"
    using es run by (intro exI [of _ "es @ es'"]) simp
qed

lemma emits_bind [effect_rules]:
  assumes "emits P m" and "\<And>x. emits P (f x)"
  shows "emits P (State_Monad.bind m f)"
  by (rule emits_bind_run [OF assms])

lemma emits_if [effect_rules]:
  "(b \<Longrightarrow> emits P m) \<Longrightarrow> (\<not> b \<Longrightarrow> emits P n) \<Longrightarrow> emits P (if b then m else n)"
  by simp

lemma emits_sum [effect_rules]:
  "(\<And>a. x = Inl a \<Longrightarrow> emits P (f a)) \<Longrightarrow> (\<And>b. x = Inr b \<Longrightarrow> emits P (g b)) \<Longrightarrow>
   emits P (case x of Inl a \<Rightarrow> f a | Inr b \<Rightarrow> g b)"
  by (simp split: sum.split)

lemma emits_option [effect_rules]:
  "(x = None \<Longrightarrow> emits P m) \<Longrightarrow> (\<And>a. x = Some a \<Longrightarrow> emits P (f a)) \<Longrightarrow>
   emits P (case x of None \<Rightarrow> m | Some a \<Rightarrow> f a)"
  by (simp split: option.split)

lemma emits_prod [effect_rules]:
  "(\<And>a b. x = (a, b) \<Longrightarrow> emits P (f a b)) \<Longrightarrow> emits P (case x of (a, b) \<Rightarrow> f a b)"
  by (simp split: prod.split)

lemma emits_Let [effect_rules]:
  "(\<And>y. y = x \<Longrightarrow> emits P (f y)) \<Longrightarrow> emits P (let y = x in f y)"
  by (simp add: Let_def)

lemma effects_eqI: "trace (snd (run_state m s)) = trace s @ es \<Longrightarrow> effects m s = es"
  by (simp add: effects_def)

text \<open>A program that makes no call leaves the trace alone.\<close>

lemma emits_none:
  assumes "emits (\<lambda>_. False) m" and "run_state m s = (r, s1)"
  shows "trace s1 = trace s"
  using emits_trace [OF assms(1), of s] emits_effects [OF assms(1), of s] assms(2)
  by (cases "effects m s") simp_all

lemma silent: "(\<And>P. emits P m) \<Longrightarrow> run_state m s = (x, s') \<Longrightarrow> trace s' = trace s"
  by (rule emits_none [of m s x s']) auto

lemma effects_bind:
  assumes "emits P m" and "\<And>x. emits Q (f x)"
  shows "effects (State_Monad.bind m f) s =
    effects m s @ effects (f (fst (run_state m s))) (snd (run_state m s))"
proof -
  obtain x t where run: "run_state m s = (x, t)" by fastforce
  have "trace t = trace s @ effects m s"
    using emits_trace [OF assms(1), of s] run by simp
  moreover have "trace (snd (run_state (f x) t)) = trace t @ effects (f x) t"
    by (rule emits_trace [OF assms(2)])
  ultimately have "trace (snd (run_state (State_Monad.bind m f) s)) =
      trace s @ effects m s @ effects (f x) t"
    using run by simp
  then have "effects (State_Monad.bind m f) s = effects m s @ effects (f x) t"
    unfolding effects_def [of "State_Monad.bind m f"] by simp
  with run show ?thesis by simp
qed

section \<open>What a program can answer\<close>

definition answers :: "('a \<Rightarrow> bool) \<Rightarrow> ('w, 'e, 'a) io \<Rightarrow> bool" where
  "answers Q m \<longleftrightarrow> (\<forall>s. Q (fst (run_state m s)))"

named_theorems answer_rules "rules for the answers of a program"

lemma answersD: "answers Q m \<Longrightarrow> run_state m s = (x, s') \<Longrightarrow> Q x"
  unfolding answers_def by (metis fst_conv)

lemma answers_ret [answer_rules]: "Q x \<Longrightarrow> answers Q (ret x)"
  by (simp add: answers_def)

lemma answers_bind [answer_rules]:
  assumes "\<And>x s s'. run_state m s = (x, s') \<Longrightarrow> answers Q (f x)"
  shows "answers Q (State_Monad.bind m f)"
  unfolding answers_def
proof
  fix s
  obtain x s' where run: "run_state m s = (x, s')" by fastforce
  with assms [OF run] show "Q (fst (run_state (State_Monad.bind m f) s))"
    by (simp add: answers_def)
qed

lemma answers_if [answer_rules]:
  "(b \<Longrightarrow> answers Q m) \<Longrightarrow> (\<not> b \<Longrightarrow> answers Q n) \<Longrightarrow> answers Q (if b then m else n)"
  by simp

lemma answers_sum [answer_rules]:
  "(\<And>a. x = Inl a \<Longrightarrow> answers Q (f a)) \<Longrightarrow> (\<And>b. x = Inr b \<Longrightarrow> answers Q (g b)) \<Longrightarrow>
   answers Q (case x of Inl a \<Rightarrow> f a | Inr b \<Rightarrow> g b)"
  by (simp split: sum.split)

lemma answers_option [answer_rules]:
  "(x = None \<Longrightarrow> answers Q m) \<Longrightarrow> (\<And>a. x = Some a \<Longrightarrow> answers Q (f a)) \<Longrightarrow>
   answers Q (case x of None \<Rightarrow> m | Some a \<Rightarrow> f a)"
  by (simp split: option.split)

lemma answers_prod [answer_rules]:
  "(\<And>a b. x = (a, b) \<Longrightarrow> answers Q (f a b)) \<Longrightarrow> answers Q (case x of (a, b) \<Rightarrow> f a b)"
  by (simp split: prod.split)

lemma answers_Let [answer_rules]:
  "(\<And>y. y = x \<Longrightarrow> answers Q (f y)) \<Longrightarrow> answers Q (let y = x in f y)"
  by (simp add: Let_def)

section \<open>What a program leaves alone\<close>

definition keeps :: "('w \<Rightarrow> bool) \<Rightarrow> ('w, 'e, 'a) io \<Rightarrow> bool" where
  "keeps H m \<longleftrightarrow> (\<forall>s. H (world s) \<longrightarrow> H (world (snd (run_state m s))))"

named_theorems keep_rules "rules for what a program leaves alone"

lemma keepsD: "keeps H m \<Longrightarrow> run_state m s = (x, s') \<Longrightarrow> H (world s) \<Longrightarrow> H (world s')"
  unfolding keeps_def by (metis snd_conv)

lemma keeps_ret [keep_rules]: "keeps H (ret x)"
  by (simp add: keeps_def)

lemma keeps_ask [keep_rules]: "(\<And>w. H w \<Longrightarrow> H (snd (f w))) \<Longrightarrow> keeps H (ask f)"
  by (simp add: keeps_def split: prod.split) (metis snd_conv)

lemma keeps_act [keep_rules]: "(\<And>w. H w \<Longrightarrow> H (snd (f w))) \<Longrightarrow> keeps H (act f ev)"
  by (simp add: keeps_def split: prod.split) (metis snd_conv)

lemma keeps_bind [keep_rules]:
  assumes "keeps H m" and "\<And>x. keeps H (f x)"
  shows "keeps H (State_Monad.bind m f)"
  using assms by (simp add: keeps_def split: prod.split) (metis snd_conv)

lemma keeps_if [keep_rules]:
  "(b \<Longrightarrow> keeps H m) \<Longrightarrow> (\<not> b \<Longrightarrow> keeps H n) \<Longrightarrow> keeps H (if b then m else n)"
  by simp

lemma keeps_sum [keep_rules]:
  "(\<And>a. x = Inl a \<Longrightarrow> keeps H (f a)) \<Longrightarrow> (\<And>b. x = Inr b \<Longrightarrow> keeps H (g b)) \<Longrightarrow>
   keeps H (case x of Inl a \<Rightarrow> f a | Inr b \<Rightarrow> g b)"
  by (simp split: sum.split)

lemma keeps_option [keep_rules]:
  "(x = None \<Longrightarrow> keeps H m) \<Longrightarrow> (\<And>a. x = Some a \<Longrightarrow> keeps H (f a)) \<Longrightarrow>
   keeps H (case x of None \<Rightarrow> m | Some a \<Rightarrow> f a)"
  by (simp split: option.split)

lemma keeps_Let [keep_rules]: "(\<And>y. y = x \<Longrightarrow> keeps H (f y)) \<Longrightarrow> keeps H (let y = x in f y)"
  by (simp add: Let_def)

section \<open>Machine integers\<close>

definition int32_of :: "int \<Rightarrow> int" where
  "int32_of i = (i + 2 ^ 31) mod 2 ^ 32 - 2 ^ 31"

definition wrap64 :: "int \<Rightarrow> int" where
  "wrap64 i = (i + 2 ^ 63) mod 2 ^ 64 - 2 ^ 63"

lemma int32_of_bounds: "- (2 ^ 31) \<le> int32_of i \<and> int32_of i < 2 ^ 31"
  by (simp add: int32_of_def)

lemma int32_of_id: "- (2 ^ 31) \<le> i \<Longrightarrow> i < 2 ^ 31 \<Longrightarrow> int32_of i = i"
  by (simp add: int32_of_def)

lemma wrap64_id: "- (2 ^ 63) \<le> i \<Longrightarrow> i < 2 ^ 63 \<Longrightarrow> wrap64 i = i"
  by (simp add: wrap64_def)

end
