(* ===== verification/GoText.thy ===== *)
theory GoText
  imports Prelude
begin

text \<open>
  The parts of Go's \<open>strings\<close>, \<open>strconv\<close> and \<open>fmt\<close> packages the code uses.
  A Go string is a sequence of bytes, and so is \<open>string\<close> here (a list of 8-bit \<open>char\<close>s);
  \<open>length\<close> is Go's \<open>len\<close>. Unicode white space is recognised by its UTF-8 encoding.
\<close>

definition bytes :: "nat list \<Rightarrow> string" where
  "bytes ns = map char_of ns"

section \<open>White space, splitting and searching\<close>

definition ascii_spaces :: "string list" where
  "ascii_spaces = map bytes [[9], [10], [11], [12], [13], [32]]"

definition wide_spaces :: "string list" where
  "wide_spaces = map bytes
     ([[0xC2, 0x85], [0xC2, 0xA0], [0xE1, 0x9A, 0x80]]
      @ map (\<lambda>b. [0xE2, 0x80, b]) [0x80 ..< 0x8B]
      @ [[0xE2, 0x80, 0xA8], [0xE2, 0x80, 0xA9], [0xE2, 0x80, 0xAF],
         [0xE2, 0x81, 0x9F], [0xE3, 0x80, 0x80]])"

definition spaces :: "string list" where
  "spaces = ascii_spaces @ wide_spaces"

definition starts_with :: "string \<Rightarrow> string \<Rightarrow> bool" where
  "starts_with p s \<longleftrightarrow> take (length p) s = p"

lemma starts_with_length: "starts_with p s \<Longrightarrow> length p \<le> length s"
  unfolding starts_with_def by (metis length_take min.cobounded1)

lemma find_space_shorter:
  assumes "find (\<lambda>p. starts_with p s) ps = Some p" and "[] \<notin> set ps"
  shows "length (drop (length p) s) < length s"
proof -
  from assms have "starts_with p s" and "p \<noteq> []"
    by (auto simp: find_Some_iff in_set_conv_nth)
  then show ?thesis using starts_with_length [of p s] by (cases p) auto
qed

lemma spaces_nonempty: "[] \<notin> set spaces"
  by (simp add: spaces_def ascii_spaces_def wide_spaces_def bytes_def upt_rec)

text \<open>\<open>strings.TrimLeftFunc(s, unicode.IsSpace)\<close>, and from the right on the reversed bytes.\<close>

function trim_left :: "string list \<Rightarrow> string \<Rightarrow> string" where
  "trim_left ps s =
     (if [] \<in> set ps then s
      else case find (\<lambda>p. starts_with p s) ps of
        None \<Rightarrow> s
      | Some p \<Rightarrow> trim_left ps (drop (length p) s))"
  by pat_completeness auto
termination
  by (relation "measure (length \<circ> snd)") (auto dest: find_space_shorter)

declare trim_left.simps [simp del]

definition TrimSpace :: "string \<Rightarrow> string" where
  "TrimSpace s = rev (trim_left (map rev spaces) (rev (trim_left spaces s)))"

fun Split :: "char \<Rightarrow> string \<Rightarrow> string list" where
  "Split sep [] = [[]]"
| "Split sep (c # cs) =
     (if c = sep then [] # Split sep cs
      else case Split sep cs of [] \<Rightarrow> [[c]] | x # xs \<Rightarrow> (c # x) # xs)"

fun Join :: "string \<Rightarrow> string list \<Rightarrow> string" where
  "Join sep [] = []"
| "Join sep [x] = x"
| "Join sep (x # y # ys) = x @ sep @ Join sep (y # ys)"

lemma Join_Cons: "xs \<noteq> [] \<Longrightarrow> Join sep (x # xs) = x @ sep @ Join sep xs"
  by (cases xs) simp_all

lemma Join_snoc: "xs \<noteq> [] \<Longrightarrow> Join sep (xs @ [x]) = Join sep xs @ sep @ x"
  by (induction xs rule: induct_list012) (simp_all add: Join_Cons)

fun Contains :: "string \<Rightarrow> string \<Rightarrow> bool" where
  "Contains [] sub = (sub = [])"
| "Contains (c # cs) sub = (starts_with sub (c # cs) \<or> Contains cs sub)"

lemma Contains_sublist: "Contains s sub \<longleftrightarrow> (\<exists>pre post. s = pre @ sub @ post)"
proof (induction s)
  case Nil
  then show ?case by auto
next
  case (Cons c cs)
  have "starts_with sub (c # cs) \<longleftrightarrow> (\<exists>post. c # cs = sub @ post)"
    unfolding starts_with_def by (metis append_eq_conv_conj append_take_drop_id)
  with Cons show ?case
    by (auto simp: Cons_eq_append_conv)
qed

section \<open>Decimal numbers: \<open>%d\<close> and \<open>Sscanf\<close>\<close>

definition digit :: "nat \<Rightarrow> char" where
  "digit d = char_of (48 + d)"

definition is_digit :: "char \<Rightarrow> bool" where
  "is_digit c \<longleftrightarrow> 48 \<le> (of_char c :: nat) \<and> (of_char c :: nat) \<le> 57"

definition digit_val :: "char \<Rightarrow> nat" where
  "digit_val c = of_char c - 48"

fun show_nat :: "nat \<Rightarrow> string" where
  "show_nat n = (if n < 10 then [digit n] else show_nat (n div 10) @ [digit (n mod 10)])"

declare show_nat.simps [simp del]

definition show_int :: "int \<Rightarrow> string" where
  "show_int i = (if i < 0 then CHR ''-'' # show_nat (nat (- i)) else show_nat (nat i))"

definition digits_val :: "string \<Rightarrow> nat" where
  "digits_val ds = foldl (\<lambda>n c. 10 * n + digit_val c) 0 ds"

lemma digit_digit:
  assumes "d < 10"
  shows "is_digit (digit d)" and "digit_val (digit d) = d"
  using assms by (auto simp: is_digit_def digit_def digit_val_def)

lemma show_nat_digits: "list_all is_digit (show_nat n) \<and> show_nat n \<noteq> []"
proof (induction n rule: show_nat.induct)
  case (1 n)
  then show ?case
    by (cases "n < 10") (auto simp: show_nat.simps [of n] digit_digit)
qed

lemma digits_val_show_nat: "digits_val (show_nat n) = n"
proof (induction n rule: show_nat.induct)
  case (1 n)
  show ?case
  proof (cases "n < 10")
    case True
    then show ?thesis by (simp add: show_nat.simps [of n] digits_val_def digit_digit)
  next
    case False
    with 1 have "digits_val (show_nat (n div 10)) = n div 10" by simp
    with False show ?thesis
      by (simp add: show_nat.simps [of n] digits_val_def digit_digit)
  qed
qed

text \<open>
  \<open>fmt.Sscanf(s, "%d", &n)\<close> with \<open>n\<close> zero before: white space is skipped (a newline is an
  error), then a sign, then at least one digit; what follows the digits is not read. On an
  error, and when the number does not fit 64 bits, \<open>n\<close> stays zero.
\<close>

function skip_space :: "string \<Rightarrow> string option" where
  "skip_space s =
     (if starts_with (bytes [10]) s then None
      else case find (\<lambda>p. starts_with p s) spaces of
        None \<Rightarrow> Some s
      | Some p \<Rightarrow> skip_space (drop (length p) s))"
  by pat_completeness auto
termination
  by (relation "measure length") (auto dest: find_space_shorter [OF _ spaces_nonempty])

declare skip_space.simps [simp del]

definition sign_and_digits :: "string \<Rightarrow> bool \<times> string" where
  "sign_and_digits s =
     (case s of
        [] \<Rightarrow> (False, [])
      | c # cs \<Rightarrow>
          if c = CHR ''-'' then (True, takeWhile is_digit cs)
          else if c = CHR ''+'' then (False, takeWhile is_digit cs)
          else (False, takeWhile is_digit s))"

definition Sscanf_d :: "string \<Rightarrow> int" where
  "Sscanf_d s =
     (case skip_space s of
        None \<Rightarrow> 0
      | Some t \<Rightarrow>
          (case sign_and_digits t of (neg, ds) \<Rightarrow>
            let v = (if neg then - int (digits_val ds) else int (digits_val ds))
            in if ds = [] \<or> v < - (2 ^ 63) \<or> 2 ^ 63 \<le> v then 0 else v))"

lemma digit_not_space:
  assumes "is_digit c \<or> c = CHR ''-''"
  shows "find (\<lambda>p. starts_with p (c # cs)) spaces = None"
    and "\<not> starts_with (bytes [10]) (c # cs)"
proof -
  have head: "p \<noteq> [] \<and> of_char (hd p) \<notin> ({45} \<union> {48..57} :: nat set)" if "p \<in> set spaces" for p
    using that by (auto simp: spaces_def ascii_spaces_def wide_spaces_def bytes_def)
  have c: "of_char c \<in> ({45} \<union> {48..57} :: nat set)"
    using assms by (auto simp: is_digit_def)
  have no_space: "\<not> starts_with p (c # cs)" if "p \<in> set spaces" for p
    using head [OF that] c by (cases p) (auto simp: starts_with_def)
  then show "find (\<lambda>p. starts_with p (c # cs)) spaces = None"
    by (simp add: find_None_iff)
  have "bytes [10] \<in> set spaces"
    by (simp add: spaces_def ascii_spaces_def)
  then show "\<not> starts_with (bytes [10]) (c # cs)"
    using no_space by blast
qed

lemma show_int_head:
  obtains c cs where "show_int i = c # cs" and "is_digit c \<or> c = CHR ''-''"
proof (cases "i < 0")
  case True
  then show ?thesis using that by (simp add: show_int_def)
next
  case False
  obtain c cs where "show_nat (nat i) = c # cs" "is_digit c"
    using show_nat_digits [of "nat i"] by (cases "show_nat (nat i)") auto
  with False show ?thesis using that by (simp add: show_int_def)
qed

lemma sign_and_digits_show_int:
  "sign_and_digits (show_int i) = (i < 0, show_nat (nat \<bar>i\<bar>))"
proof -
  have all: "takeWhile is_digit (show_nat n) = show_nat n" for n
    using show_nat_digits [of n] by (simp add: list_all_iff)
  show ?thesis
  proof (cases "i < 0")
    case True
    then show ?thesis by (simp add: show_int_def sign_and_digits_def all)
  next
    case False
    obtain c cs where c: "show_nat (nat i) = c # cs" "is_digit c"
      using show_nat_digits [of "nat i"] by (cases "show_nat (nat i)") auto
    then have "c \<noteq> CHR ''-''" and "c \<noteq> CHR ''+''"
      by (auto simp: is_digit_def)
    with False c all [of "nat i"] show ?thesis
      by (simp add: show_int_def sign_and_digits_def)
  qed
qed

text \<open>What \<open>%d\<close> prints, \<open>Sscanf\<close> reads back.\<close>

lemma Sscanf_d_show_int:
  assumes "- (2 ^ 63) \<le> i" and "i < 2 ^ 63"
  shows "Sscanf_d (show_int i) = i"
proof -
  obtain c cs where c: "show_int i = c # cs" "is_digit c \<or> c = CHR ''-''"
    by (rule show_int_head)
  then have "skip_space (show_int i) = Some (show_int i)"
    using digit_not_space [of c cs] by (subst skip_space.simps) simp
  moreover have "show_nat (nat \<bar>i\<bar>) \<noteq> []"
    using show_nat_digits by blast
  ultimately show ?thesis
    using assms by (simp add: Sscanf_d_def sign_and_digits_show_int digits_val_show_nat Let_def)
qed

section \<open>Quoting: \<open>%q\<close>\<close>

text \<open>
  Exact on ASCII, the alphabet of the names and identifiers the code quotes; a byte above it is
  passed through, as \<open>%q\<close> does with printable UTF-8.
\<close>

definition hex_digit :: "nat \<Rightarrow> char" where
  "hex_digit d = (if d < 10 then char_of (48 + d) else char_of (87 + d))"

definition quote_char :: "char \<Rightarrow> string" where
  "quote_char c =
     (let n = of_char c :: nat in
      if n = 34 then bytes [92, 34]
      else if n = 92 then bytes [92, 92]
      else if n = 7 then bytes [92, 97]
      else if n = 8 then bytes [92, 98]
      else if n = 12 then bytes [92, 102]
      else if n = 10 then bytes [92, 110]
      else if n = 13 then bytes [92, 114]
      else if n = 9 then bytes [92, 116]
      else if n = 11 then bytes [92, 118]
      else if n < 32 \<or> n = 127 then bytes [92, 120] @ [hex_digit (n div 16), hex_digit (n mod 16)]
      else [c])"

definition quoted :: "string \<Rightarrow> string" where
  "quoted s = bytes [34] @ concat (map quote_char s) @ bytes [34]"

end
