(* ===== verification/GoErrors.thy ===== *)
theory GoErrors
  imports GoText
begin

text \<open>
  Go errors as values: the error kinds the code creates or tells apart, \<open>fmt.Errorf\<close> with
  \<open>%w\<close>, \<open>errors.Join\<close>, \<open>errors.Is\<close> and \<open>errors.As\<close> as they walk the
  wrapped errors, and \<open>TaxIDError\<close> of \<open>internal/stripe/errors.go\<close>. An error that comes
  from the API server or from Stripe carries the class its library gives it and its text.
\<close>

datatype api_reason = NotFound | AlreadyExists | Forbidden | OtherReason

datatype stripe_code = ResourceMissing | SetupIntentUnexpectedState | OtherCode string

datatype go_error =
    ApiError api_reason string       \<comment> \<open>an error of the Kubernetes client\<close>
  | StripeError stripe_code string   \<comment> \<open>a \<open>*stripego.Error\<close>\<close>
  | ForeignError string              \<comment> \<open>any other error a library returns\<close>
  | NewError string                  \<comment> \<open>\<open>errors.New\<close>, \<open>fmt.Errorf\<close> without \<open>%w\<close>\<close>
  | WrapError string go_error        \<comment> \<open>\<open>fmt.Errorf("...: %w", err)\<close>\<close>
  | TaxIDError go_error              \<comment> \<open>\<open>&TaxIDError{Underlying: err}\<close>\<close>
  | ErrNamespaceTerminating          \<comment> \<open>the sentinel \<open>errNamespaceTerminating\<close>\<close>
  | JoinError "go_error list"        \<comment> \<open>\<open>errors.Join\<close>\<close>

fun Error :: "go_error \<Rightarrow> string" where
  "Error (ApiError r t) = t"
| "Error (StripeError c t) = t"
| "Error (ForeignError t) = t"
| "Error (NewError t) = t"
| "Error (WrapError p e) = p @ '': '' @ Error e"
| "Error (TaxIDError e) = ''reconciling Stripe tax IDs: '' @ Error e"
| "Error ErrNamespaceTerminating = ''namespace is terminating''"
| "Error (JoinError es) = Join (bytes [10]) (map Error es)"

section \<open>Looking through the wrapping\<close>

text \<open>The errors an error wraps: \<open>Unwrap\<close> of \<open>TaxIDError\<close>, and of what \<open>fmt.Errorf\<close> and \<open>errors.Join\<close> return.\<close>

fun Unwrap :: "go_error \<Rightarrow> go_error list" where
  "Unwrap (TaxIDError e) = [e]"
| "Unwrap (WrapError p e) = [e]"
| "Unwrap (JoinError es) = es"
| "Unwrap (ApiError r t) = []"
| "Unwrap (StripeError c t) = []"
| "Unwrap (ForeignError t) = []"
| "Unwrap (NewError t) = []"
| "Unwrap ErrNamespaceTerminating = []"

lemma Unwrap_smaller: "e' \<in> set (Unwrap e) \<Longrightarrow> size e' < size e"
  by (cases e) (auto dest: size_list_estimation' [OF _ order_refl, of _ _ size])

text \<open>The tree of an error in preorder, in which \<open>errors.Is\<close> and \<open>errors.As\<close> search.\<close>

function error_tree :: "go_error \<Rightarrow> go_error list" where
  "error_tree e = e # concat (map error_tree (Unwrap e))"
  by pat_completeness auto
termination
  by (relation "measure size") (simp_all add: Unwrap_smaller)

declare error_tree.simps [simp del]

primrec first_some :: "('a \<Rightarrow> 'b option) \<Rightarrow> 'a list \<Rightarrow> 'b option" where
  "first_some f [] = None"
| "first_some f (x # xs) = (case f x of None \<Rightarrow> first_some f xs | Some y \<Rightarrow> Some y)"

definition errors_As :: "(go_error \<Rightarrow> 'a option) \<Rightarrow> go_error \<Rightarrow> 'a option" where
  "errors_As f e = first_some f (error_tree e)"

definition errors_Is :: "go_error \<Rightarrow> go_error \<Rightarrow> bool" where
  "errors_Is target e \<longleftrightarrow> target \<in> set (error_tree e)"

lemma first_some_append: "first_some f (xs @ ys) = (case first_some f xs of None \<Rightarrow> first_some f ys | Some y \<Rightarrow> Some y)"
  by (induction xs) (auto split: option.split)

lemma first_some_concat: "first_some f (concat xss) = first_some (first_some f) xss"
  by (induction xss) (simp_all add: first_some_append split: option.split)

lemma first_some_map: "first_some f (map g xs) = first_some (\<lambda>x. f (g x)) xs"
  by (induction xs) (simp_all split: option.split)

lemma first_some_single [simp]: "first_some f [x] = f x"
  by (simp split: option.split)

lemma errors_As_eq: "errors_As f e = (case f e of None \<Rightarrow> first_some (errors_As f) (Unwrap e) | Some y \<Rightarrow> Some y)"
  unfolding errors_As_def error_tree.simps [of e]
  by (simp add: first_some_concat first_some_map errors_As_def [abs_def] split: option.split)

lemma errors_Is_eq: "errors_Is target e \<longleftrightarrow> e = target \<or> list_ex (errors_Is target) (Unwrap e)"
  unfolding errors_Is_def error_tree.simps [of e] by (auto simp: list_ex_iff errors_Is_def)

text \<open>The class of an error of the Kubernetes client (\<open>apierrors.IsNotFound\<close> and its kin).\<close>

definition api_class :: "go_error \<Rightarrow> api_reason option" where
  "api_class = errors_As (\<lambda>e. case e of ApiError r _ \<Rightarrow> Some r | _ \<Rightarrow> None)"

abbreviation IsNotFound :: "go_error \<Rightarrow> bool" where
  "IsNotFound e \<equiv> api_class e = Some NotFound"

abbreviation IsAlreadyExists :: "go_error \<Rightarrow> bool" where
  "IsAlreadyExists e \<equiv> api_class e = Some AlreadyExists"

abbreviation IsForbidden :: "go_error \<Rightarrow> bool" where
  "IsForbidden e \<equiv> api_class e = Some Forbidden"

text \<open>\<open>err.(*stripego.Error)\<close>: a type assertion, which looks at the outermost error only.\<close>

definition stripe_error_code :: "go_error \<Rightarrow> stripe_code option" where
  "stripe_error_code e = (case e of StripeError c _ \<Rightarrow> Some c | _ \<Rightarrow> None)"

text \<open>
  \<open>errors.As(err, &taxErr)\<close>: the first \<open>TaxIDError\<close> of the tree, here with the underlying error it
  carries; and \<open>errors.Is(err, errNamespaceTerminating)\<close>.
\<close>

definition As_TaxIDError :: "go_error \<Rightarrow> go_error option" where
  "As_TaxIDError = errors_As (\<lambda>e. case e of TaxIDError u \<Rightarrow> Some u | _ \<Rightarrow> None)"

definition Is_NamespaceTerminating :: "go_error \<Rightarrow> bool" where
  "Is_NamespaceTerminating = errors_Is ErrNamespaceTerminating"

lemma api_class_simps [simp]:
  "api_class (ApiError r t) = Some r"
  "api_class (StripeError c t) = None"
  "api_class (ForeignError t) = None"
  "api_class (NewError t) = None"
  "api_class (WrapError p e) = api_class e"
  "api_class (TaxIDError e) = api_class e"
  "api_class ErrNamespaceTerminating = None"
  "api_class (JoinError es) = first_some api_class es"
  unfolding api_class_def by (subst errors_As_eq, simp split: option.split)+

lemma As_TaxIDError_simps [simp]:
  "As_TaxIDError (TaxIDError u) = Some u"
  "As_TaxIDError (WrapError p e) = As_TaxIDError e"
  "As_TaxIDError (JoinError es) = first_some As_TaxIDError es"
  "As_TaxIDError (ApiError r t) = None"
  "As_TaxIDError (StripeError c t) = None"
  "As_TaxIDError (ForeignError t) = None"
  "As_TaxIDError (NewError t) = None"
  "As_TaxIDError ErrNamespaceTerminating = None"
  unfolding As_TaxIDError_def by (subst errors_As_eq, simp split: option.split)+

lemma Is_NamespaceTerminating_simps [simp]:
  "Is_NamespaceTerminating ErrNamespaceTerminating"
  "Is_NamespaceTerminating (WrapError p e) = Is_NamespaceTerminating e"
  "Is_NamespaceTerminating (TaxIDError e) = Is_NamespaceTerminating e"
  "Is_NamespaceTerminating (JoinError es) = list_ex Is_NamespaceTerminating es"
  "\<not> Is_NamespaceTerminating (ApiError r t)"
  "\<not> Is_NamespaceTerminating (StripeError c t)"
  "\<not> Is_NamespaceTerminating (ForeignError t)"
  "\<not> Is_NamespaceTerminating (NewError t)"
  unfolding Is_NamespaceTerminating_def by (subst errors_Is_eq, simp)+

lemma stripe_error_code_simps [simp]:
  "stripe_error_code (StripeError c t) = Some c"
  "stripe_error_code (ApiError r t) = None"
  "stripe_error_code (ForeignError t) = None"
  "stripe_error_code (NewError t) = None"
  "stripe_error_code (WrapError p e) = None"
  "stripe_error_code (TaxIDError e) = None"
  "stripe_error_code ErrNamespaceTerminating = None"
  "stripe_error_code (JoinError es) = None"
  by (simp_all add: stripe_error_code_def)

text \<open>An error a library hands over: it wraps none of the errors this program creates.\<close>

fun foreign :: "go_error \<Rightarrow> bool" where
  "foreign (ApiError r t) = True"
| "foreign (StripeError c t) = True"
| "foreign (ForeignError t) = True"
| "foreign _ = False"

lemma foreign_plain [simp]:
  "foreign e \<Longrightarrow> As_TaxIDError e = None"
  "foreign e \<Longrightarrow> \<not> Is_NamespaceTerminating e"
  by (cases e; simp)+

end
