(* ===== verification/ApiTypes.thy ===== *)
theory ApiTypes
  imports GoErrors
begin

text \<open>
  The objects the controllers and the webhook read and write. The types of
  \<open>api/v1alpha1\<close> are translated field by field (type metadata and list wrappers apart); of the
  types of \<open>go.miloapis.com/billing\<close> and of Kubernetes' object metadata the model has the
  fields the code uses. A pointer is an \<open>option\<close>; an enumeration whose constants are not under
  \<open>src/\<close> has a constructor for each constant the code names and one for every other value.
  Times are nanoseconds, as an \<open>int\<close>.
\<close>

section \<open>Kubernetes metadata\<close>

type_synonym gotime = int
type_synonym object_key = "string \<times> string"  \<comment> \<open>namespace and name\<close>

record owner_ref =
  or_Kind :: string
  or_Name :: string
  or_UID :: string
  or_Controller :: bool

record object_meta =
  Namespace :: string
  Name :: string
  UID :: string
  Generation :: int
  DeletionTimestamp :: "gotime option"
  Finalizers :: "string list"
  Annotations :: "(string \<rightharpoonup> string) option"  \<comment> \<open>\<open>None\<close> is the nil map\<close>
  OwnerReferences :: "owner_ref list"

definition new_object_meta :: "string \<Rightarrow> string \<Rightarrow> object_meta" where
  "new_object_meta ns n = \<lparr>Namespace = ns, Name = n, UID = '''', Generation = 0,
     DeletionTimestamp = None, Finalizers = [], Annotations = None, OwnerReferences = []\<rparr>"

definition key_of :: "object_meta \<Rightarrow> object_key" where
  "key_of m = (Namespace m, Name m)"

datatype condition_status = ConditionTrue | ConditionFalse | ConditionUnknown

record condition =
  c_Type :: string
  c_Status :: condition_status
  c_ObservedGeneration :: int
  c_Reason :: string
  c_Message :: string

section \<open>StripePaymentMethod\<close>

datatype spm_phase = PhaseUnset | Initializing | AwaitingConfirmation | Active | Failed

datatype instrument_type = InstrumentCard | InstrumentUSBankAccount

record setup_intent_status =
  si_ID :: string
  si_ClientSecret :: string
  si_Status :: string
  si_ExpiresAt :: "gotime option"

record card_details =
  cd_Brand :: string
  cd_Last4 :: string
  cd_IssuerIdentificationNumber :: string
  cd_Country :: string
  cd_ExpiryMonth :: int
  cd_ExpiryYear :: int
  cd_AVSResult :: string
  cd_CVCResult :: string

record bank_account_details =
  ba_BankName :: string
  ba_Last4 :: string
  ba_AccountType :: string

record instrument_details =
  in_Type :: instrument_type
  in_Card :: "card_details option"
  in_USBankAccount :: "bank_account_details option"

record spm_status =
  Phase :: spm_phase
  StripeCustomerID :: string
  StripePaymentMethodID :: string
  SetupIntent :: "setup_intent_status option"
  ConfirmedAt :: "gotime option"
  Instrument :: "instrument_details option"
  FailureReason :: string
  FailureMessage :: string
  Conditions :: "condition list"
  ObservedGeneration :: int

record spm =
  spm_meta :: object_meta
  spm_PaymentMethodRef :: string
  spm_status :: spm_status

definition empty_spm_status :: spm_status where
  "empty_spm_status = \<lparr>Phase = PhaseUnset, StripeCustomerID = '''', StripePaymentMethodID = '''',
     SetupIntent = None, ConfirmedAt = None, Instrument = None, FailureReason = '''',
     FailureMessage = '''', Conditions = [], ObservedGeneration = 0\<rparr>"

definition empty_setup_intent :: setup_intent_status where
  "empty_setup_intent = \<lparr>si_ID = '''', si_ClientSecret = '''', si_Status = '''', si_ExpiresAt = None\<rparr>"

section \<open>StripeCustomer and StripeProviderConfig\<close>

record sc_status =
  sc_StripeCustomerID :: string
  sc_Conditions :: "condition list"
  sc_ObservedGeneration :: int

record stripe_customer =
  sc_meta :: object_meta
  sc_BillingAccountRef :: string
  sc_status :: sc_status

definition StripeCustomerConditionReady :: string where
  "StripeCustomerConditionReady = ''Ready''"

definition StripeCustomerConditionTaxIDsApplied :: string where
  "StripeCustomerConditionTaxIDsApplied = ''TaxIDsApplied''"

definition empty_sc_status :: sc_status where
  "empty_sc_status = \<lparr>sc_StripeCustomerID = '''', sc_Conditions = [], sc_ObservedGeneration = 0\<rparr>"

record supported_tax_id =
  ti_Type :: string
  ti_DisplayName :: string
  ti_Example :: string
  ti_Country :: string

record cfg_status =
  cfg_Conditions :: "condition list"
  cfg_SupportedTaxIDTypes :: "supported_tax_id list"
  cfg_ObservedGeneration :: int

record provider_config =
  cfg_meta :: object_meta
  cfg_PublishableKey :: string
  cfg_APIVersion :: string
  cfg_status :: cfg_status

section \<open>Billing objects: the fields the code uses\<close>

record address =
  ad_Country :: string
  ad_Line1 :: string
  ad_Line2 :: string
  ad_City :: string
  ad_Region :: string
  ad_PostalCode :: string

record contact_info =
  ci_Name :: string
  ci_Email :: string
  ci_BusinessName :: string
  ci_InvoiceEmails :: "string list"
  ci_Address :: "address option"

record tax_id =
  tx_Type :: string
  tx_Value :: string

datatype arrangement_type = ArrangementInvoice | ArrangementOther string

record invoice_terms =
  PurchaseOrderNumber :: string
  AgreementReference :: string

record payment_arrangement =
  arr_Type :: arrangement_type
  arr_Invoice :: "invoice_terms option"

record billing_account =
  ba_meta :: object_meta
  ba_ContactInfo :: "contact_info option"
  ba_TaxIDs :: "tax_id list"
  ba_DefaultPaymentMethodRef :: "string option"
  ba_PaymentArrangement :: "payment_arrangement option"

datatype binding_phase = BindingPhaseUnset | BindingActive | BindingPhaseOther string

record binding =
  bab_meta :: object_meta
  bab_BillingAccountRef :: string
  bab_ProjectRef :: string
  bab_Phase :: binding_phase

datatype pm_phase = PMAwaitingConfirmation | PMActive | PMFailed | PMPhaseOther string

record pm_card =
  pc_Card :: card_details
  pc_BillingAddress :: "address option"

datatype pm_instrument_type = PMInstrumentCard | PMInstrumentOther string

record pm_details =
  pd_Type :: pm_instrument_type
  pd_Card :: "pm_card option"

record payment_method =
  pm_meta :: object_meta
  pm_BillingAccountRef :: string
  pm_ClassRef :: "string option"
  pm_Phase :: pm_phase
  pm_Details :: "pm_details option"
  pm_FailureReason :: string
  pm_FailureMessage :: string
  pm_Conditions :: "condition list"

record payment_method_class =
  pmc_Name :: string
  pmc_Provider :: string

end
