(* ===== verification/Interfaces.thy ===== *)
theory Interfaces
  imports ApiTypes
begin

text \<open>
  What the code calls that is not under \<open>src/\<close>, as parameters: the Kubernetes client, the
  Stripe SDK, helper functions of apimachinery, controller-runtime and billing, and the process's
  surroundings (clock, environment variables, the iteration order of a Go map). They are collected
  in the record \<open>env\<close>; nothing is defined for them. A call answers from the opaque world
  \<open>'w\<close> and may change it, so the answers may fail, differ from call to call, and reflect
  changes that other processes made in between.

  Every call that changes something outside the process is an \<open>effect\<close> on the trace, with its
  arguments and whether it succeeded.
\<close>

section \<open>Data exchanged with Stripe\<close>

subsection \<open>Types of \<open>internal/stripe/client.go\<close>\<close>

record customer_address =
  ca_Country :: string
  ca_Line1 :: string
  ca_Line2 :: string
  ca_City :: string
  ca_State :: string
  ca_PostalCode :: string

record invoice_field =
  if_Name :: string
  if_Value :: string

record customer_details =
  dt_Name :: string
  dt_Email :: string
  dt_Address :: "customer_address option"
  dt_TaxIDs :: "tax_id list"
  dt_BusinessName :: string
  dt_IndividualName :: string
  dt_DefaultPaymentMethodID :: string
  dt_Organizations :: "string list"
  dt_Projects :: "string list"
  dt_InvoiceFields :: "invoice_field list"

record account_key =
  ak_Namespace :: string
  ak_Name :: string
  ak_UID :: string

record setup_intent_result =
  sir_ID :: string
  sir_ClientSecret :: string
  sir_Status :: string
  sir_ExpiresAt :: "gotime option"  \<comment> \<open>never set\<close>

record payment_method_details =
  pmd_ID :: string
  pmd_Type :: string
  pmd_Name :: string
  pmd_Brand :: string
  pmd_Last4 :: string
  pmd_BIN :: string
  pmd_Country :: string
  pmd_ExpMonth :: int
  pmd_ExpYear :: int
  pmd_AVSResult :: string
  pmd_CVCResult :: string
  pmd_BillingAddress :: "customer_address option"

subsection \<open>Types of the SDK: the fields the code uses\<close>

record address_params =
  ap_Country :: "string option"
  ap_Line1 :: "string option"
  ap_Line2 :: "string option"
  ap_City :: "string option"
  ap_State :: "string option"
  ap_PostalCode :: "string option"

record invoice_settings_params =
  isp_DefaultPaymentMethod :: "string option"
  isp_CustomFields :: "invoice_field list option"

record customer_params =
  cp_Name :: "string option"
  cp_Email :: "string option"
  cp_Address :: "address_params option"
  cp_Metadata :: "(string \<rightharpoonup> string) option"
  cp_InvoiceSettings :: "invoice_settings_params option"

record sdk_customer =
  cus_ID :: string
  cus_Name :: string
  cus_Metadata :: "string \<rightharpoonup> string"

record sdk_tax_id =
  txi_ID :: string
  txi_Type :: string
  txi_Value :: string

record setup_intent_params =
  sip_Metadata :: "string \<rightharpoonup> string"
  sip_Customer :: string
  sip_Usage :: string
  sip_PaymentMethodTypes :: "string list"

record sdk_setup_intent =
  ssi_ID :: string
  ssi_ClientSecret :: string
  ssi_Status :: string

record sdk_checks =
  chk_AddressLine1Check :: string
  chk_AddressPostalCodeCheck :: string
  chk_CVCCheck :: string

record sdk_card =
  scd_Brand :: string
  scd_Last4 :: string
  scd_Country :: string
  scd_ExpMonth :: int
  scd_ExpYear :: int
  scd_IIN :: string
  scd_Checks :: "sdk_checks option"

record sdk_billing_details =
  sbd_Name :: string
  sbd_Address :: "customer_address option"

record sdk_payment_method =
  spm_ID :: string
  spm_Type :: string
  spm_Card :: "sdk_card option"
  spm_BillingDetails :: "sdk_billing_details option"

record stripe_event =
  ev_ID :: string
  ev_Type :: string
  ev_Data :: "string option"  \<comment> \<open>\<open>None\<close> is a nil \<open>Data\<close>, else \<open>Data.Raw\<close>\<close>

section \<open>The webhook's payload\<close>

record last_setup_error =
  le_Code :: string
  le_DeclineCode :: string
  le_Message :: string

record setup_intent_payload =
  sp_ID :: string
  sp_Status :: string
  sp_Customer :: string
  sp_PaymentMethod :: string
  sp_LastSetupError :: "last_setup_error option"
  sp_Metadata :: "string \<rightharpoonup> string"

section \<open>Effects\<close>

datatype event_kind = EventNormal | EventWarning
datatype event_reason = ReasonPaymentMethodAttached | ReasonPaymentMethodFailed

datatype effect =
    CustomersNew customer_params "string option"       \<comment> \<open>the new customer's ID on success\<close>
  | CustomersUpdate string customer_params bool
  | TaxIDsNew string string string bool                 \<comment> \<open>customer, type, value\<close>
  | TaxIDsDel string string bool                        \<comment> \<open>tax ID, customer\<close>
  | SetupIntentsNew setup_intent_params bool
  | SetupIntentsCancel string "go_error option"          \<comment> \<open>the error when it failed\<close>
  | PaymentMethodsDetach string "go_error option"
  | SPMCreate spm bool
  | SPMUpdate spm bool
  | SPMStatusPatch spm bool
  | SCCreate stripe_customer bool
  | SCStatusPatch stripe_customer bool
  | CfgStatusPatch provider_config bool
  | PMStatusPatch payment_method bool
  | EventRecorded object_key "string \<rightharpoonup> string" event_kind event_reason string

definition failure :: "go_error + 'a \<Rightarrow> go_error option" where
  "failure r = (case r of Inl e \<Rightarrow> Some e | Inr _ \<Rightarrow> None)"

lemma failure_simps [simp]: "failure (Inl e) = Some e" "failure (Inr x) = None"
  by (simp_all add: failure_def)

section \<open>The parameters\<close>

text \<open>
  The Kubernetes client. A patch takes the object as read and the object as changed (its body is
  their difference) and, like a create and an update, answers with the server's version, which the
  client decodes into the caller's object.
\<close>

record 'w kube =
  get_spm :: "object_key \<Rightarrow> 'w \<Rightarrow> (go_error + spm) \<times> 'w"
  list_spm :: "string option \<Rightarrow> 'w \<Rightarrow> (go_error + spm list) \<times> 'w"
  create_spm :: "spm \<Rightarrow> 'w \<Rightarrow> (go_error + spm) \<times> 'w"
  update_spm :: "spm \<Rightarrow> 'w \<Rightarrow> (go_error + spm) \<times> 'w"
  patch_spm_status :: "spm \<Rightarrow> spm \<Rightarrow> 'w \<Rightarrow> (go_error + spm) \<times> 'w"
  get_sc :: "object_key \<Rightarrow> 'w \<Rightarrow> (go_error + stripe_customer) \<times> 'w"
  read_sc :: "object_key \<Rightarrow> 'w \<Rightarrow> (go_error + stripe_customer) \<times> 'w"  \<comment> \<open>uncached\<close>
  create_sc :: "stripe_customer \<Rightarrow> 'w \<Rightarrow> (go_error + stripe_customer) \<times> 'w"
  patch_sc_status :: "stripe_customer \<Rightarrow> stripe_customer \<Rightarrow> 'w \<Rightarrow> (go_error + stripe_customer) \<times> 'w"
  get_cfg :: "string \<Rightarrow> 'w \<Rightarrow> (go_error + provider_config) \<times> 'w"
  patch_cfg_status :: "provider_config \<Rightarrow> provider_config \<Rightarrow> 'w \<Rightarrow> (go_error + provider_config) \<times> 'w"
  get_ba :: "object_key \<Rightarrow> 'w \<Rightarrow> (go_error + billing_account) \<times> 'w"
  get_pm :: "object_key \<Rightarrow> 'w \<Rightarrow> (go_error + payment_method) \<times> 'w"
  patch_pm_status :: "payment_method \<Rightarrow> payment_method \<Rightarrow> 'w \<Rightarrow> (go_error + payment_method) \<times> 'w"
  get_pmc :: "string \<Rightarrow> 'w \<Rightarrow> (go_error + payment_method_class) \<times> 'w"
  list_bindings :: "string \<Rightarrow> 'w \<Rightarrow> (go_error + binding list) \<times> 'w"
  record_event :: "object_key \<Rightarrow> 'w \<Rightarrow> unit \<times> 'w"

text \<open>
  The Stripe SDK, for one secret key. An iterator yields a list of items and, when it stopped on an
  error, that error.
\<close>

record 'w stripe_api =
  customers_search :: "string \<Rightarrow> 'w \<Rightarrow> (sdk_customer list \<times> go_error option) \<times> 'w"
  customers_new :: "customer_params \<Rightarrow> 'w \<Rightarrow> (go_error + sdk_customer) \<times> 'w"
  customers_update :: "string \<Rightarrow> customer_params \<Rightarrow> 'w \<Rightarrow> (go_error + sdk_customer) \<times> 'w"
  customers_get :: "string \<Rightarrow> 'w \<Rightarrow> (go_error + sdk_customer) \<times> 'w"
  taxids_list :: "string \<Rightarrow> 'w \<Rightarrow> (sdk_tax_id list \<times> go_error option) \<times> 'w"
  taxids_new :: "string \<Rightarrow> string \<Rightarrow> string \<Rightarrow> 'w \<Rightarrow> (go_error + sdk_tax_id) \<times> 'w"
  taxids_del :: "string \<Rightarrow> string \<Rightarrow> 'w \<Rightarrow> (go_error + sdk_tax_id) \<times> 'w"
  setup_intents_new :: "setup_intent_params \<Rightarrow> 'w \<Rightarrow> (go_error + sdk_setup_intent) \<times> 'w"
  setup_intents_cancel :: "string \<Rightarrow> 'w \<Rightarrow> (go_error + sdk_setup_intent) \<times> 'w"
  payment_methods_detach :: "string \<Rightarrow> 'w \<Rightarrow> (go_error + sdk_payment_method) \<times> 'w"
  payment_methods_get :: "string \<Rightarrow> 'w \<Rightarrow> (go_error + sdk_payment_method) \<times> 'w"

text \<open>Helper functions and constants of the libraries.\<close>

datatype owner_kind = KindBillingAccount | KindPaymentMethod

datatype decline_reason = DeclineInsufficientFunds | DeclineExpiredCard
  | DeclineAuthenticationRequired | DeclineProcessingError | DeclineDeclined

record lib =
  SetStatusCondition :: "condition list \<Rightarrow> condition \<Rightarrow> condition list"
  IsStatusConditionTrue :: "condition list \<Rightarrow> string \<Rightarrow> bool"
  ContainsFinalizer :: "object_meta \<Rightarrow> string \<Rightarrow> bool"
  AddFinalizer :: "object_meta \<Rightarrow> string \<Rightarrow> object_meta"
  RemoveFinalizer :: "object_meta \<Rightarrow> string \<Rightarrow> object_meta"
  SetControllerReference :: "owner_kind \<Rightarrow> object_meta \<Rightarrow> object_meta \<Rightarrow> go_error + object_meta"
  GetControllerOf :: "object_meta \<Rightarrow> owner_ref option"
  OrganizationScopeAnnotations :: "string \<Rightarrow> (string \<rightharpoonup> string)"
  EventTime :: "gotime \<Rightarrow> string"
  DeclineReasonText :: "decline_reason \<Rightarrow> string"
  InstrumentReady :: string
  AnnBillingAccount :: string
  AnnCardBrand :: string
  AnnCardLast4 :: string
  AnnCardExpiry :: string
  AnnDeclineReason :: string

text \<open>
  The surroundings of the process. \<open>map_range\<close> is the order in which Go ranges over a map;
  \<open>rfc3339\<close> formats a time in the process's time zone; \<open>unmarshal_setup_intent\<close> is the
  reflective \<open>json.Unmarshal\<close> at the payload's type; \<open>construct_event\<close> verifies a
  webhook's signature and decodes its envelope.
\<close>

record 'w surroundings =
  clock :: "'w \<Rightarrow> gotime \<times> 'w"
  getenv :: "string \<Rightarrow> 'w \<Rightarrow> string \<times> 'w"
  map_range :: "(string \<times> string) list \<Rightarrow> 'w \<Rightarrow> (string \<times> string) list \<times> 'w"
  rfc3339 :: "gotime \<Rightarrow> string"
  unmarshal_setup_intent :: "string \<Rightarrow> go_error + setup_intent_payload"
  construct_event :: "string \<Rightarrow> string \<Rightarrow> string \<Rightarrow> gotime \<Rightarrow> 'w \<Rightarrow> (go_error + stripe_event) \<times> 'w"

record 'w env =
  kube :: "'w kube"
  sdk :: "string \<Rightarrow> 'w stripe_api"  \<comment> \<open>\<open>client.New(secretKey, nil)\<close>\<close>
  lib :: lib
  os :: "'w surroundings"

type_synonym ('w, 'a) prog = "('w, effect, 'a) io"

section \<open>Documented behaviour of the libraries, as named hypotheses\<close>

definition find_condition :: "condition list \<Rightarrow> string \<Rightarrow> condition option" where
  "find_condition cs t = find (\<lambda>c. c_Type c = t) cs"

definition conditions_ok :: "lib \<Rightarrow> bool" where
  "conditions_ok L \<longleftrightarrow>
     (\<forall>cs c t. find_condition (SetStatusCondition L cs c) t =
        (if t = c_Type c then Some c else find_condition cs t)) \<and>
     (\<forall>cs t. IsStatusConditionTrue L cs t \<longleftrightarrow>
        (\<exists>c. find_condition cs t = Some c \<and> c_Status c = ConditionTrue))"

definition finalizers_ok :: "lib \<Rightarrow> bool" where
  "finalizers_ok L \<longleftrightarrow>
     (\<forall>m f. ContainsFinalizer L m f \<longleftrightarrow> f \<in> set (Finalizers m)) \<and>
     (\<forall>m f. AddFinalizer L m f =
        m\<lparr>Finalizers := (if f \<in> set (Finalizers m) then Finalizers m else Finalizers m @ [f])\<rparr>) \<and>
     (\<forall>m f. RemoveFinalizer L m f = m\<lparr>Finalizers := filter (\<lambda>g. g \<noteq> f) (Finalizers m)\<rparr>)"

definition map_range_ok :: "'w surroundings \<Rightarrow> bool" where
  "map_range_ok S \<longleftrightarrow> (\<forall>kvs w. mset (fst (map_range S kvs w)) = mset kvs)"

end
