(* ===== verification/Samples.thy ===== *)
theory Samples
  imports Interfaces
begin

text \<open>
  Concrete values for the witnesses: a cluster in which nothing is found, a Stripe that is down, the
  library helpers with their documented behaviour, and small objects. A witness overrides the few
  calls its run makes. Nothing in the model uses this theory.
\<close>

section \<open>Parameters\<close>

definition missing :: "'w \<Rightarrow> (go_error + 'a) \<times> 'w" where
  "missing w = (Inl (ApiError NotFound ''not found''), w)"

definition down :: "'w \<Rightarrow> (go_error + 'a) \<times> 'w" where
  "down w = (Inl (ForeignError ''connection refused''), w)"

definition answer :: "'a \<Rightarrow> 'w \<Rightarrow> (go_error + 'a) \<times> 'w" where
  "answer x w = (Inr x, w)"

definition sample_kube :: "'w kube" where
  "sample_kube = \<lparr>get_spm = (\<lambda>_. missing), list_spm = (\<lambda>_. answer []),
     create_spm = answer, update_spm = answer, patch_spm_status = (\<lambda>_. answer),
     get_sc = (\<lambda>_. missing), read_sc = (\<lambda>_. missing), create_sc = answer,
     patch_sc_status = (\<lambda>_. answer), get_cfg = (\<lambda>_. missing), patch_cfg_status = (\<lambda>_. answer),
     get_ba = (\<lambda>_. missing), get_pm = (\<lambda>_. missing), patch_pm_status = (\<lambda>_. answer),
     get_pmc = (\<lambda>_. missing), list_bindings = (\<lambda>_. answer []), record_event = (\<lambda>_ w. ((), w))\<rparr>"

definition sample_stripe :: "'w stripe_api" where
  "sample_stripe = \<lparr>customers_search = (\<lambda>_ w. (([], None), w)), customers_new = (\<lambda>_. down),
     customers_update = (\<lambda>_ _. down), customers_get = (\<lambda>_. down),
     taxids_list = (\<lambda>_ w. (([], None), w)), taxids_new = (\<lambda>_ _ _. down), taxids_del = (\<lambda>_ _. down),
     setup_intents_new = (\<lambda>_. down), setup_intents_cancel = (\<lambda>_. down),
     payment_methods_detach = (\<lambda>_. down), payment_methods_get = (\<lambda>_. down)\<rparr>"

fun set_condition :: "condition list \<Rightarrow> condition \<Rightarrow> condition list" where
  "set_condition [] c = [c]"
| "set_condition (d # ds) c = (if c_Type d = c_Type c then c # ds else d # set_condition ds c)"

definition condition_true :: "condition list \<Rightarrow> string \<Rightarrow> bool" where
  "condition_true cs t = (case find_condition cs t of None \<Rightarrow> False | Some c \<Rightarrow> c_Status c = ConditionTrue)"

definition owner_reference :: "owner_kind \<Rightarrow> object_meta \<Rightarrow> owner_ref" where
  "owner_reference k owner = \<lparr>or_Kind = (case k of KindBillingAccount \<Rightarrow> ''BillingAccount''
       | KindPaymentMethod \<Rightarrow> ''PaymentMethod''),
     or_Name = Name owner, or_UID = UID owner, or_Controller = True\<rparr>"

definition sample_lib :: lib where
  "sample_lib = \<lparr>SetStatusCondition = set_condition, IsStatusConditionTrue = condition_true,
     ContainsFinalizer = (\<lambda>m f. f \<in> set (Finalizers m)),
     AddFinalizer = (\<lambda>m f. m\<lparr>Finalizers :=
        (if f \<in> set (Finalizers m) then Finalizers m else Finalizers m @ [f])\<rparr>),
     RemoveFinalizer = (\<lambda>m f. m\<lparr>Finalizers := filter (\<lambda>g. g \<noteq> f) (Finalizers m)\<rparr>),
     SetControllerReference = (\<lambda>k owner m. Inr (m\<lparr>OwnerReferences := [owner_reference k owner]\<rparr>)),
     GetControllerOf = (\<lambda>m. find or_Controller (OwnerReferences m)),
     OrganizationScopeAnnotations = (\<lambda>ns. [''scope'' \<mapsto> ns]),
     EventTime = (\<lambda>_. ''time''), DeclineReasonText = (\<lambda>_. ''declined''),
     InstrumentReady = ''InstrumentReady'', AnnBillingAccount = ''billing-account'',
     AnnCardBrand = ''card-brand'', AnnCardLast4 = ''card-last4'', AnnCardExpiry = ''card-expiry'',
     AnnDeclineReason = ''decline-reason''\<rparr>"

definition sample_payload :: setup_intent_payload where
  "sample_payload = \<lparr>sp_ID = ''seti_1'', sp_Status = ''succeeded'', sp_Customer = ''cus_1'',
     sp_PaymentMethod = ''pm_1'', sp_LastSetupError = None, sp_Metadata = Map.empty\<rparr>"

definition sample_event :: stripe_event where
  "sample_event = \<lparr>ev_ID = ''evt_1'', ev_Type = ''setup_intent.succeeded'', ev_Data = Some ''data''\<rparr>"

definition sample_os :: "'w surroundings" where
  "sample_os = \<lparr>clock = (\<lambda>w. (0, w)), getenv = (\<lambda>_ w. (''secret'', w)), map_range = (\<lambda>kvs w. (kvs, w)),
     rfc3339 = (\<lambda>_. ''time''), unmarshal_setup_intent = (\<lambda>_. Inr sample_payload),
     construct_event = (\<lambda>_ _ _ _. answer sample_event)\<rparr>"

definition sample_env :: "'w env" where
  "sample_env = \<lparr>kube = sample_kube, sdk = (\<lambda>_. sample_stripe), lib = sample_lib, os = sample_os\<rparr>"

lemma find_set_condition:
  "find_condition (set_condition cs c) t = (if t = c_Type c then Some c else find_condition cs t)"
  by (induction cs) (auto simp: find_condition_def)

lemma sample_lib_conditions: "conditions_ok sample_lib"
  by (simp add: conditions_ok_def sample_lib_def find_set_condition condition_true_def
      split: option.split)

lemma sample_lib_finalizers: "finalizers_ok sample_lib"
  by (simp add: finalizers_ok_def sample_lib_def)

lemma sample_os_range: "map_range_ok sample_os"
  by (simp add: map_range_ok_def sample_os_def)

section \<open>Objects\<close>

definition st0 :: "'w \<Rightarrow> ('w, effect) st" where
  "st0 w = \<lparr>world = w, trace = []\<rparr>"

definition sample_key :: account_key where
  "sample_key = \<lparr>ak_Namespace = ''org'', ak_Name = ''acme'', ak_UID = ''u1''\<rparr>"

definition sample_details :: customer_details where
  "sample_details = \<lparr>dt_Name = ''Acme'', dt_Email = '''', dt_Address = None, dt_TaxIDs = [],
     dt_BusinessName = ''Acme'', dt_IndividualName = '''', dt_DefaultPaymentMethodID = '''',
     dt_Organizations = [''org''], dt_Projects = [], dt_InvoiceFields = []\<rparr>"

definition sample_customer :: sdk_customer where
  "sample_customer = \<lparr>cus_ID = ''cus_1'', cus_Name = '''', cus_Metadata = [''billing_account_uid'' \<mapsto> ''u1'']\<rparr>"

definition sample_ba :: billing_account where
  "sample_ba = \<lparr>ba_meta = (new_object_meta ''org'' ''acme'')\<lparr>UID := ''u1''\<rparr>, ba_ContactInfo = None,
     ba_TaxIDs = [], ba_DefaultPaymentMethodRef = None, ba_PaymentArrangement = None\<rparr>"

definition sample_spm :: spm where
  "sample_spm = \<lparr>spm_meta = new_object_meta ''org'' ''card-1'', spm_PaymentMethodRef = ''card-1'',
     spm_status = empty_spm_status\<rparr>"

definition live_spm :: "spm_status \<Rightarrow> spm" where
  "live_spm st = sample_spm\<lparr>spm_meta := (new_object_meta ''org'' ''card-1'')\<lparr>
     Finalizers := [''stripe.billing.miloapis.com/cleanup'']\<rparr>, spm_status := st\<rparr>"

definition sample_pm :: payment_method where
  "sample_pm = \<lparr>pm_meta = new_object_meta ''org'' ''card-1'', pm_BillingAccountRef = ''acme'',
     pm_ClassRef = Some ''stripe-default'', pm_Phase = PMPhaseOther ''Pending'', pm_Details = None,
     pm_FailureReason = '''', pm_FailureMessage = '''', pm_Conditions = []\<rparr>"

definition sample_cfg :: provider_config where
  "sample_cfg = \<lparr>cfg_meta = new_object_meta '''' ''default'', cfg_PublishableKey = ''pk'',
     cfg_APIVersion = '''',
     cfg_status = \<lparr>cfg_Conditions = [], cfg_SupportedTaxIDTypes = [], cfg_ObservedGeneration = 0\<rparr>\<rparr>"

lemmas sample_defs = missing_def down_def answer_def sample_kube_def sample_stripe_def sample_lib_def
  sample_os_def sample_env_def st0_def sample_key_def sample_details_def sample_customer_def
  sample_ba_def sample_spm_def sample_pm_def sample_cfg_def new_object_meta_def empty_spm_status_def
  sample_event_def sample_payload_def condition_true_def owner_reference_def

end
