(* ===== verification/StripeClient.thy ===== *)
theory StripeClient
  imports Interfaces Samples "HOL-Library.AList"
begin

text \<open>
  The Stripe client of \<open>internal/stripe/client.go\<close>: the search value escape, the metadata that
  ties a customer to its account, the name lists, the customer parameters, finding, creating and
  updating a customer, the tax ID reconcile loop, SetupIntents, PaymentMethods and the name
  backfill. \<open>S\<close> is the SDK for the configured key and \<open>rt\<close> the surroundings.
\<close>

section \<open>Search values and metadata\<close>

fun escapeSearchQueryValue :: "string \<Rightarrow> string" where
  "escapeSearchQueryValue [] = []"
| "escapeSearchQueryValue (c # cs) =
     (if of_char c = (39::nat) \<or> of_char c = (92::nat)
      then bytes [92] @ [c] @ escapeSearchQueryValue cs
      else [c] @ escapeSearchQueryValue cs)"

definition search_query :: "string \<Rightarrow> string \<Rightarrow> string" where
  "search_query key v =
     ''metadata['' @ bytes [39] @ key @ bytes [39] @ '']:'' @
     bytes [39] @ escapeSearchQueryValue v @ bytes [39]"

definition md_get :: "(string \<rightharpoonup> string) \<Rightarrow> string \<Rightarrow> string" where
  "md_get m k = (case m k of None \<Rightarrow> '''' | Some v \<Rightarrow> v)"

definition billingAccountMetadata :: "account_key \<Rightarrow> (string \<rightharpoonup> string)" where
  "billingAccountMetadata a =
     foldl (\<lambda>md (k, v). if v \<noteq> '''' then md(k \<mapsto> v) else md) Map.empty
       [(''billing_account'', ak_Name a),
        (''billing_account_namespace'', ak_Namespace a),
        (''billing_account_uid'', ak_UID a)]"

definition stripeMetadataValueMax :: nat where
  "stripeMetadataValueMax = 500"

definition ellipsis :: string where
  "ellipsis = '', '' @ bytes [0xE2, 0x80, 0xA6]"

fun join_loop :: "bool \<Rightarrow> string \<Rightarrow> string list \<Rightarrow> string" where
  "join_loop first out [] = out"
| "join_loop first out (n # names) =
     (let next = (if first then n else '', '' @ n) in
      if length out + length next > stripeMetadataValueMax - length ellipsis
      then out @ ellipsis
      else join_loop False (out @ next) names)"

definition joinNamesForMetadata :: "string list \<Rightarrow> string" where
  "joinNamesForMetadata names = (if names = [] then '''' else join_loop True '''' names)"

section \<open>Customer parameters\<close>

definition nilIfEmpty :: "string \<Rightarrow> string option" where
  "nilIfEmpty s = (if s = '''' then None else Some s)"

definition applyCustomerDetails :: "customer_params \<Rightarrow> customer_details \<Rightarrow> customer_params" where
  "applyCustomerDetails p d =
     (let p1 = (if dt_Name d \<noteq> '''' then p\<lparr>cp_Name := Some (dt_Name d)\<rparr> else p);
          p2 = (if dt_Email d \<noteq> '''' then p1\<lparr>cp_Email := Some (dt_Email d)\<rparr> else p1);
          p3 = (case dt_Address d of None \<Rightarrow> p2
                | Some a \<Rightarrow> p2\<lparr>cp_Address := Some
                    \<lparr>ap_Country = nilIfEmpty (ca_Country a), ap_Line1 = nilIfEmpty (ca_Line1 a),
                     ap_Line2 = nilIfEmpty (ca_Line2 a), ap_City = nilIfEmpty (ca_City a),
                     ap_State = nilIfEmpty (ca_State a),
                     ap_PostalCode = nilIfEmpty (ca_PostalCode a)\<rparr>\<rparr>);
          md = (case cp_Metadata p3 of None \<Rightarrow> Map.empty | Some m \<Rightarrow> m);
          md = md(''business_name'' \<mapsto> dt_BusinessName d);
          md = md(''individual_name'' \<mapsto> dt_IndividualName d);
          md = md(''organizations'' \<mapsto> joinNamesForMetadata (dt_Organizations d));
          md = md(''projects'' \<mapsto> joinNamesForMetadata (dt_Projects d))
      in p3\<lparr>cp_Metadata := Some md,
            cp_InvoiceSettings := Some
              \<lparr>isp_DefaultPaymentMethod = Some (dt_DefaultPaymentMethodID d),
               isp_CustomFields = Some (map (\<lambda>f. \<lparr>if_Name = if_Name f, if_Value = if_Value f\<rparr>)
                 (dt_InvoiceFields d))\<rparr>\<rparr>)"

definition account_params :: "account_key \<Rightarrow> customer_params" where
  "account_params a = \<lparr>cp_Name = None, cp_Email = None, cp_Address = None,
     cp_Metadata = Some (billingAccountMetadata a), cp_InvoiceSettings = None\<rparr>"

section \<open>Finding the account's customer\<close>

definition searchCustomer ::
  "'w stripe_api \<Rightarrow> string \<Rightarrow> (sdk_customer \<Rightarrow> bool) \<Rightarrow> ('w, go_error + string) prog" where
  "searchCustomer S query match = do {
     r \<leftarrow> ask (customers_search S query);
     case r of (items, err) \<Rightarrow>
       (case find match items of
          Some cu \<Rightarrow> ret (Inr (cus_ID cu))
        | None \<Rightarrow> (case err of Some e \<Rightarrow> ret (Inl e) | None \<Rightarrow> ret (Inr '''')))
   }"

definition legacy_match :: "account_key \<Rightarrow> sdk_customer \<Rightarrow> bool" where
  "legacy_match a cu =
     (let uid = md_get (cus_Metadata cu) ''billing_account_uid'' in
      if uid \<noteq> '''' then uid = ak_UID a
      else list_ex (\<lambda>org. TrimSpace org = ak_Namespace a)
             (Split (CHR '','') (md_get (cus_Metadata cu) ''organizations'')))"

definition findCustomerByBillingAccount ::
  "'w stripe_api \<Rightarrow> account_key \<Rightarrow> ('w, go_error + string) prog" where
  "findCustomerByBillingAccount S a = do {
     r \<leftarrow> (if ak_UID a \<noteq> ''''
          then searchCustomer S (search_query ''billing_account_uid'' (ak_UID a)) (\<lambda>_. True)
          else ret (Inr ''''));
     (if r \<noteq> Inr '''' then ret r
      else searchCustomer S (search_query ''billing_account'' (ak_Name a)) (legacy_match a))
   }"

section \<open>Tax IDs\<close>

definition tax_key :: "string \<Rightarrow> string \<Rightarrow> string" where
  "tax_key t v = t @ ''='' @ v"

definition existing_tax_ids :: "sdk_tax_id list \<Rightarrow> (string \<times> string) list" where
  "existing_tax_ids items =
     foldl (\<lambda>m t. AList.update (tax_key (txi_Type t) (txi_Value t)) (txi_ID t) m) [] items"

fun create_tax_ids ::
  "'w stripe_api \<Rightarrow> string \<Rightarrow> (string \<rightharpoonup> string) \<Rightarrow> tax_id list \<Rightarrow> ('w, go_error option) prog" where
  "create_tax_ids S cus existing [] = ret None"
| "create_tax_ids S cus existing (d # ds) =
     (if existing (tax_key (tx_Type d) (tx_Value d)) \<noteq> None
      then create_tax_ids S cus existing ds
      else do {
        r \<leftarrow> act (taxids_new S cus (tx_Type d) (tx_Value d))
              (\<lambda>r. TaxIDsNew cus (tx_Type d) (tx_Value d) (\<not> isl r));
        case r of
          Inl e \<Rightarrow> ret (Some (WrapError (''creating tax_id '' @ tx_Type d @ ''='' @ tx_Value d
            @ '' on Customer '' @ quoted cus) e))
        | Inr _ \<Rightarrow> create_tax_ids S cus existing ds
      })"

fun delete_tax_ids ::
  "'w stripe_api \<Rightarrow> string \<Rightarrow> string set \<Rightarrow> (string \<times> string) list \<Rightarrow> ('w, go_error option) prog" where
  "delete_tax_ids S cus wanted [] = ret None"
| "delete_tax_ids S cus wanted ((key, i) # kvs) =
     (if key \<in> wanted then delete_tax_ids S cus wanted kvs
      else do {
        r \<leftarrow> act (taxids_del S i cus) (\<lambda>r. TaxIDsDel i cus (\<not> isl r));
        case r of
          Inl e \<Rightarrow> ret (Some (WrapError (''deleting tax_id '' @ quoted i @ '' on Customer ''
            @ quoted cus) e))
        | Inr _ \<Rightarrow> delete_tax_ids S cus wanted kvs
      })"

definition desired_keys :: "tax_id list \<Rightarrow> string set" where
  "desired_keys ds = set (map (\<lambda>d. tax_key (tx_Type d) (tx_Value d)) ds)"

definition reconcileTaxIDs ::
  "'w stripe_api \<Rightarrow> 'w surroundings \<Rightarrow> string \<Rightarrow> tax_id list \<Rightarrow> ('w, go_error option) prog" where
  "reconcileTaxIDs S rt cus desired =
     (if cus = '''' then ret None
      else do {
        r \<leftarrow> ask (taxids_list S cus);
        case r of (items, err) \<Rightarrow>
          (case err of
             Some e \<Rightarrow> ret (Some (WrapError (''listing Customer tax_ids on '' @ quoted cus) e))
           | None \<Rightarrow> do {
               let existing = existing_tax_ids items;
               created \<leftarrow> create_tax_ids S cus (map_of existing) desired;
               case created of
                 Some e \<Rightarrow> ret (Some e)
               | None \<Rightarrow> do {
                   kvs \<leftarrow> ask (map_range rt existing);
                   delete_tax_ids S cus (desired_keys desired) kvs
                 }
             })
      })"

section \<open>EnsureCustomer\<close>

definition ok_id :: "go_error + sdk_customer \<Rightarrow> string option" where
  "ok_id r = (case r of Inl e \<Rightarrow> None | Inr cu \<Rightarrow> Some (cus_ID cu))"

text \<open>\<open>reconcileTaxIDs\<close> on a customer that exists, its failure as a \<open>TaxIDError\<close>.\<close>

definition with_tax_ids ::
  "'w stripe_api \<Rightarrow> 'w surroundings \<Rightarrow> string \<Rightarrow> tax_id list \<Rightarrow> ('w, string \<times> go_error option) prog" where
  "with_tax_ids S rt cus taxIDs = do {
     r \<leftarrow> reconcileTaxIDs S rt cus taxIDs;
     case r of
       Some e \<Rightarrow> ret (cus, Some (TaxIDError e))
     | None \<Rightarrow> ret (cus, None)
   }"

definition EnsureCustomer ::
  "'w stripe_api \<Rightarrow> 'w surroundings \<Rightarrow> string \<Rightarrow> account_key \<Rightarrow> customer_details
    \<Rightarrow> ('w, string \<times> go_error option) prog" where
  "EnsureCustomer S rt existingID account details = do {
     r \<leftarrow> (if existingID = '''' \<and> ak_Name account \<noteq> ''''
          then findCustomerByBillingAccount S account
          else ret (Inr existingID));
     case r of
       Inl e \<Rightarrow> ret ('''', Some (WrapError (''searching Stripe customer for BillingAccount ''
         @ quoted (ak_Name account)) e))
     | Inr existing \<Rightarrow>
         (let params = applyCustomerDetails (account_params account) details in
          if existing = '''' then do {
            n \<leftarrow> act (customers_new S params) (\<lambda>r. CustomersNew params (ok_id r));
            case n of
              Inl e \<Rightarrow> ret ('''', Some (WrapError ''creating Stripe customer'' e))
            | Inr cu \<Rightarrow> with_tax_ids S rt (cus_ID cu) (dt_TaxIDs details)
          }
          else do {
            u \<leftarrow> act (customers_update S existing params)
                  (\<lambda>r. CustomersUpdate existing params (\<not> isl r));
            case u of
              Inl e \<Rightarrow> ret (existing, Some (WrapError (''updating Stripe customer ''
                @ quoted existing) e))
            | Inr _ \<Rightarrow> with_tax_ids S rt existing (dt_TaxIDs details)
          })
   }"

section \<open>SetupIntents and PaymentMethods\<close>

definition setup_intent_params_for :: "string \<Rightarrow> string \<Rightarrow> string \<Rightarrow> setup_intent_params" where
  "setup_intent_params_for cus ns n =
     \<lparr>sip_Metadata = [''stripe_payment_method_namespace'' \<mapsto> ns, ''stripe_payment_method_name'' \<mapsto> n],
      sip_Customer = cus, sip_Usage = ''off_session'', sip_PaymentMethodTypes = [''card'']\<rparr>"

definition CreateSetupIntent ::
  "'w stripe_api \<Rightarrow> string \<Rightarrow> string \<Rightarrow> string \<Rightarrow> ('w, go_error + setup_intent_result) prog" where
  "CreateSetupIntent S cus ns n =
     (if cus = '''' then ret (Inl (NewError ''CreateSetupIntent requires a customer id''))
      else do {
        let params = setup_intent_params_for cus ns n;
        r \<leftarrow> act (setup_intents_new S params) (\<lambda>r. SetupIntentsNew params (\<not> isl r));
        case r of
          Inl e \<Rightarrow> ret (Inl (WrapError ''creating Stripe SetupIntent'' e))
        | Inr si \<Rightarrow> ret (Inr \<lparr>sir_ID = ssi_ID si, sir_ClientSecret = ssi_ClientSecret si,
                           sir_Status = ssi_Status si, sir_ExpiresAt = None\<rparr>)
      })"

definition DetachPaymentMethod :: "'w stripe_api \<Rightarrow> string \<Rightarrow> ('w, go_error option) prog" where
  "DetachPaymentMethod S pmID =
     (if pmID = '''' then ret None
      else do {
        r \<leftarrow> act (payment_methods_detach S pmID) (\<lambda>r. PaymentMethodsDetach pmID (failure r));
        case r of
          Inl e \<Rightarrow>
            (if stripe_error_code e = Some ResourceMissing then ret None
             else ret (Some (WrapError (''detaching PaymentMethod '' @ quoted pmID) e)))
        | Inr _ \<Rightarrow> ret None
      })"

definition CancelSetupIntent :: "'w stripe_api \<Rightarrow> string \<Rightarrow> ('w, go_error option) prog" where
  "CancelSetupIntent S siID =
     (if siID = '''' then ret None
      else do {
        r \<leftarrow> act (setup_intents_cancel S siID) (\<lambda>r. SetupIntentsCancel siID (failure r));
        case r of
          Inl e \<Rightarrow>
            (if stripe_error_code e \<in> {Some ResourceMissing, Some SetupIntentUnexpectedState}
             then ret None
             else ret (Some (WrapError (''canceling SetupIntent '' @ quoted siID) e)))
        | Inr _ \<Rightarrow> ret None
      })"

fun firstNonEmpty :: "string list \<Rightarrow> string" where
  "firstNonEmpty [] = ''''"
| "firstNonEmpty (v # vs) = (if v \<noteq> '''' then v else firstNonEmpty vs)"

definition payment_method_details_of :: "sdk_payment_method \<Rightarrow> payment_method_details" where
  "payment_method_details_of pm =
     (let out = \<lparr>pmd_ID = spm_ID pm, pmd_Type = spm_Type pm, pmd_Name = '''', pmd_Brand = '''',
            pmd_Last4 = '''', pmd_BIN = '''', pmd_Country = '''', pmd_ExpMonth = 0, pmd_ExpYear = 0,
            pmd_AVSResult = '''', pmd_CVCResult = '''', pmd_BillingAddress = None\<rparr>;
          out = (case spm_Card pm of None \<Rightarrow> out
            | Some c \<Rightarrow>
                (let out = out\<lparr>pmd_Brand := scd_Brand c, pmd_Last4 := scd_Last4 c,
                       pmd_Country := scd_Country c, pmd_ExpMonth := int32_of (scd_ExpMonth c),
                       pmd_ExpYear := int32_of (scd_ExpYear c), pmd_BIN := scd_IIN c\<rparr>
                 in case scd_Checks c of None \<Rightarrow> out
                    | Some k \<Rightarrow> out\<lparr>pmd_AVSResult := firstNonEmpty [chk_AddressLine1Check k,
                          chk_AddressPostalCodeCheck k],
                        pmd_CVCResult := chk_CVCCheck k\<rparr>))
      in case spm_BillingDetails pm of None \<Rightarrow> out
         | Some b \<Rightarrow>
             (let out = out\<lparr>pmd_Name := sbd_Name b\<rparr>
              in case sbd_Address b of None \<Rightarrow> out
                 | Some a \<Rightarrow>
                     (if ca_Country a \<noteq> '''' \<or> ca_Line1 a \<noteq> '''' \<or> ca_Line2 a \<noteq> ''''
                        \<or> ca_City a \<noteq> '''' \<or> ca_State a \<noteq> '''' \<or> ca_PostalCode a \<noteq> ''''
                      then out\<lparr>pmd_BillingAddress := Some a\<rparr> else out)))"

definition RetrievePaymentMethod ::
  "'w stripe_api \<Rightarrow> string \<Rightarrow> ('w, go_error + payment_method_details) prog" where
  "RetrievePaymentMethod S pmID = do {
     r \<leftarrow> ask (payment_methods_get S pmID);
     case r of
       Inl e \<Rightarrow> ret (Inl (WrapError (''retrieving PaymentMethod '' @ quoted pmID) e))
     | Inr pm \<Rightarrow> ret (Inr (payment_method_details_of pm))
   }"

definition name_params :: "string \<Rightarrow> customer_params" where
  "name_params n = \<lparr>cp_Name = Some n, cp_Email = None, cp_Address = None, cp_Metadata = None,
     cp_InvoiceSettings = None\<rparr>"

definition BackfillCustomerName ::
  "'w stripe_api \<Rightarrow> string \<Rightarrow> string \<Rightarrow> ('w, go_error option) prog" where
  "BackfillCustomerName S cus n =
     (if cus = '''' \<or> n = '''' then ret None
      else do {
        r \<leftarrow> ask (customers_get S cus);
        case r of
          Inl e \<Rightarrow>
            (if stripe_error_code e = Some ResourceMissing then ret None
             else ret (Some (WrapError (''getting Stripe customer '' @ quoted cus) e)))
        | Inr cu \<Rightarrow>
            (if cus_Name cu \<noteq> '''' then ret None
             else do {
               u \<leftarrow> act (customers_update S cus (name_params n))
                     (\<lambda>r. CustomersUpdate cus (name_params n) (\<not> isl r));
               case u of
                 Inl e \<Rightarrow> ret (Some (WrapError (''backfilling Stripe customer '' @ quoted cus
                   @ '' name'') e))
               | Inr _ \<Rightarrow> ret None
             })
      })"

section \<open>Facts: search values, metadata and name lists\<close>

text \<open>How Stripe reads a quoted search value: up to the first quote that no backslash escapes.\<close>

fun read_search_value :: "string \<Rightarrow> (string \<times> string) option" where
  "read_search_value [] = None"
| "read_search_value (c # cs) =
     (if of_char c = (39::nat) then Some ([], cs)
      else if of_char c = (92::nat) then
        (case cs of
           [] \<Rightarrow> None
         | d # ds \<Rightarrow> map_option (\<lambda>(v, rest). (d # v, rest)) (read_search_value ds))
      else map_option (\<lambda>(v, rest). (c # v, rest)) (read_search_value cs))"

text \<open>
  C37 (roundtrip): the escape used in customer search queries is read back by a parser of quoted
  values as exactly the value, whatever bytes it holds, and leaves the rest of the query alone: a
  name or UID cannot end the quotation early and change the query.
\<close>

theorem escapeSearchQueryValue_roundtrip:
  "read_search_value (escapeSearchQueryValue v @ bytes [39] @ rest) = Some (v, rest)"
  by (induction v) (auto simp: bytes_def)

text \<open>
  The metadata that ties a customer to its account has the account's name,
  namespace and UID under their three keys, nothing else, and no key for an empty value.
\<close>

lemma billingAccountMetadata_lookup:
  "billingAccountMetadata a k =
     (if k = ''billing_account'' then nilIfEmpty (ak_Name a)
      else if k = ''billing_account_namespace'' then nilIfEmpty (ak_Namespace a)
      else if k = ''billing_account_uid'' then nilIfEmpty (ak_UID a)
      else None)"
  by (simp add: billingAccountMetadata_def nilIfEmpty_def)

lemma length_ellipsis [simp]: "length ellipsis = 5"
  by (simp add: ellipsis_def bytes_def)

abbreviation comma_join :: "string list \<Rightarrow> string" where
  "comma_join \<equiv> Join '', ''"

text \<open>The loop, from the point where the names \<open>pre\<close> are already written.\<close>

lemma join_loop_rest:
  assumes "pre \<noteq> []" and "length (comma_join pre) \<le> 495"
  shows "\<exists>k \<le> length names.
     join_loop False (comma_join pre) names =
       comma_join (pre @ take k names) @ (if k < length names then ellipsis else []) \<and>
     length (comma_join (pre @ take k names)) \<le> 495 \<and>
     (k < length names \<longrightarrow> 495 < length (comma_join (pre @ take (Suc k) names)))"
  using assms
proof (induction names arbitrary: pre)
  case Nil
  then show ?case by simp
next
  case (Cons n names)
  have snoc: "comma_join (pre @ [n]) = comma_join pre @ '', '' @ n"
    using Cons.prems by (simp add: Join_snoc)
  show ?case
  proof (cases "length (comma_join pre) + (2 + length n) > 495")
    case True
    then show ?thesis
      using Cons.prems
      by (intro exI [of _ 0]) (simp add: stripeMetadataValueMax_def snoc)
  next
    case False
    then have fits: "length (comma_join (pre @ [n])) \<le> 495" by (simp add: snoc)
    obtain k where "k \<le> length names"
      "join_loop False (comma_join (pre @ [n])) names =
         comma_join ((pre @ [n]) @ take k names) @ (if k < length names then ellipsis else [])"
      "length (comma_join ((pre @ [n]) @ take k names)) \<le> 495"
      "k < length names \<longrightarrow> 495 < length (comma_join ((pre @ [n]) @ take (Suc k) names))"
      using Cons.IH [of "pre @ [n]"] fits by auto
    with False show ?thesis
      by (intro exI [of _ "Suc k"]) (simp add: stripeMetadataValueMax_def snoc)
  qed
qed

lemma joinNamesForMetadata_prefix:
  "\<exists>k \<le> length names.
     joinNamesForMetadata names =
       comma_join (take k names) @ (if k < length names then ellipsis else []) \<and>
     length (comma_join (take k names)) \<le> 495 \<and>
     (k < length names \<longrightarrow> 495 < length (comma_join (take (Suc k) names)))"
proof (cases names)
  case Nil
  then show ?thesis by (simp add: joinNamesForMetadata_def)
next
  case (Cons n ns)
  show ?thesis
  proof (cases "length n > 495")
    case True
    with Cons show ?thesis
      by (intro exI [of _ 0]) (simp add: joinNamesForMetadata_def stripeMetadataValueMax_def)
  next
    case False
    then obtain k where "k \<le> length ns"
      "join_loop False (comma_join [n]) ns =
         comma_join ([n] @ take k ns) @ (if k < length ns then ellipsis else [])"
      "length (comma_join ([n] @ take k ns)) \<le> 495"
      "k < length ns \<longrightarrow> 495 < length (comma_join ([n] @ take (Suc k) ns))"
      using join_loop_rest [of "[n]" ns] by auto
    with False Cons show ?thesis
      by (intro exI [of _ "Suc k"])
         (simp add: joinNamesForMetadata_def stripeMetadataValueMax_def)
  qed
qed

text \<open>
  C38 (functional): a name list is rendered as the longest prefix of the names whose comma-separated
  form fits 495 bytes, in full names, followed by the ellipsis mark exactly when names were left out.
\<close>

theorem joinNamesForMetadata_longest_prefix:
  "\<exists>k \<le> length names.
     joinNamesForMetadata names =
       comma_join (take k names) @ (if k < length names then ellipsis else []) \<and>
     length (comma_join (take k names)) \<le> 495 \<and>
     (k < length names \<longrightarrow> 495 < length (comma_join (take (Suc k) names)))"
  by (rule joinNamesForMetadata_prefix)

lemma find_SomeD: "find P xs = Some x \<Longrightarrow> x \<in> set xs \<and> P x"
  by (induction xs) (auto split: if_splits)

section \<open>Facts: which calls each operation makes\<close>

text \<open>The effects of the reconcile of tax IDs are creations and deletions of tax IDs.\<close>

definition is_tax_effect :: "string \<Rightarrow> effect \<Rightarrow> bool" where
  "is_tax_effect cus e \<longleftrightarrow>
     (\<exists>t v ok. e = TaxIDsNew cus t v ok) \<or> (\<exists>i ok. e = TaxIDsDel i cus ok)"

lemma is_tax_effect_simps [simp]:
  "is_tax_effect cus (TaxIDsNew cus t v ok)"
  "is_tax_effect cus (TaxIDsDel i cus ok)"
  "\<not> is_tax_effect cus (CustomersNew p r)"
  "\<not> is_tax_effect cus (CustomersUpdate c p ok)"
  by (simp_all add: is_tax_effect_def)

lemma searchCustomer_emits [effect_rules]: "emits P (searchCustomer S q f)"
  unfolding searchCustomer_def by (intro effect_rules)

lemma findCustomer_emits [effect_rules]: "emits P (findCustomerByBillingAccount S a)"
  unfolding findCustomerByBillingAccount_def by (intro effect_rules)

lemma create_tax_ids_emits: "emits (is_tax_effect cus) (create_tax_ids S cus ex ds)"
proof (induction ds)
  case Nil
  then show ?case by (simp add: effect_rules)
next
  case (Cons d ds)
  show ?case unfolding create_tax_ids.simps by (intro effect_rules Cons) simp
qed

lemma delete_tax_ids_emits: "emits (is_tax_effect cus) (delete_tax_ids S cus wanted kvs)"
proof (induction kvs)
  case Nil
  then show ?case by (simp add: effect_rules)
next
  case (Cons kv kvs)
  obtain k i where "kv = (k, i)" by fastforce
  then show ?case by (simp only: delete_tax_ids.simps) (intro effect_rules Cons, simp)
qed

lemma reconcileTaxIDs_emits [effect_rules]:
  "emits (is_tax_effect cus) (reconcileTaxIDs S rt cus desired)"
  unfolding reconcileTaxIDs_def
  by (intro effect_rules create_tax_ids_emits delete_tax_ids_emits)

lemma with_tax_ids_emits: "emits (is_tax_effect cus) (with_tax_ids S rt cus txs)"
  unfolding with_tax_ids_def by (intro effect_rules)

lemma with_tax_ids_id: "fst (fst (run_state (with_tax_ids S rt cus txs) s)) = cus"
  by (simp add: with_tax_ids_def split: prod.split option.split)

lemma with_tax_ids_error:
  "run_state (with_tax_ids S rt cus txs) s = ((c, Some e), s') \<Longrightarrow> \<exists>u. e = TaxIDError u"
  by (auto simp: with_tax_ids_def split: prod.splits option.splits)

section \<open>Facts: the tax ID reconcile loop\<close>

lemma create_tax_ids_success:
  assumes "run_state (create_tax_ids S cus ex ds) s = (None, s')"
  shows "trace s' = trace s @
    map (\<lambda>d. TaxIDsNew cus (tx_Type d) (tx_Value d) True)
      (filter (\<lambda>d. ex (tax_key (tx_Type d) (tx_Value d)) = None) ds)"
  using assms
proof (induction ds arbitrary: s)
  case Nil
  then show ?case by simp
next
  case (Cons d ds)
  then show ?case
    by (fastforce split: prod.splits sum.splits if_splits)
qed

lemma delete_tax_ids_success:
  assumes "run_state (delete_tax_ids S cus wanted kvs) s = (None, s')"
  shows "trace s' = trace s @
    map (\<lambda>(k, i). TaxIDsDel i cus True) (filter (\<lambda>(k, i). k \<notin> wanted) kvs)"
  using assms
proof (induction kvs arbitrary: s)
  case Nil
  then show ?case by simp
next
  case (Cons kv kvs)
  obtain k i where "kv = (k, i)" by fastforce
  with Cons show ?case
    by (fastforce split: prod.splits sum.splits if_splits)
qed

lemma distinct_update_fold:
  "distinct (map fst m) \<Longrightarrow>
   distinct (map fst (foldl (\<lambda>m t. AList.update (f t) (g t) m) m ts))"
  by (induction ts arbitrary: m) (auto simp: distinct_update)

lemma existing_tax_ids_distinct: "distinct (map fst (existing_tax_ids items))"
  unfolding existing_tax_ids_def by (rule distinct_update_fold) simp

lemma existing_keys_fold:
  "fst ` set (foldl (\<lambda>m t. AList.update (f t) (g t) m) m ts) = fst ` set m \<union> f ` set ts"
  by (induction ts arbitrary: m) (auto simp: dom_update)

lemma existing_tax_ids_keys:
  "dom (map_of (existing_tax_ids items)) = (\<lambda>t. tax_key (txi_Type t) (txi_Value t)) ` set items"
  unfolding existing_tax_ids_def dom_map_of_conv_image_fst by (simp add: existing_keys_fold)

definition created_keys :: "string \<Rightarrow> effect list \<Rightarrow> string set" where
  "created_keys cus es = {tax_key t v | t v. TaxIDsNew cus t v True \<in> set es}"

definition deleted_ids :: "string \<Rightarrow> effect list \<Rightarrow> string set" where
  "deleted_ids cus es = {i. TaxIDsDel i cus True \<in> set es}"

lemma created_keys_simps [simp]:
  "created_keys cus (a @ b) = created_keys cus a \<union> created_keys cus b"
  "created_keys cus (map (\<lambda>d. TaxIDsNew cus (tx_Type d) (tx_Value d) True) ds) = desired_keys ds"
  "created_keys cus (map (\<lambda>(k, i). TaxIDsDel i cus True) kvs) = {}"
  unfolding created_keys_def desired_keys_def by auto

lemma deleted_ids_simps [simp]:
  "deleted_ids cus (a @ b) = deleted_ids cus a \<union> deleted_ids cus b"
  "deleted_ids cus (map (\<lambda>d. TaxIDsNew cus (tx_Type d) (tx_Value d) True) ds) = {}"
  "deleted_ids cus (map (\<lambda>(k, i). TaxIDsDel i cus True) kvs) = snd ` set kvs"
  unfolding deleted_ids_def by force+

text \<open>
  C22 (functional): when the reconcile of a customer's tax IDs succeeds, whatever order Go ranges over
  the map in, the keys it created are exactly the desired ones Stripe did not list, and the tax IDs
  it deleted are exactly the listed ones whose key is not desired.
\<close>

theorem reconcileTaxIDs_exact:
  assumes range: "map_range_ok rt" and cus: "cus \<noteq> ''''"
    and listed: "taxids_list S cus (world s) = ((items, None), w)"
    and run: "run_state (reconcileTaxIDs S rt cus desired) s = (None, s')"
  shows "\<exists>es. trace s' = trace s @ es \<and>
    created_keys cus es = desired_keys desired - dom (map_of (existing_tax_ids items)) \<and>
    deleted_ids cus es =
      {i. \<exists>k. map_of (existing_tax_ids items) k = Some i \<and> k \<notin> desired_keys desired}"
proof -
  let ?ex = "existing_tax_ids items"
  obtain s1 kvs w1 where
    created: "run_state (create_tax_ids S cus (map_of ?ex) desired) (s\<lparr>world := w\<rparr>) = (None, s1)" and
    kvs: "map_range rt ?ex (world s1) = (kvs, w1)" and
    deleted: "run_state (delete_tax_ids S cus (desired_keys desired) kvs) (s1\<lparr>world := w1\<rparr>) = (None, s')"
    using run cus listed
    by (auto simp: reconcileTaxIDs_def Let_def split: prod.splits option.splits)
  have same: "set kvs = set ?ex"
    using range kvs unfolding map_range_ok_def by (metis fst_conv mset_eq_setD)
  define news where "news = filter (\<lambda>d. map_of ?ex (tax_key (tx_Type d) (tx_Value d)) = None) desired"
  define gone where "gone = filter (\<lambda>(k, i). k \<notin> desired_keys desired) kvs"
  have tr: "trace s' = trace s @ (map (\<lambda>d. TaxIDsNew cus (tx_Type d) (tx_Value d) True) news
      @ map (\<lambda>(k, i). TaxIDsDel i cus True) gone)"
    using create_tax_ids_success [OF created] delete_tax_ids_success [OF deleted]
    by (simp add: news_def gone_def)
  show ?thesis
  proof (intro exI conjI, rule tr)
    show "created_keys cus (map (\<lambda>d. TaxIDsNew cus (tx_Type d) (tx_Value d) True) news
        @ map (\<lambda>(k, i). TaxIDsDel i cus True) gone) =
      desired_keys desired - dom (map_of ?ex)"
      unfolding created_keys_simps news_def by (auto simp: desired_keys_def)
    show "deleted_ids cus (map (\<lambda>d. TaxIDsNew cus (tx_Type d) (tx_Value d) True) news
        @ map (\<lambda>(k, i). TaxIDsDel i cus True) gone) =
      {i. \<exists>k. map_of ?ex k = Some i \<and> k \<notin> desired_keys desired}"
      unfolding deleted_ids_simps gone_def by (force simp: same existing_tax_ids_distinct)
  qed
qed

section \<open>Facts: EnsureCustomer\<close>

definition creates_customer :: "effect \<Rightarrow> bool" where
  "creates_customer e \<longleftrightarrow> (\<exists>p r. e = CustomersNew p r)"

lemma creates_customer_simps [simp]:
  "creates_customer (CustomersNew p r)"
  "is_tax_effect cus e \<Longrightarrow> \<not> creates_customer e"
  "\<not> creates_customer (CustomersUpdate c p ok)"
  by (auto simp: creates_customer_def is_tax_effect_def)

lemma with_tax_ids_trace:
  obtains es where "trace (snd (run_state (with_tax_ids S rt cus txs) s)) = trace s @ es"
    and "list_all (is_tax_effect cus) es"
  using emits_trace [OF with_tax_ids_emits] emits_effects [OF with_tax_ids_emits] by blast

lemma EnsureCustomer_existing_calls:
  assumes "existing \<noteq> ''''"
  shows "fst (fst (run_state (EnsureCustomer S rt existing a d) s)) = existing \<and>
    (\<exists>ok es. effects (EnsureCustomer S rt existing a d) s =
        CustomersUpdate existing (applyCustomerDetails (account_params a) d) ok # es \<and>
        list_all (is_tax_effect existing) es)"
proof -
  let ?p = "applyCustomerDetails (account_params a) d"
  obtain u w where u: "customers_update S existing ?p (world s) = (u, w)" by fastforce
  let ?s1 = "s\<lparr>world := w, trace := trace s @ [CustomersUpdate existing ?p (\<not> isl u)]\<rparr>"
  show ?thesis
  proof (cases u)
    case (Inl e)
    then show ?thesis using assms u by (intro conjI exI [of _ False] exI [of _ "[]"]) (simp_all add: EnsureCustomer_def effects_def Let_def)
  next
    case (Inr cu)
    then have run: "run_state (EnsureCustomer S rt existing a d) s =
        run_state (with_tax_ids S rt existing (dt_TaxIDs d)) ?s1"
      using assms u by (simp add: EnsureCustomer_def Let_def)
    obtain es where "trace (snd (run_state (with_tax_ids S rt existing (dt_TaxIDs d)) ?s1))
        = trace ?s1 @ es" "list_all (is_tax_effect existing) es"
      by (rule with_tax_ids_trace)
    then show ?thesis by (simp add: run with_tax_ids_id effects_def)
  qed
qed

text \<open>
  With a known customer ID, EnsureCustomer never creates a customer: it updates
  that one, first, with the details' parameters, touches otherwise only its tax IDs, and returns the
  same ID whether or not a call fails.
\<close>

lemma EnsureCustomer_existing:
  assumes "existing \<noteq> ''''"
  shows "fst (fst (run_state (EnsureCustomer S rt existing a d) s)) = existing \<and>
    (\<exists>ok es. effects (EnsureCustomer S rt existing a d) s =
        CustomersUpdate existing (applyCustomerDetails (account_params a) d) ok # es \<and>
        list_all (is_tax_effect existing) es)"
  using assms by (rule EnsureCustomer_existing_calls)

lemma EnsureCustomer_unfound:
  assumes "existing = ''''"
    and "ak_Name a = '''' \<and> s1 = s \<or> ak_Name a \<noteq> '''' \<and>
      run_state (findCustomerByBillingAccount S a) s = (Inr '''', s1)"
    and "customers_new S (applyCustomerDetails (account_params a) d) (world s1) = (n, w)"
  shows "run_state (EnsureCustomer S rt existing a d) s =
    (let p = applyCustomerDetails (account_params a) d;
         s2 = s1\<lparr>world := w, trace := trace s1 @ [CustomersNew p (ok_id n)]\<rparr>
     in case n of
          Inl e \<Rightarrow> (('''', Some (WrapError ''creating Stripe customer'' e)), s2)
        | Inr cu \<Rightarrow> run_state (with_tax_ids S rt (cus_ID cu) (dt_TaxIDs d)) s2)"
  using assms by (auto simp: EnsureCustomer_def Let_def split: sum.split)

lemma EnsureCustomer_found:
  assumes "ak_Name a \<noteq> ''''" and "c \<noteq> ''''"
    and "run_state (findCustomerByBillingAccount S a) s = (Inr c, s1)"
  shows "run_state (EnsureCustomer S rt '''' a d) s = run_state (EnsureCustomer S rt c a d) s1"
  using assms by (simp add: EnsureCustomer_def Let_def)

lemma find_trace:
  "run_state (findCustomerByBillingAccount S a) s = (r, s1) \<Longrightarrow> trace s1 = trace s"
  by (rule emits_none [OF findCustomer_emits])

text \<open>
  When the search for the account's customer fails, EnsureCustomer makes no call that
  changes anything at Stripe and reports the failure, so a search outage cannot create a duplicate;
  and the error is a tax ID rejection only if the search's own error is one.
\<close>

lemma EnsureCustomer_search_failure:
  assumes "ak_Name a \<noteq> ''''"
    and find: "run_state (findCustomerByBillingAccount S a) s = (Inl e, s1)"
  shows "effects (EnsureCustomer S rt '''' a d) s = [] \<and>
    (\<exists>e'. fst (run_state (EnsureCustomer S rt '''' a d) s) = ('''', Some e') \<and>
       As_TaxIDError e' = As_TaxIDError e)"
  using assms find_trace [OF find] by (simp add: EnsureCustomer_def effects_def)

text \<open>The path that creates: the one creation is its first call, and only tax ID calls follow.\<close>

lemma EnsureCustomer_creation:
  assumes empty: "existing = ''''"
    and t: "ak_Name a = '''' \<and> t = s \<or> ak_Name a \<noteq> '''' \<and>
      run_state (findCustomerByBillingAccount S a) s = (Inr '''', t)"
  shows "\<exists>r es. effects (EnsureCustomer S rt existing a d) s =
      CustomersNew (applyCustomerDetails (account_params a) d) r # es \<and>
    filter creates_customer es = [] \<and> (\<forall>p r. CustomersNew p r \<notin> set es) \<and>
    fst (fst (run_state (EnsureCustomer S rt existing a d) s)) = (case r of None \<Rightarrow> '''' | Some c \<Rightarrow> c)"
proof -
  let ?p = "applyCustomerDetails (account_params a) d"
  obtain n w where n: "customers_new S ?p (world t) = (n, w)" by fastforce
  let ?t2 = "t\<lparr>world := w, trace := trace t @ [CustomersNew ?p (ok_id n)]\<rparr>"
  have tr: "trace t = trace s" using t find_trace by auto
  note run = EnsureCustomer_unfound [OF empty t n, of rt, unfolded Let_def]
  show ?thesis
  proof (cases n)
    case (Inl e)
    then show ?thesis
      by (intro exI [of _ "ok_id n"] exI [of _ "[]"]) (simp add: effects_def run tr ok_id_def)
  next
    case (Inr cu)
    obtain es where es: "trace (snd (run_state (with_tax_ids S rt (cus_ID cu) (dt_TaxIDs d)) ?t2))
        = trace ?t2 @ es" "list_all (is_tax_effect (cus_ID cu)) es"
      by (rule with_tax_ids_trace)
    from es(2) have "filter creates_customer es = []" and "\<forall>p r. CustomersNew p r \<notin> set es"
      by (auto simp: list_all_iff filter_empty_conv)
    with Inr es(1) show ?thesis
      by (intro exI [of _ "ok_id n"] exI [of _ es])
         (simp add: effects_def run tr ok_id_def with_tax_ids_id)
  qed
qed

text \<open>What EnsureCustomer goes on with: a known or found customer, a failure, or a creation.\<close>

lemma EnsureCustomer_cases:
  obtains (updates) c t where "c \<noteq> ''''" "trace t = trace s"
      "run_state (EnsureCustomer S rt existing a d) s = run_state (EnsureCustomer S rt c a d) t"
    | (failed) "effects (EnsureCustomer S rt existing a d) s = []"
    | (creates) t where "existing = ''''" "ak_Name a = '''' \<and> t = s \<or> ak_Name a \<noteq> '''' \<and>
        run_state (findCustomerByBillingAccount S a) s = (Inr '''', t)"
proof (cases "existing = ''''")
  case False
  then show thesis by (rule updates [OF _ refl refl])
next
  case empty: True
  obtain f t where f: "run_state (findCustomerByBillingAccount S a) s = (f, t)" by fastforce
  consider (err) e where "ak_Name a \<noteq> ''''" "f = Inl e"
    | (found) c where "ak_Name a \<noteq> ''''" "f = Inr c" "c \<noteq> ''''"
    | (none) "ak_Name a = '''' \<or> f = Inr ''''"
    by (cases f) auto
  then show thesis
  proof cases
    case err
    with f find_trace [OF f] empty show thesis by (intro failed) (simp add: EnsureCustomer_def effects_def)
  next
    case found
    with f EnsureCustomer_found [of a c S s t rt d] empty show thesis
      by (intro updates [OF found(3) find_trace [OF f]]) simp
  next
    case none
    then consider "ak_Name a = ''''" | "ak_Name a \<noteq> ''''" "f = Inr ''''" by blast
    then show thesis using f by cases (auto intro: creates [OF empty])
  qed
qed

text \<open>
  C23 (safety): EnsureCustomer creates a customer at most once, only when the caller knows no ID and
  (for a named account) the search answered that there is none, and then it returns the created ID.
\<close>

theorem EnsureCustomer_creates_only_unfound:
  assumes "effects (EnsureCustomer S rt existing a d) s = es"
  shows "length (filter creates_customer es) \<le> 1 \<and>
   (\<forall>p r. CustomersNew p r \<in> set es \<longrightarrow>
      existing = [] \<and> p = applyCustomerDetails (account_params a) d \<and>
      (ak_Name a \<noteq> [] \<longrightarrow> fst (run_state (findCustomerByBillingAccount S a) s) = Inr []) \<and>
      fst (fst (run_state (EnsureCustomer S rt existing a d) s)) = (case r of None \<Rightarrow> [] | Some c \<Rightarrow> c))"
proof (cases rule: EnsureCustomer_cases [of s S rt existing a d])
  case (updates c t)
  then have "es = effects (EnsureCustomer S rt c a d) t" using assms by (simp add: effects_def)
  with EnsureCustomer_existing_calls [OF updates(1), of S rt a d t]
  have "filter creates_customer es = []"
    by (auto simp: list_all_iff filter_empty_conv is_tax_effect_def creates_customer_def)
  then show ?thesis by (auto simp: filter_empty_conv)
next
  case failed
  with assms show ?thesis by simp
next
  case (creates t)
  obtain r es' where es: "es = CustomersNew (applyCustomerDetails (account_params a) d) r # es'"
    "filter creates_customer es' = []" "\<forall>p r. CustomersNew p r \<notin> set es'"
    "fst (fst (run_state (EnsureCustomer S rt existing a d) s)) = (case r of None \<Rightarrow> [] | Some c \<Rightarrow> c)"
    using EnsureCustomer_creation [OF creates, of rt d] assms by blast
  have "fst (run_state (findCustomerByBillingAccount S a) s) = Inr []" if "ak_Name a \<noteq> []"
    using that creates(2) by auto
  with es creates(1) show ?thesis by simp
qed

text \<open>
  A customer the search adopts either carries the account's own UID as a search match,
  or was found by name and is not tagged for another account: its UID tag is the account's, or it
  has no UID tag and its organizations name the account's namespace.
\<close>

lemma findCustomer_sound:
  assumes run: "run_state (findCustomerByBillingAccount S a) s = (Inr c, s')" and c: "c \<noteq> ''''"
  shows "\<exists>q w cu. cu \<in> set (fst (fst (customers_search S q w))) \<and> cus_ID cu = c \<and>
    (q = search_query ''billing_account_uid'' (ak_UID a) \<and> ak_UID a \<noteq> '''' \<or>
     q = search_query ''billing_account'' (ak_Name a) \<and>
       (let uid = md_get (cus_Metadata cu) ''billing_account_uid'';
            orgs = md_get (cus_Metadata cu) ''organizations''
        in uid = ak_UID a \<and> uid \<noteq> '''' \<or>
           uid = '''' \<and> (\<exists>org \<in> set (Split (CHR '','') orgs). TrimSpace org = ak_Namespace a)))"
proof -
  have search: "\<exists>cu \<in> set (fst (fst (customers_search S q (world t)))). cus_ID cu = c \<and> m cu"
    if "run_state (searchCustomer S q m) t = (Inr c, t')" for q m t t'
    using that c
    by (auto simp: searchCustomer_def dest!: find_SomeD split: prod.splits option.splits)
  obtain r t where r: "run_state (if ak_UID a \<noteq> ''''
      then searchCustomer S (search_query ''billing_account_uid'' (ak_UID a)) (\<lambda>_. True)
      else ret (Inr '''')) s = (r, t)" by fastforce
  show ?thesis
  proof (cases "r = Inr ''''")
    case False
    with run r have "r = Inr c" by (simp add: findCustomerByBillingAccount_def)
    moreover have uid: "ak_UID a \<noteq> ''''" using r False by (auto split: if_splits)
    ultimately have "run_state (searchCustomer S (search_query ''billing_account_uid'' (ak_UID a))
        (\<lambda>_. True)) s = (Inr c, t)" using r by simp
    from search [OF this] uid show ?thesis by blast
  next
    case True
    with run r have "run_state (searchCustomer S (search_query ''billing_account'' (ak_Name a))
        (legacy_match a)) t = (Inr c, s')"
      by (simp add: findCustomerByBillingAccount_def)
    from search [OF this] obtain cu where
      "cu \<in> set (fst (fst (customers_search S (search_query ''billing_account'' (ak_Name a)) (world t))))"
      "cus_ID cu = c" "legacy_match a cu" by blast
    then show ?thesis
      by (intro exI conjI disjI2) (auto simp: legacy_match_def Let_def list_ex_iff split: if_splits)
  qed
qed

section \<open>Facts: what a customer is stamped with\<close>

lemma joinNamesForMetadata_bound: "length (joinNamesForMetadata names) \<le> stripeMetadataValueMax"
proof -
  obtain k where
    "joinNamesForMetadata names = comma_join (take k names) @ (if k < length names then ellipsis else [])"
    "length (comma_join (take k names)) \<le> 495"
    using joinNamesForMetadata_prefix by blast
  then show ?thesis by (cases "k < length names") (simp_all add: stripeMetadataValueMax_def)
qed

text \<open>
  The metadata sent on every create and update holds the account's name, namespace
  and UID (each only when not empty), the business and the individual name (always, so that an empty
  one clears the key), and the organizations and projects, which stay within the 500 bytes Stripe
  allows for a value; no other key is sent.
\<close>

lemma customer_metadata_stamped:
  "\<exists>md. cp_Metadata (applyCustomerDetails (account_params a) d) = Some md \<and>
    md ''billing_account'' = nilIfEmpty (ak_Name a) \<and>
    md ''billing_account_namespace'' = nilIfEmpty (ak_Namespace a) \<and>
    md ''billing_account_uid'' = nilIfEmpty (ak_UID a) \<and>
    md ''business_name'' = Some (dt_BusinessName d) \<and>
    md ''individual_name'' = Some (dt_IndividualName d) \<and>
    md ''organizations'' = Some (joinNamesForMetadata (dt_Organizations d)) \<and>
    md ''projects'' = Some (joinNamesForMetadata (dt_Projects d)) \<and>
    length (joinNamesForMetadata (dt_Organizations d)) \<le> stripeMetadataValueMax \<and>
    length (joinNamesForMetadata (dt_Projects d)) \<le> stripeMetadataValueMax \<and>
    dom md \<subseteq> {''billing_account'', ''billing_account_namespace'', ''billing_account_uid'',
      ''business_name'', ''individual_name'', ''organizations'', ''projects''}"
  by (auto simp: applyCustomerDetails_def account_params_def Let_def billingAccountMetadata_def
      nilIfEmpty_def joinNamesForMetadata_bound split: option.split)

text \<open>
  A list whose comma-separated form fits the 500-byte limit can still be cut: of a single
  name of 498 bytes nothing is sent but the mark.
\<close>

lemma joinNamesForMetadata_cut_below_limit:
  assumes "length n = 498"
  shows "length (comma_join [n]) \<le> stripeMetadataValueMax \<and> joinNamesForMetadata [n] = ellipsis"
  using assms by (simp add: stripeMetadataValueMax_def joinNamesForMetadata_def)

section \<open>Facts: the name backfill\<close>

text \<open>
  The backfill makes no change but setting a customer's name, at most once, and only
  when both arguments are given and Stripe has just answered that the customer has no name: a name
  that is there is never overwritten.
\<close>

lemma BackfillCustomerName_keeps_names:
  assumes "e \<in> set (effects (BackfillCustomerName S c n) s)"
  shows "\<exists>ok cu w. effects (BackfillCustomerName S c n) s = [CustomersUpdate c (name_params n) ok] \<and>
    c \<noteq> '''' \<and> n \<noteq> '''' \<and> customers_get S c (world s) = (Inr cu, w) \<and> cus_Name cu = ''''"
  using assms
  by (auto simp: BackfillCustomerName_def effects_def split: prod.splits sum.splits if_splits)

lemma BackfillCustomerName_keeps_names_witness:
  "\<exists>ok. effects (BackfillCustomerName (sample_stripe\<lparr>customers_get := \<lambda>_. answer sample_customer\<rparr>)
     ''cus_1'' ''Ann'') (st0 ()) = [CustomersUpdate ''cus_1'' (name_params ''Ann'') ok]"
proof -
  have "CustomersUpdate ''cus_1'' (name_params ''Ann'') False \<in>
    set (effects (BackfillCustomerName (sample_stripe\<lparr>customers_get := \<lambda>_. answer sample_customer\<rparr>)
      ''cus_1'' ''Ann'') (st0 ()))"
    by (simp add: BackfillCustomerName_def effects_def sample_defs)
  from BackfillCustomerName_keeps_names [OF this] show ?thesis by blast
qed

section \<open>Facts: cancelling and detaching\<close>

lemma CancelSetupIntent_emits [effect_rules]:
  "emits (\<lambda>e. \<exists>ok. e = SetupIntentsCancel i ok \<and> i \<noteq> '''') (CancelSetupIntent S i)"
  unfolding CancelSetupIntent_def by (intro effect_rules) auto

lemma DetachPaymentMethod_emits [effect_rules]:
  "emits (\<lambda>e. \<exists>ok. e = PaymentMethodsDetach i ok \<and> i \<noteq> '''') (DetachPaymentMethod S i)"
  unfolding DetachPaymentMethod_def by (intro effect_rules) auto

lemma BackfillCustomerName_emits:
  "emits (\<lambda>e. \<exists>ok. e = CustomersUpdate c (name_params n) ok) (BackfillCustomerName S c n)"
  unfolding BackfillCustomerName_def by (intro effect_rules) auto

lemma RetrievePaymentMethod_emits [effect_rules]: "emits P (RetrievePaymentMethod S i)"
  unfolding RetrievePaymentMethod_def by (intro effect_rules)

lemma CreateSetupIntent_emits:
  "emits (\<lambda>e. \<exists>ok. e = SetupIntentsNew (setup_intent_params_for c ns n) ok \<and> c \<noteq> '''') (CreateSetupIntent S c ns n)"
  unfolding CreateSetupIntent_def by (intro effect_rules) auto

section \<open>Witnesses\<close>

theorem joinNamesForMetadata_longest_prefix_witness:
  "joinNamesForMetadata [''web'', ''api''] = ''web, api''"
proof -
  let ?n = "[''web'', ''api'']"
  obtain k where k: "k \<le> length ?n"
    and joined: "joinNamesForMetadata ?n = comma_join (take k ?n) @ (if k < length ?n then ellipsis else [])"
    and long: "k < length ?n \<longrightarrow> 495 < length (comma_join (take (Suc k) ?n))"
    using joinNamesForMetadata_longest_prefix [of ?n] by blast
  have "length (comma_join (take (Suc k) ?n)) \<le> 495" by (cases k) (simp_all add: take_Cons')
  with k long have "k = length ?n" by linarith
  with joined show ?thesis by simp
qed

lemma EnsureCustomer_existing_witness:
  "fst (fst (run_state (EnsureCustomer sample_stripe sample_os ''cus_1'' sample_key sample_details)
     (st0 ()))) = ''cus_1''"
  using EnsureCustomer_existing [of "''cus_1''" sample_stripe sample_os sample_key sample_details "st0 ()"]
  by simp

definition down_search :: "unit stripe_api" where
  "down_search = sample_stripe\<lparr>customers_search := \<lambda>_ w. (([], Some (ForeignError ''timeout'')), w)\<rparr>"

lemma EnsureCustomer_search_failure_witness:
  "effects (EnsureCustomer down_search sample_os '''' sample_key sample_details) (st0 ()) = []"
proof -
  have "run_state (findCustomerByBillingAccount down_search sample_key) (st0 ()) =
      (Inl (ForeignError ''timeout''), st0 ())"
    by (simp add: findCustomerByBillingAccount_def searchCustomer_def down_search_def sample_defs)
  then show ?thesis
    using EnsureCustomer_search_failure [of sample_key down_search "st0 ()"]
    by (simp add: sample_key_def)
qed

definition new_stripe :: "unit stripe_api" where
  "new_stripe = sample_stripe\<lparr>customers_new := \<lambda>_. answer sample_customer\<rparr>"

theorem EnsureCustomer_creates_only_unfound_witness:
  "\<exists>r. CustomersNew (applyCustomerDetails (account_params sample_key) sample_details) r
     \<in> set (effects (EnsureCustomer new_stripe sample_os '''' sample_key sample_details) (st0 ())) \<and>
   fst (fst (run_state (EnsureCustomer new_stripe sample_os '''' sample_key sample_details) (st0 ())))
     = (case r of None \<Rightarrow> '''' | Some c \<Rightarrow> c)"
proof -
  let ?es = "effects (EnsureCustomer new_stripe sample_os '''' sample_key sample_details) (st0 ())"
  have "run_state (findCustomerByBillingAccount new_stripe sample_key) (st0 ()) = (Inr '''', st0 ())"
    by (simp add: findCustomerByBillingAccount_def searchCustomer_def new_stripe_def sample_defs)
  then obtain r es where
    "?es = CustomersNew (applyCustomerDetails (account_params sample_key) sample_details) r # es"
    using EnsureCustomer_creation [OF refl, of sample_key "st0 ()" "st0 ()" new_stripe sample_os
        sample_details] by (auto simp: sample_key_def)
  then show ?thesis
    using EnsureCustomer_creates_only_unfound [OF refl, of new_stripe sample_os "''''" sample_key
      sample_details "st0 ()"] by auto
qed

definition found_stripe :: "unit stripe_api" where
  "found_stripe = sample_stripe\<lparr>customers_search := \<lambda>_ w. (([sample_customer], None), w)\<rparr>"

lemma findCustomer_sound_witness:
  "\<exists>q w cu. cu \<in> set (fst (fst (customers_search found_stripe q w))) \<and> cus_ID cu = ''cus_1''"
proof -
  have "run_state (findCustomerByBillingAccount found_stripe sample_key) (st0 ()) = (Inr ''cus_1'', st0 ())"
    by (simp add: findCustomerByBillingAccount_def searchCustomer_def found_stripe_def sample_defs)
  from findCustomer_sound [OF this] show ?thesis by auto
qed

definition tax_stripe :: "unit stripe_api" where
  "tax_stripe = sample_stripe\<lparr>
     taxids_list := \<lambda>_ w. (([\<lparr>txi_ID = ''txi_1'', txi_Type = ''gb_vat'', txi_Value = ''1''\<rparr>], None), w),
     taxids_new := \<lambda>_ t v. answer \<lparr>txi_ID = ''txi_2'', txi_Type = t, txi_Value = v\<rparr>,
     taxids_del := \<lambda>i _. answer \<lparr>txi_ID = i, txi_Type = '''', txi_Value = ''''\<rparr>\<rparr>"

theorem reconcileTaxIDs_exact_witness:
  "\<exists>s'. run_state (reconcileTaxIDs tax_stripe sample_os ''cus_1''
       [\<lparr>tx_Type = ''eu_vat'', tx_Value = ''2''\<rparr>]) (st0 ()) = (None, s') \<and>
     created_keys ''cus_1'' (trace s') = {''eu_vat=2''} \<and> deleted_ids ''cus_1'' (trace s') = {''txi_1''}"
proof -
  let ?d = "[\<lparr>tx_Type = ''eu_vat'', tx_Value = ''2''\<rparr>]"
  obtain s' where run: "run_state (reconcileTaxIDs tax_stripe sample_os ''cus_1'' ?d) (st0 ()) = (None, s')"
    by (simp add: reconcileTaxIDs_def existing_tax_ids_def tax_stripe_def tax_key_def
        desired_keys_def sample_defs)
  have "{i. \<exists>k. map_of (existing_tax_ids [\<lparr>txi_ID = ''txi_1'', txi_Type = ''gb_vat'', txi_Value = ''1''\<rparr>]) k
      = Some i \<and> k \<notin> desired_keys ?d} = {''txi_1''}"
    by (auto simp: existing_tax_ids_def tax_key_def desired_keys_def split: if_splits)
  then have "created_keys ''cus_1'' (trace s') = {''eu_vat=2''} \<and> deleted_ids ''cus_1'' (trace s') = {''txi_1''}"
    using reconcileTaxIDs_exact [OF sample_os_range _ _ run]
    by (simp add: tax_stripe_def existing_tax_ids_def tax_key_def desired_keys_def sample_defs)
  with run show ?thesis by (intro exI conjI) auto
qed

end
