(* ===== verification/Deduper.thy ===== *)
theory Deduper
  imports Prelude
begin

text \<open>
  The event deduplicator: the interface \<open>EventDeduper\<close> of \<open>internal/webhook/http.go\<close> as a
  locale, and its implementation \<open>MemoryDeduper\<close> of \<open>internal/stripe/deduper.go\<close>, a
  bounded list of event IDs in order of use with an index of list elements. An element of Go's
  \<open>container/list\<close> is a handle here, so that the index points at elements as the code's map does.
  The implementation refines a plain least-recently-used list, and what it remembers after any
  sequence of events is the last \<open>capacity\<close> distinct IDs. Every operation runs under the
  deduplicator's mutex, so one call is one step; \<open>DeduperCalls\<close> has the statements in between.
\<close>

section \<open>The interface\<close>

locale event_deduper =
  fixes seen_or_record :: "'d \<Rightarrow> string \<Rightarrow> bool \<times> 'd"
    and known :: "'d \<Rightarrow> string \<Rightarrow> bool"
    and wf :: "'d \<Rightarrow> bool"
  assumes wf_step: "wf d \<Longrightarrow> wf (snd (seen_or_record d i))"
    and seen_iff_known: "wf d \<Longrightarrow> fst (seen_or_record d i) \<longleftrightarrow> known d i"
    and records: "wf d \<Longrightarrow> known (snd (seen_or_record d i)) i"
begin

lemma redelivered: "wf d \<Longrightarrow> fst (seen_or_record (snd (seen_or_record d i)) i)"
  using seen_iff_known [OF wf_step] records by blast

end

section \<open>The implementation\<close>

record deduper =
  capacity :: int
  order :: "(nat \<times> string) list"  \<comment> \<open>list elements, oldest first: handle and value\<close>
  index :: "string \<rightharpoonup> nat"
  next_handle :: nat

definition NewMemoryDeduper :: "int \<Rightarrow> deduper" where
  "NewMemoryDeduper c =
     (let c = (if c \<le> 0 then 4096 else c)
      in \<lparr>capacity = c, order = [], index = Map.empty, next_handle = 0\<rparr>)"

definition MoveToBack :: "(nat \<times> string) list \<Rightarrow> nat \<Rightarrow> (nat \<times> string) list" where
  "MoveToBack xs h =
     (case find (\<lambda>x. fst x = h) xs of
        None \<Rightarrow> xs
      | Some x \<Rightarrow> filter (\<lambda>y. fst y \<noteq> h) xs @ [x])"

definition SeenOrRecord :: "deduper \<Rightarrow> string \<Rightarrow> bool \<times> deduper" where
  "SeenOrRecord d i =
     (case index d i of
        Some elem \<Rightarrow> (True, d\<lparr>order := MoveToBack (order d) elem\<rparr>)
      | None \<Rightarrow>
          (let d = (if int (length (order d)) \<ge> capacity d
                    then (case order d of
                            [] \<Rightarrow> d
                          | front # rest \<Rightarrow>
                              d\<lparr>index := (index d)(snd front := None), order := rest\<rparr>)
                    else d);
               elem = next_handle d
           in (False, d\<lparr>index := (index d)(i \<mapsto> elem), order := order d @ [(elem, i)],
                        next_handle := elem + 1\<rparr>)))"

definition deduper_inv :: "deduper \<Rightarrow> bool" where
  "deduper_inv d \<longleftrightarrow>
     0 < capacity d \<and> int (length (order d)) \<le> capacity d \<and>
     distinct (map fst (order d)) \<and> distinct (map snd (order d)) \<and>
     (\<forall>x \<in> set (order d). fst x < next_handle d) \<and>
     (\<forall>i h. index d i = Some h \<longleftrightarrow> (h, i) \<in> set (order d))"

section \<open>The least-recently-used list it refines\<close>

definition remembered :: "deduper \<Rightarrow> string list" where
  "remembered d = map snd (order d)"

definition lru_step :: "nat \<Rightarrow> string list \<Rightarrow> string \<Rightarrow> bool \<times> string list" where
  "lru_step c ids i =
     (if i \<in> set ids then (True, filter (\<lambda>j. j \<noteq> i) ids @ [i])
      else (False, (if c \<le> length ids then tl ids else ids) @ [i]))"

lemma filter_pairs:
  assumes "distinct (map fst xs)" "distinct (map snd xs)" "(h, i) \<in> set xs"
  shows "map snd (filter (\<lambda>y. fst y \<noteq> h) xs) = filter (\<lambda>j. j \<noteq> i) (map snd xs)"
proof -
  have same: "fst y = h \<longleftrightarrow> snd y = i" if "y \<in> set xs" for y
    using that assms by (metis eq_key_imp_eq_value fst_conv inj_on_def distinct_map prod.collapse snd_conv)
  then have "filter (\<lambda>y. fst y \<noteq> h) xs = filter (\<lambda>y. snd y \<noteq> i) xs"
    by (intro filter_cong refl) (simp add: same)
  then show ?thesis by (simp add: filter_map comp_def)
qed

lemma MoveToBack_elem:
  assumes "distinct (map fst xs)" "(h, i) \<in> set xs"
  shows "MoveToBack xs h = filter (\<lambda>y. fst y \<noteq> h) xs @ [(h, i)]"
proof -
  have "find (\<lambda>x. fst x = h) xs = Some (h, i)"
    using assms by (induction xs) force+
  then show ?thesis by (simp add: MoveToBack_def)
qed

lemma deduper_inv_distinct: "deduper_inv d \<Longrightarrow> distinct (map fst (order d))"
  by (simp add: deduper_inv_def)

lemma SeenOrRecord_hit:
  assumes inv: "deduper_inv d" and hit: "index d i = Some h"
  shows "fst (SeenOrRecord d i)" and "deduper_inv (snd (SeenOrRecord d i))"
    and "remembered (snd (SeenOrRecord d i)) = filter (\<lambda>j. j \<noteq> i) (remembered d) @ [i]"
    and "i \<in> set (remembered d)"
proof -
  define ys where "ys = filter (\<lambda>y. fst y \<noteq> h) (order d) @ [(h, i)]"
  have mem: "(h, i) \<in> set (order d)" using inv hit by (simp add: deduper_inv_def)
  have d': "snd (SeenOrRecord d i) = d\<lparr>order := ys\<rparr>"
    using hit MoveToBack_elem [OF _ mem] inv by (simp add: SeenOrRecord_def ys_def deduper_inv_distinct)
  have set: "set ys = set (order d)"
    using inv mem by (auto simp: ys_def deduper_inv_def dest: eq_key_imp_eq_value)
  have vals: "map snd ys = filter (\<lambda>j. j \<noteq> i) (remembered d) @ [i]"
    using inv mem by (simp add: deduper_inv_def filter_pairs remembered_def ys_def)
  have "length (filter (\<lambda>y. fst y \<noteq> h) (order d)) < length (order d)"
    using mem by (auto intro: length_filter_less)
  then have len: "length ys \<le> length (order d)" by (simp add: ys_def)
  have keys: "distinct (map fst ys)"
    using inv by (auto simp: ys_def deduper_inv_def distinct_map_filter)
  have dist: "distinct (map snd ys)"
    using inv by (simp add: vals) (simp add: deduper_inv_def remembered_def)
  show "fst (SeenOrRecord d i)" using hit by (simp add: SeenOrRecord_def)
  show "remembered (snd (SeenOrRecord d i)) = filter (\<lambda>j. j \<noteq> i) (remembered d) @ [i]"
    unfolding d' by (simp add: vals remembered_def [of "d\<lparr>order := ys\<rparr>"])
  show "i \<in> set (remembered d)" using mem by (force simp: remembered_def)
  show "deduper_inv (snd (SeenOrRecord d i))"
    using inv len set keys dist unfolding d' deduper_inv_def by simp
qed

lemma SeenOrRecord_new:
  assumes "index d i = None"
  shows "SeenOrRecord d i = (False,
    (if int (length (order d)) \<ge> capacity d \<and> order d \<noteq> []
     then d\<lparr>index := (index d)(snd (hd (order d)) := None, i \<mapsto> next_handle d),
            order := tl (order d) @ [(next_handle d, i)], next_handle := next_handle d + 1\<rparr>
     else d\<lparr>index := (index d)(i \<mapsto> next_handle d),
            order := order d @ [(next_handle d, i)], next_handle := next_handle d + 1\<rparr>))"
  using assms by (cases "order d") (simp_all add: SeenOrRecord_def Let_def)

text \<open>Recording a new ID behind elements that are well-formed with the index.\<close>

lemma deduper_inv_push:
  assumes "0 < capacity d" and "int (length xs) < capacity d"
    and "distinct (map fst xs)" and "distinct (map snd xs)" and "i \<notin> snd ` set xs"
    and "\<forall>x \<in> set xs. fst x < n"
    and "\<And>j k. m j = Some k \<longleftrightarrow> (k, j) \<in> set xs"
  shows "deduper_inv (d\<lparr>index := m(i \<mapsto> n), order := xs @ [(n, i)], next_handle := n + 1\<rparr>)"
proof -
  have "n \<notin> fst ` set xs" using assms(6) by fastforce
  moreover have "(m(i \<mapsto> n)) j = Some k \<longleftrightarrow> (k, j) \<in> set (xs @ [(n, i)])" for j k
    using assms(5,7) by force
  ultimately show ?thesis using assms by (auto simp: deduper_inv_def less_Suc_eq)
qed

lemma SeenOrRecord_miss:
  assumes inv: "deduper_inv d" and miss: "index d i = None"
  shows "\<not> fst (SeenOrRecord d i)" and "deduper_inv (snd (SeenOrRecord d i))"
    and "remembered (snd (SeenOrRecord d i)) =
      (if nat (capacity d) \<le> length (remembered d) then tl (remembered d) else remembered d) @ [i]"
    and "i \<notin> set (remembered d)"
proof -
  have fields: "0 < capacity d" "int (length (order d)) \<le> capacity d"
    "distinct (map fst (order d))" "distinct (map snd (order d))"
    "\<forall>x \<in> set (order d). fst x < next_handle d"
    and pointers: "\<And>j k. index d j = Some k \<longleftrightarrow> (k, j) \<in> set (order d)"
    using inv by (simp_all add: deduper_inv_def)
  have new: "i \<notin> snd ` set (order d)" using pointers miss by force
  show "\<not> fst (SeenOrRecord d i)" using miss by (simp add: SeenOrRecord_new)
  show "i \<notin> set (remembered d)" using new by (simp add: remembered_def)
  show "remembered (snd (SeenOrRecord d i)) =
      (if nat (capacity d) \<le> length (remembered d) then tl (remembered d) else remembered d) @ [i]"
    using miss fields(1) by (auto simp: SeenOrRecord_new remembered_def map_tl nat_le_iff)
  show "deduper_inv (snd (SeenOrRecord d i))"
  proof (cases "capacity d \<le> int (length (order d)) \<and> order d \<noteq> []")
    case True
    then obtain h v rest where ord: "order d = (h, v) # rest" by (cases "order d") auto
    have "((index d)(v := None)) j = Some k \<longleftrightarrow> (k, j) \<in> set rest" for j k
      using pointers [of j k] fields(4) ord by force
    then show ?thesis
      using True miss ord fields new
        deduper_inv_push [of d rest i "next_handle d" "(index d)(v := None)"]
      by (simp add: SeenOrRecord_new)
  next
    case False
    then have "int (length (order d)) < capacity d" using fields(1) by (cases "order d") auto
    then show ?thesis
      using False miss fields new pointers
        deduper_inv_push [of d "order d" i "next_handle d" "index d"]
      by (auto simp: SeenOrRecord_new)
  qed
qed

lemma SeenOrRecord_step:
  assumes "deduper_inv d"
  shows "(fst (SeenOrRecord d i), remembered (snd (SeenOrRecord d i))) =
      lru_step (nat (capacity d)) (remembered d) i \<and>
    deduper_inv (snd (SeenOrRecord d i)) \<and> capacity (snd (SeenOrRecord d i)) = capacity d"
proof (cases "index d i")
  case None
  with SeenOrRecord_miss [OF assms None] show ?thesis
    by (auto simp: lru_step_def SeenOrRecord_def Let_def split: list.split)
next
  case (Some h)
  with SeenOrRecord_hit [OF assms Some] show ?thesis
    by (simp add: lru_step_def SeenOrRecord_def)
qed

text \<open>
  On every well-formed state a call answers what the least-recently-used list of
  the same IDs answers, leaves the list's next state, and keeps the representation well-formed: the
  index points exactly at the list's elements, no ID is held twice and the capacity is not exceeded.
\<close>

lemma SeenOrRecord_refines_lru:
  assumes "deduper_inv d"
  shows "(fst (SeenOrRecord d i), remembered (snd (SeenOrRecord d i))) =
      lru_step (nat (capacity d)) (remembered d) i \<and>
    deduper_inv (snd (SeenOrRecord d i)) \<and> capacity (snd (SeenOrRecord d i)) = capacity d"
  using assms by (rule SeenOrRecord_step)

lemma SeenOrRecord_refines_lru_witness:
  "(fst (SeenOrRecord (NewMemoryDeduper 2) ''evt_1''),
    remembered (snd (SeenOrRecord (NewMemoryDeduper 2) ''evt_1''))) = lru_step 2 [] ''evt_1''"
  using SeenOrRecord_refines_lru [of "NewMemoryDeduper 2" "''evt_1''"]
  by (simp add: NewMemoryDeduper_def deduper_inv_def remembered_def)

section \<open>What it remembers\<close>

lemma NewMemoryDeduper_inv: "deduper_inv (NewMemoryDeduper c)"
  by (simp add: NewMemoryDeduper_def deduper_inv_def)

lemma NewMemoryDeduper_empty: "remembered (NewMemoryDeduper c) = []"
  by (simp add: NewMemoryDeduper_def remembered_def)

interpretation memory: event_deduper SeenOrRecord "\<lambda>d i. i \<in> set (remembered d)" deduper_inv
proof
  fix d i
  assume inv: "deduper_inv d"
  have step: "(fst (SeenOrRecord d i), remembered (snd (SeenOrRecord d i))) =
      lru_step (nat (capacity d)) (remembered d) i"
    and keeps: "deduper_inv (snd (SeenOrRecord d i))"
    using SeenOrRecord_step [OF inv] by simp_all
  show "deduper_inv (snd (SeenOrRecord d i))" by (rule keeps)
  show "fst (SeenOrRecord d i) \<longleftrightarrow> i \<in> set (remembered d)"
    using step by (auto simp: lru_step_def split: if_splits)
  show "i \<in> set (remembered (snd (SeenOrRecord d i)))"
    using step by (auto simp: lru_step_def split: if_splits)
qed

fun deliveries :: "deduper \<Rightarrow> string list \<Rightarrow> deduper" where
  "deliveries d [] = d"
| "deliveries d (i # is) = deliveries (snd (SeenOrRecord d i)) is"

definition last_n :: "nat \<Rightarrow> 'a list \<Rightarrow> 'a list" where
  "last_n c xs = drop (length xs - c) xs"

lemma deliveries_snoc: "deliveries d (is @ [i]) = snd (SeenOrRecord (deliveries d is) i)"
  by (induction "is" arbitrary: d) auto

lemma remdups_snoc: "remdups (xs @ [x]) = filter (\<lambda>y. y \<noteq> x) (remdups xs) @ [x]"
  by (induction xs) auto

lemma length_filter_neq:
  "distinct ys \<Longrightarrow> x \<in> set ys \<Longrightarrow> Suc (length (filter (\<lambda>y. y \<noteq> x) ys)) = length ys"
proof (induction ys)
  case (Cons y ys)
  then have "filter (\<lambda>z. z \<noteq> y) ys = ys" by (auto simp: filter_id_conv)
  with Cons show ?case by auto
qed simp

text \<open>One step of the list keeps it the last \<open>c\<close> distinct IDs of the history.\<close>

text \<open>The history splits into the IDs that were forgotten and those that are remembered.\<close>

lemma last_n_hit:
  assumes "x \<in> set (last_n c R)" and "distinct R"
  shows "last_n c (filter (\<lambda>y. y \<noteq> x) R @ [x]) = filter (\<lambda>y. y \<noteq> x) (last_n c R) @ [x]"
proof -
  let ?old = "take (length R - c) R" and ?ids = "last_n c R"
  have split: "R = ?old @ ?ids" by (simp add: last_n_def)
  with assms have x: "x \<notin> set ?old" "distinct ?ids" by (metis disjoint_iff distinct_append, metis distinct_append)
  then have new: "filter (\<lambda>y. y \<noteq> x) R @ [x] = ?old @ (filter (\<lambda>y. y \<noteq> x) ?ids @ [x])"
    by (subst split) (auto simp: filter_id_conv)
  have "length (filter (\<lambda>y. y \<noteq> x) ?ids @ [x]) = length ?ids"
    using length_filter_neq [OF x(2) assms(1)] by simp
  moreover have "length ?old + length ?ids = length R" by (metis length_append split)
  ultimately show ?thesis
    unfolding new last_n_def [of c "?old @ (filter (\<lambda>y. y \<noteq> x) ?ids @ [x])"] by simp
qed

lemma last_n_miss:
  assumes "x \<notin> set (last_n c R)" and "0 < c"
  shows "last_n c (filter (\<lambda>y. y \<noteq> x) R @ [x]) =
    (if c \<le> length (last_n c R) then tl (last_n c R) else last_n c R) @ [x]"
proof -
  let ?old = "take (length R - c) R" and ?ids = "last_n c R"
  have split: "R = ?old @ ?ids" by (simp add: last_n_def)
  have "filter (\<lambda>y. y \<noteq> x) ?ids = ?ids" using assms(1) by (auto simp: filter_id_conv)
  then have new: "filter (\<lambda>y. y \<noteq> x) R @ [x] = filter (\<lambda>y. y \<noteq> x) ?old @ ?ids @ [x]"
    by (subst split) simp
  show ?thesis
  proof (cases "c \<le> length ?ids")
    case True
    moreover have "length ?ids \<le> c" by (simp add: last_n_def)
    ultimately have "length ?ids = c" by simp
    with assms(2) show ?thesis
      unfolding new last_n_def [of c "filter (\<lambda>y. y \<noteq> x) ?old @ ?ids @ [x]"] by (cases ?ids) simp_all
  next
    case False
    then have "length R < c" by (auto simp: last_n_def)
    then show ?thesis unfolding new by (simp add: last_n_def)
  qed
qed

lemma lru_step_history:
  assumes "0 < c"
  shows "lru_step c (last_n c (remdups xs)) x =
    (x \<in> set (last_n c (remdups xs)), last_n c (remdups (xs @ [x])))"
  using last_n_hit [of x c "remdups xs"] last_n_miss [of x c "remdups xs", OF _ assms]
  by (cases "x \<in> set (last_n c (remdups xs))") (simp_all add: lru_step_def remdups_snoc)

lemma deliveries_state:
  "deduper_inv (deliveries (NewMemoryDeduper c) is) \<and>
   capacity (deliveries (NewMemoryDeduper c) is) = (if c \<le> 0 then 4096 else c) \<and>
   remembered (deliveries (NewMemoryDeduper c) is) =
     last_n (nat (if c \<le> 0 then 4096 else c)) (remdups is)"
proof (induction "is" rule: rev_induct)
  case Nil
  then show ?case
    by (simp add: NewMemoryDeduper_inv NewMemoryDeduper_empty last_n_def)
       (simp add: NewMemoryDeduper_def)
next
  case (snoc i "is")
  let ?d = "deliveries (NewMemoryDeduper c) is" and ?c = "nat (if c \<le> 0 then 4096 else c)"
  have "0 < ?c" by simp
  then show ?case
    using snoc SeenOrRecord_step [of ?d i] lru_step_history [of ?c "is" i]
    by (auto simp: deliveries_snoc)
qed

text \<open>
  After any sequence of deliveries, an event ID is reported as a duplicate exactly
  when it is among the last \<open>capacity\<close> distinct IDs delivered, where a repeated delivery counts
  as recent again (the capacity is 4096 when none is given).
\<close>

lemma deduper_window:
  "fst (SeenOrRecord (deliveries (NewMemoryDeduper c) is) i) \<longleftrightarrow>
     i \<in> set (last_n (nat (if c \<le> 0 then 4096 else c)) (remdups is))"
  using deliveries_state [of c "is"] memory.seen_iff_known [of "deliveries (NewMemoryDeduper c) is" i]
  by simp

text \<open>
  The deduplicator's memory is bounded: after any sequence of deliveries its list has at
  most \<open>capacity\<close> elements, and its index holds exactly one entry for each of them, so evicting an
  element from the list also evicts it from the index.
\<close>

lemma memory_bounded:
  "length (order (deliveries (NewMemoryDeduper c) is)) \<le> nat (if c \<le> 0 then 4096 else c) \<and>
   finite (dom (index (deliveries (NewMemoryDeduper c) is))) \<and>
   card (dom (index (deliveries (NewMemoryDeduper c) is))) = length (order (deliveries (NewMemoryDeduper c) is))"
proof -
  let ?d = "deliveries (NewMemoryDeduper c) is"
  have inv: "deduper_inv ?d" and cap: "capacity ?d = (if c \<le> 0 then 4096 else c)"
    using deliveries_state by simp_all
  have dom: "dom (index ?d) = set (remembered ?d)"
    using inv by (force simp: deduper_inv_def remembered_def)
  have "distinct (remembered ?d)" using inv by (simp add: deduper_inv_def remembered_def)
  then have "card (dom (index ?d)) = length (order ?d)"
    unfolding dom by (simp add: distinct_card) (simp add: remembered_def)
  moreover have "int (length (order ?d)) \<le> (if c \<le> 0 then 4096 else c)"
    using inv cap by (simp add: deduper_inv_def)
  ultimately show ?thesis unfolding dom by auto
qed

end
