(* ===== verification/DeduperCalls.thy ===== *)
theory DeduperCalls
  imports Deduper
begin

text \<open>
  The deduplicator under concurrent requests. The webhook server handles each delivery in a goroutine of
  its own, and all of them call \<open>SeenOrRecord\<close> of one \<open>MemoryDeduper\<close> (\<open>internal/stripe/deduper.go\<close>).
  Here a call is not one step, as in \<open>Deduper\<close>, but goes statement by statement, with the statements of
  other calls in between. The mutex makes the calls take effect one after the other, in the order in
  which they have it: every answer is the one that the calls would give in that order.
\<close>

section \<open>Calls, statement by statement\<close>

type_synonym goroutine = nat

datatype call_pc =
    Outside
  | AtLock string                          \<comment> \<open>\<open>d.mu.Lock()\<close>\<close>
  | AtLookup string                        \<comment> \<open>\<open>elem, ok := d.index[id]\<close>\<close>
  | AtMove string nat                      \<comment> \<open>\<open>d.order.MoveToBack(elem)\<close>\<close>
  | AtLen string                           \<comment> \<open>\<open>d.order.Len() >= d.capacity\<close> and \<open>d.order.Front()\<close>\<close>
  | AtDelete string "nat \<times> string"         \<comment> \<open>\<open>delete(d.index, front.Value)\<close>\<close>
  | AtRemove string "nat \<times> string"         \<comment> \<open>\<open>d.order.Remove(front)\<close>\<close>
  | AtPush string                          \<comment> \<open>\<open>d.order.PushBack(id)\<close>\<close>
  | AtIndex string nat                     \<comment> \<open>\<open>d.index[id] = ...\<close>\<close>
  | AtUnlock string bool                   \<comment> \<open>the deferred \<open>d.mu.Unlock()\<close>, with the answer\<close>

record dedupe_calls =
  dedupe :: deduper
  dedupe_mu :: "goroutine option"
  call_at :: "goroutine \<Rightarrow> call_pc"
  answered :: "(string \<times> bool) list"      \<comment> \<open>the calls that returned, with their answers\<close>

abbreviation moves :: "goroutine \<Rightarrow> call_pc \<Rightarrow> dedupe_calls \<Rightarrow> dedupe_calls" where
  "moves p c s \<equiv> s\<lparr>call_at := (call_at s)(p := c)\<rparr>"

abbreviation with_dedupe :: "deduper \<Rightarrow> dedupe_calls \<Rightarrow> dedupe_calls" where
  "with_dedupe d s \<equiv> s\<lparr>dedupe := d\<rparr>"

inductive dedupe_step :: "goroutine \<Rightarrow> dedupe_calls \<Rightarrow> dedupe_calls \<Rightarrow> bool" where
  call: "call_at s p = Outside \<Longrightarrow> dedupe_step p s (moves p (AtLock i) s)"
| lock: "call_at s p = AtLock i \<Longrightarrow> dedupe_mu s = None \<Longrightarrow>
    dedupe_step p s (moves p (AtLookup i) (s\<lparr>dedupe_mu := Some p\<rparr>))"
| hit: "call_at s p = AtLookup i \<Longrightarrow> index (dedupe s) i = Some h \<Longrightarrow> dedupe_step p s (moves p (AtMove i h) s)"
| miss: "call_at s p = AtLookup i \<Longrightarrow> index (dedupe s) i = None \<Longrightarrow> dedupe_step p s (moves p (AtLen i) s)"
| move: "call_at s p = AtMove i h \<Longrightarrow> d = dedupe s \<Longrightarrow>
    dedupe_step p s (moves p (AtUnlock i True) (with_dedupe (d\<lparr>order := MoveToBack (order d) h\<rparr>) s))"
| full: "call_at s p = AtLen i \<Longrightarrow> int (length (order (dedupe s))) \<ge> capacity (dedupe s) \<Longrightarrow>
    order (dedupe s) = front # rest \<Longrightarrow> dedupe_step p s (moves p (AtDelete i front) s)"
| room: "call_at s p = AtLen i \<Longrightarrow>
    int (length (order (dedupe s))) < capacity (dedupe s) \<or> order (dedupe s) = [] \<Longrightarrow>
    dedupe_step p s (moves p (AtPush i) s)"
| delete: "call_at s p = AtDelete i front \<Longrightarrow> d = dedupe s \<Longrightarrow>
    dedupe_step p s (moves p (AtRemove i front) (with_dedupe (d\<lparr>index := (index d)(snd front := None)\<rparr>) s))"
| remove: "call_at s p = AtRemove i front \<Longrightarrow> d = dedupe s \<Longrightarrow>
    dedupe_step p s (moves p (AtPush i)
      (with_dedupe (d\<lparr>order := filter (\<lambda>x. fst x \<noteq> fst front) (order d)\<rparr>) s))"
| push: "call_at s p = AtPush i \<Longrightarrow> d = dedupe s \<Longrightarrow>
    dedupe_step p s (moves p (AtIndex i (next_handle d))
      (with_dedupe (d\<lparr>order := order d @ [(next_handle d, i)], next_handle := next_handle d + 1\<rparr>) s))"
| index: "call_at s p = AtIndex i h \<Longrightarrow> d = dedupe s \<Longrightarrow>
    dedupe_step p s (moves p (AtUnlock i False) (with_dedupe (d\<lparr>index := (index d)(i \<mapsto> h)\<rparr>) s))"
| unlock: "call_at s p = AtUnlock i b \<Longrightarrow>
    dedupe_step p s (moves p Outside (s\<lparr>dedupe_mu := None, answered := answered s @ [(i, b)]\<rparr>))"

inductive dedupe_reachable :: "int \<Rightarrow> dedupe_calls \<Rightarrow> bool" for c where
  start: "dedupe_reachable c \<lparr>dedupe = NewMemoryDeduper c, dedupe_mu = None, call_at = (\<lambda>_. Outside), answered = []\<rparr>"
| more: "dedupe_reachable c s \<Longrightarrow> dedupe_step p s s' \<Longrightarrow> dedupe_reachable c s'"

inductive_cases dedupe_stepE: "dedupe_step p s s'"

section \<open>The simulation\<close>

text \<open>Where a call is inside the mutex.\<close>

fun inside :: "call_pc \<Rightarrow> bool" where
  "inside Outside = False"
| "inside (AtLock i) = False"
| "inside _ = True"

text \<open>What the call that has the mutex has done to the deduplicator \<open>d0\<close> it found.\<close>

definition evicted :: "deduper \<Rightarrow> deduper" where
  "evicted d0 =
     (if int (length (order d0)) \<ge> capacity d0
      then (case order d0 of [] \<Rightarrow> d0 | front # rest \<Rightarrow> d0\<lparr>index := (index d0)(snd front := None), order := rest\<rparr>)
      else d0)"

fun progress :: "deduper \<Rightarrow> call_pc \<Rightarrow> deduper \<Rightarrow> bool" where
  "progress d0 (AtLookup i) d \<longleftrightarrow> d = d0"
| "progress d0 (AtMove i h) d \<longleftrightarrow> d = d0 \<and> index d0 i = Some h"
| "progress d0 (AtLen i) d \<longleftrightarrow> d = d0 \<and> index d0 i = None"
| "progress d0 (AtDelete i f) d \<longleftrightarrow> d = d0 \<and> index d0 i = None \<and> int (length (order d0)) \<ge> capacity d0 \<and>
     (\<exists>rest. order d0 = f # rest)"
| "progress d0 (AtRemove i f) d \<longleftrightarrow> d = d0\<lparr>index := (index d0)(snd f := None)\<rparr> \<and> index d0 i = None \<and>
     int (length (order d0)) \<ge> capacity d0 \<and> (\<exists>rest. order d0 = f # rest)"
| "progress d0 (AtPush i) d \<longleftrightarrow> d = evicted d0 \<and> index d0 i = None"
| "progress d0 (AtIndex i h) d \<longleftrightarrow> d = (evicted d0)\<lparr>order := order (evicted d0) @ [(next_handle d0, i)],
     next_handle := next_handle d0 + 1\<rparr> \<and> h = next_handle d0 \<and> index d0 i = None"
| "progress d0 (AtUnlock i b) d \<longleftrightarrow> (b, d) = SeenOrRecord d0 i"
| "progress d0 _ d \<longleftrightarrow> d = d0"

lemma evicted_fields: "next_handle (evicted d0) = next_handle d0" "capacity (evicted d0) = capacity d0"
  by (simp_all add: evicted_def split: list.split)

lemma SeenOrRecord_evicted:
  "index d0 i = None \<Longrightarrow> SeenOrRecord d0 i =
    (False, (evicted d0)\<lparr>index := (index (evicted d0))(i \<mapsto> next_handle d0),
       order := order (evicted d0) @ [(next_handle d0, i)], next_handle := next_handle d0 + 1\<rparr>)"
  by (simp add: SeenOrRecord_def Let_def evicted_def split: list.split)

lemma remove_front:
  assumes "deduper_inv d0" and "order d0 = f # rest"
  shows "filter (\<lambda>x. fst x \<noteq> fst f) rest = rest"
proof -
  have "fst f \<notin> fst ` set rest" using assms by (simp add: deduper_inv_def)
  then show ?thesis by (intro filter_True) (metis imageI)
qed

text \<open>A statement of a call inside the mutex.\<close>

lemma progress_step:
  assumes "dedupe_step p s s'" and "inside (call_at s p)" and "inside (call_at s' p)"
    and "deduper_inv d0" and "progress d0 (call_at s p) (dedupe s)"
  shows "progress d0 (call_at s' p) (dedupe s')"
  using assms
proof (cases rule: dedupe_step.cases)
  case (remove i f d)
  with assms(5) obtain rest where "order d0 = f # rest" by auto
  with remove assms(5) remove_front [OF assms(4) this] show ?thesis by (simp add: evicted_def)
next
  case (index i h d)
  with assms(5) show ?thesis by (simp add: SeenOrRecord_evicted)
qed (auto simp: evicted_def evicted_fields SeenOrRecord_def split: list.split)

section \<open>Invariant\<close>

text \<open>What the calls that returned have left, one after the other.\<close>

definition settled_dedupe :: "int \<Rightarrow> dedupe_calls \<Rightarrow> deduper" where
  "settled_dedupe c s = deliveries (NewMemoryDeduper c) (map fst (answered s))"

fun answers_in_turn :: "deduper \<Rightarrow> string list \<Rightarrow> (string \<times> bool) list" where
  "answers_in_turn d [] = []"
| "answers_in_turn d (i # is) = (i, fst (SeenOrRecord d i)) # answers_in_turn (snd (SeenOrRecord d i)) is"

lemma answers_in_turn_snoc:
  "answers_in_turn d (is @ [i]) = answers_in_turn d is @ [(i, fst (SeenOrRecord (deliveries d is) i))]"
  by (induction "is" arbitrary: d) simp_all

definition calls_inv :: "int \<Rightarrow> dedupe_calls \<Rightarrow> bool" where
  "calls_inv c s \<longleftrightarrow>
     (\<forall>p. inside (call_at s p) \<longleftrightarrow> dedupe_mu s = Some p) \<and>
     progress (settled_dedupe c s) (case dedupe_mu s of None \<Rightarrow> Outside | Some p \<Rightarrow> call_at s p) (dedupe s) \<and>
     answered s = answers_in_turn (NewMemoryDeduper c) (map fst (answered s))"

lemma settled_inv: "deduper_inv (settled_dedupe c s)"
  using deliveries_state by (simp add: settled_dedupe_def)

lemma calls_inv_step:
  assumes "dedupe_step p s s'" and inv: "calls_inv c s"
  shows "calls_inv c s'"
proof -
  have mu: "\<And>q. inside (call_at s q) \<longleftrightarrow> dedupe_mu s = Some q"
    and prog: "progress (settled_dedupe c s) (case dedupe_mu s of None \<Rightarrow> Outside | Some p \<Rightarrow> call_at s p) (dedupe s)"
    and ans: "answered s = answers_in_turn (NewMemoryDeduper c) (map fst (answered s))"
    using inv by (simp_all add: calls_inv_def)
  consider (inner) "inside (call_at s p)" "inside (call_at s' p)" | (outer) "\<not> inside (call_at s p)"
    | (leaves) "inside (call_at s p)" "\<not> inside (call_at s' p)" by blast
  then show ?thesis
  proof cases
    case inner
    then have "progress (settled_dedupe c s) (call_at s' p) (dedupe s')"
      using progress_step [OF assms(1) _ _ settled_inv] prog mu [of p] by simp
    moreover have "dedupe_mu s' = dedupe_mu s" "answered s' = answered s" "\<And>q. q \<noteq> p \<Longrightarrow> call_at s' q = call_at s q"
      using assms(1) inner by (cases rule: dedupe_step.cases; simp)+
    ultimately show ?thesis
      using inner mu ans unfolding calls_inv_def settled_dedupe_def by (metis option.inject option.simps(5))
  next
    case outer
    then have "dedupe_mu s \<noteq> Some p" using mu by blast
    with assms(1) outer mu prog ans show ?thesis
      by (cases rule: dedupe_step.cases) (auto simp: calls_inv_def settled_dedupe_def split: option.splits)
  next
    case leaves
    with assms(1) obtain i b where i: "call_at s p = AtUnlock i b"
      "s' = moves p Outside (s\<lparr>dedupe_mu := None, answered := answered s @ [(i, b)]\<rparr>)"
      by (cases rule: dedupe_step.cases) auto
    have "dedupe_mu s = Some p" using leaves mu by blast
    with prog i(1) have "(b, dedupe s) = SeenOrRecord (settled_dedupe c s) i" by simp
    then have "b = fst (SeenOrRecord (settled_dedupe c s) i)" "dedupe s = snd (SeenOrRecord (settled_dedupe c s) i)"
      by (metis fst_conv, metis snd_conv)
    with i \<open>dedupe_mu s = Some p\<close> mu ans show ?thesis
      by (simp add: calls_inv_def settled_dedupe_def answers_in_turn_snoc deliveries_snoc)
  qed
qed

lemma calls_inv_reachable: "dedupe_reachable c s \<Longrightarrow> calls_inv c s"
proof (induction rule: dedupe_reachable.induct)
  case start
  show ?case by (simp add: calls_inv_def settled_dedupe_def)
next
  case (more s p s')
  then show ?case by (blast intro: calls_inv_step)
qed

section \<open>Facts\<close>

lemma answers_in_turn_nth:
  "k < length is \<Longrightarrow> answers_in_turn d is ! k = (is ! k, fst (SeenOrRecord (deliveries d (take k is)) (is ! k)))"
proof (induction "is" arbitrary: d k)
  case (Cons i "is")
  then show ?case by (cases k) simp_all
qed simp

lemma progress_bound:
  assumes "deduper_inv d0" and "progress d0 a d"
  shows "int (length (order d)) \<le> capacity d0"
proof -
  have d0: "0 < capacity d0" "int (length (order d0)) \<le> capacity d0"
    using assms(1) by (simp_all add: deduper_inv_def)
  have "int (length (order (evicted d0))) < capacity d0"
    using d0 by (cases "order d0") (simp_all add: evicted_def)
  moreover have "int (length (order (snd (SeenOrRecord d0 i)))) \<le> capacity d0" for i
    using SeenOrRecord_step [OF assms(1), of i] by (metis deduper_inv_def)
  ultimately show ?thesis
    using assms(2) d0 by (cases a) (auto, metis snd_conv)
qed

text \<open>Whenever a call has not returned, some call can go on: the one that has the mutex, or any that waits for it.\<close>

lemma some_call_goes_on:
  assumes "calls_inv c s" and "call_at s p \<noteq> Outside"
  shows "\<exists>q s'. call_at s q \<noteq> Outside \<and> dedupe_step q s s'"
proof (cases "dedupe_mu s")
  case None
  with assms(1) have "\<not> inside (call_at s p)" by (simp add: calls_inv_def)
  with assms(2) obtain i where "call_at s p = AtLock i" by (cases "call_at s p") simp_all
  with None show ?thesis using lock [of s p i] by (intro exI [of _ p]) auto
next
  case (Some q)
  with assms(1) have q: "inside (call_at s q)" "progress (settled_dedupe c s) (call_at s q) (dedupe s)"
    by (simp_all add: calls_inv_def)
  have "\<exists>s'. dedupe_step q s s'"
  proof (cases "call_at s q")
    case (AtLookup i)
    then show ?thesis by (cases "index (dedupe s) i") (blast intro: hit miss)+
  next
    case (AtLen i)
    then show ?thesis by (cases "order (dedupe s)"; meson full room not_less)
  qed (use q(1) in \<open>auto intro: dedupe_step.intros\<close>)
  with q(1) show ?thesis by (intro exI [of _ q]) auto
qed

section \<open>Properties\<close>

text \<open>
  C28 (refinement): however the deliveries that the server handles at a time interleave, \<open>SeenOrRecord\<close>
  takes effect one call after the other: a call is told that it is a duplicate exactly when its ID is
  among the last \<open>capacity\<close> distinct IDs of the calls that had the mutex before it, so of overlapping
  deliveries of one event only the first is new; between calls the deduplicator is the one that these
  calls leave in turn; at no moment, also within a call, are more than \<open>capacity\<close> IDs held; and while a
  call has not returned, some call can go on.
\<close>

theorem concurrent_calls_in_turn:
  assumes "dedupe_reachable c s"
  shows "(\<forall>k < length (answered s). snd (answered s ! k) \<longleftrightarrow> fst (answered s ! k) \<in>
       set (last_n (nat (if c \<le> 0 then 4096 else c)) (remdups (map fst (take k (answered s)))))) \<and>
    (dedupe_mu s = None \<longrightarrow> dedupe s = deliveries (NewMemoryDeduper c) (map fst (answered s))) \<and>
    length (order (dedupe s)) \<le> nat (if c \<le> 0 then 4096 else c) \<and>
    (\<forall>p. call_at s p \<noteq> Outside \<longrightarrow> (\<exists>q s'. call_at s q \<noteq> Outside \<and> dedupe_step q s s'))"
proof (intro conjI allI impI)
  have inv: "calls_inv c s" by (rule calls_inv_reachable [OF assms])
  let ?is = "map fst (answered s)"
  fix k
  assume k: "k < length (answered s)"
  then have "answered s ! k = (?is ! k, fst (SeenOrRecord (deliveries (NewMemoryDeduper c) (take k ?is)) (?is ! k)))"
    using inv answers_in_turn_nth [of k ?is "NewMemoryDeduper c"] unfolding calls_inv_def by (metis length_map)
  with k show "snd (answered s ! k) \<longleftrightarrow> fst (answered s ! k) \<in>
      set (last_n (nat (if c \<le> 0 then 4096 else c)) (remdups (map fst (take k (answered s)))))"
    using deduper_window by (metis nth_map snd_conv take_map)
next
  assume "dedupe_mu s = None"
  then show "dedupe s = deliveries (NewMemoryDeduper c) (map fst (answered s))"
    using calls_inv_reachable [OF assms] by (simp add: calls_inv_def settled_dedupe_def)
next
  have "int (length (order (dedupe s))) \<le> capacity (settled_dedupe c s)"
    using calls_inv_reachable [OF assms] progress_bound [OF settled_inv] unfolding calls_inv_def by blast
  then show "length (order (dedupe s)) \<le> nat (if c \<le> 0 then 4096 else c)"
    using deliveries_state [of c "map fst (answered s)"] by (simp add: settled_dedupe_def)
next
  fix p
  assume "call_at s p \<noteq> Outside"
  then show "\<exists>q s'. call_at s q \<noteq> Outside \<and> dedupe_step q s s'"
    by (rule some_call_goes_on [OF calls_inv_reachable [OF assms]])
qed

section \<open>Witnesses\<close>

text \<open>The statement that a goroutine executes next, a call for \<open>i\<close> when it is outside; \<open>None\<close> while it waits.\<close>

fun go_on :: "goroutine \<times> string \<Rightarrow> dedupe_calls \<Rightarrow> dedupe_calls option" where
  "go_on (p, i) s = (let d = dedupe s in
     case call_at s p of
       Outside \<Rightarrow> Some (moves p (AtLock i) s)
     | AtLock i \<Rightarrow> if dedupe_mu s = None then Some (moves p (AtLookup i) (s\<lparr>dedupe_mu := Some p\<rparr>)) else None
     | AtLookup i \<Rightarrow> Some (case index d i of Some h \<Rightarrow> moves p (AtMove i h) s | None \<Rightarrow> moves p (AtLen i) s)
     | AtMove i h \<Rightarrow> Some (moves p (AtUnlock i True) (with_dedupe (d\<lparr>order := MoveToBack (order d) h\<rparr>) s))
     | AtLen i \<Rightarrow> Some (case order d of
           [] \<Rightarrow> moves p (AtPush i) s
         | front # _ \<Rightarrow> if int (length (order d)) \<ge> capacity d then moves p (AtDelete i front) s else moves p (AtPush i) s)
     | AtDelete i f \<Rightarrow> Some (moves p (AtRemove i f) (with_dedupe (d\<lparr>index := (index d)(snd f := None)\<rparr>) s))
     | AtRemove i f \<Rightarrow> Some (moves p (AtPush i) (with_dedupe (d\<lparr>order := filter (\<lambda>x. fst x \<noteq> fst f) (order d)\<rparr>) s))
     | AtPush i \<Rightarrow> Some (moves p (AtIndex i (next_handle d))
         (with_dedupe (d\<lparr>order := order d @ [(next_handle d, i)], next_handle := next_handle d + 1\<rparr>) s))
     | AtIndex i h \<Rightarrow> Some (moves p (AtUnlock i False) (with_dedupe (d\<lparr>index := (index d)(i \<mapsto> h)\<rparr>) s))
     | AtUnlock i b \<Rightarrow> Some (moves p Outside (s\<lparr>dedupe_mu := None, answered := answered s @ [(i, b)]\<rparr>)))"

lemma go_on_step:
  assumes "go_on (p, i) s = Some s'"
  shows "dedupe_step p s s'"
proof (cases "call_at s p")
  case (AtLookup i)
  with assms hit [OF this] miss [OF this] show ?thesis by (cases "index (dedupe s) i") (simp_all add: Let_def)
next
  case (AtLen i)
  with assms full [OF this] room [OF this] show ?thesis by (cases "order (dedupe s)") (simp_all add: Let_def split: if_splits)
next
  case Outside
  with assms call [OF this, of i] show ?thesis by (simp add: Let_def)
next
  case (AtLock i)
  with assms lock [OF this] show ?thesis by (simp add: Let_def split: if_splits)
next
  case (AtMove i h)
  with assms move [OF this refl] show ?thesis by (simp add: Let_def)
next
  case (AtDelete i f)
  with assms delete [OF this refl] show ?thesis by (simp add: Let_def)
next
  case (AtRemove i f)
  with assms remove [OF this refl] show ?thesis by (simp add: Let_def)
next
  case (AtPush i)
  with assms push [OF this refl] show ?thesis by (simp add: Let_def)
next
  case (AtIndex i h)
  with assms index [OF this refl] show ?thesis by (simp add: Let_def)
next
  case (AtUnlock i b)
  with assms unlock [OF this] show ?thesis by (simp add: Let_def)
qed

primrec runs_on :: "(goroutine \<times> string) list \<Rightarrow> dedupe_calls \<Rightarrow> dedupe_calls option" where
  "runs_on [] s = Some s"
| "runs_on (x # xs) s = Option.bind (go_on x s) (runs_on xs)"

lemma runs_on_reachable: "dedupe_reachable c s \<Longrightarrow> runs_on xs s = Some s' \<Longrightarrow> dedupe_reachable c s'"
proof (induction xs arbitrary: s)
  case (Cons x xs)
  then obtain t where "go_on x s = Some t" "runs_on xs t = Some s'" by (auto simp: bind_eq_Some_conv)
  moreover have "dedupe_reachable c t"
    using Cons.prems(1) go_on_step [of "fst x" "snd x" s t] \<open>go_on x s = Some t\<close> by (auto intro: more)
  ultimately show ?case using Cons.IH by blast
qed simp

text \<open>Two goroutines with the same event: the second comes while the first has the mutex.\<close>

definition two_deliveries :: "(goroutine \<times> string) list" where
  "two_deliveries = map (\<lambda>p. (p, ''evt_1'')) [0, 0, 0, 1, 0, 0, 0, 0, 1, 1, 1, 1]"

theorem concurrent_calls_in_turn_witness:
  "\<exists>s. dedupe_reachable 2 s \<and> answered s = [(''evt_1'', False), (''evt_1'', True)] \<and>
     ''evt_1'' \<in> set (last_n 2 (remdups [''evt_1''])) \<and> length (order (dedupe s)) \<le> 2"
proof -
  let ?start = "\<lparr>dedupe = NewMemoryDeduper 2, dedupe_mu = None, call_at = (\<lambda>_. Outside), answered = []\<rparr>"
  have "map_option answered (runs_on two_deliveries ?start) = Some [(''evt_1'', False), (''evt_1'', True)]"
    by code_simp
  then obtain s where s: "runs_on two_deliveries ?start = Some s" "answered s = [(''evt_1'', False), (''evt_1'', True)]"
    by auto
  then have reach: "dedupe_reachable 2 s" using runs_on_reachable [OF start] by blast
  note facts = concurrent_calls_in_turn [OF reach]
  have "''evt_1'' \<in> set (last_n 2 (remdups [''evt_1'']))"
    using facts [THEN conjunct1, THEN spec, of 1] s(2) by simp
  moreover have "length (order (dedupe s)) \<le> 2" using facts by simp
  ultimately  show ?thesis using reach s(2) by blast
qed

end
