(* ===== verification/Resolver.thy ===== *)
theory Resolver
  imports Interfaces Samples
begin

text \<open>
  \<open>internal/stripe/resolver.go\<close>: the configuration a reconcile or a webhook request works with,
  read from the \<open>StripeProviderConfig\<close> and the process environment on every use.
\<close>

record resolved_config =
  rc_ProviderConfigName :: string
  rc_PublishableKey :: string
  rc_SecretKey :: string
  rc_WebhookSecret :: string
  rc_APIVersion :: string

definition SecretKeyEnv :: string where
  "SecretKeyEnv = ''STRIPE_SECRET_KEY''"

definition WebhookSecretEnv :: string where
  "WebhookSecretEnv = ''STRIPE_WEBHOOK_SECRET''"

definition ResolveConfig :: "'w env \<Rightarrow> string \<Rightarrow> ('w, go_error + resolved_config) prog" where
  "ResolveConfig E n = do {
     r \<leftarrow> ask (get_cfg (kube E) n);
     case r of
       Inl e \<Rightarrow> ret (Inl (WrapError (''getting StripeProviderConfig '' @ quoted n) e))
     | Inr cfg \<Rightarrow> do {
         sec \<leftarrow> ask (getenv (os E) SecretKeyEnv);
         if sec = '''' then ret (Inl (NewError (SecretKeyEnv @
           '' environment variable is empty: Stripe SDK calls cannot be authenticated'')))
         else do {
           wh \<leftarrow> ask (getenv (os E) WebhookSecretEnv);
           if wh = '''' then ret (Inl (NewError (WebhookSecretEnv @
             '' environment variable is empty: incoming Stripe webhooks cannot be verified'')))
           else if cfg_PublishableKey cfg = ''''
           then ret (Inl (NewError ''StripeProviderConfig.spec.publishableKey is empty''))
           else ret (Inr \<lparr>rc_ProviderConfigName = Name (cfg_meta cfg),
             rc_PublishableKey = cfg_PublishableKey cfg, rc_SecretKey = sec,
             rc_WebhookSecret = wh, rc_APIVersion = cfg_APIVersion cfg\<rparr>)
         }
       }
   }"

text \<open>\<open>NewClient\<close> of \<open>client.go\<close>: the SDK for the resolved secret key.\<close>

definition NewClient :: "'w env \<Rightarrow> resolved_config \<Rightarrow> 'w stripe_api" where
  "NewClient E cfg = sdk E (rc_SecretKey cfg)"

lemma ResolveConfig_emits [effect_rules]: "emits P (ResolveConfig E n)"
  unfolding ResolveConfig_def by (intro effect_rules)

text \<open>
  A configuration is resolved only when it is complete: its secret key, webhook secret
  and publishable key are all non-empty, so no client is built without a key and no webhook is
  verified against an empty secret; and resolving changes nothing.
\<close>

lemma ResolveConfig_complete:
  assumes "run_state (ResolveConfig E n) s = (Inr cfg, s')"
  shows "rc_SecretKey cfg \<noteq> '''' \<and> rc_WebhookSecret cfg \<noteq> '''' \<and> rc_PublishableKey cfg \<noteq> '''' \<and>
    trace s' = trace s"
  using assms by (auto simp: ResolveConfig_def split: prod.splits sum.splits if_splits)

lemma ResolveConfig_complete_witness:
  "\<exists>cfg. fst (run_state (ResolveConfig (sample_env\<lparr>kube := sample_kube\<lparr>get_cfg := \<lambda>_. answer sample_cfg\<rparr>\<rparr>)
     ''default'') (st0 ())) = Inr cfg \<and> rc_SecretKey cfg \<noteq> ''''"
proof -
  let ?E = "sample_env\<lparr>kube := sample_kube\<lparr>get_cfg := \<lambda>_. answer sample_cfg\<rparr>\<rparr>"
  obtain cfg s' where run: "run_state (ResolveConfig ?E ''default'') (st0 ()) = (Inr cfg, s')"
    by (simp add: ResolveConfig_def sample_defs)
  then show ?thesis using ResolveConfig_complete [OF run] by auto
qed

end
