(* ===== verification/CustomerLookup.thy ===== *)
theory CustomerLookup
  imports StripeClient
begin

text \<open>
  What both reconcilers derive from a \<open>BillingAccount\<close> and the cluster before they call Stripe:
  \<open>internal/controller/customer_id_lookup.go\<close>, with \<open>customerDetailsFromBillingAccount\<close>
  (\<open>stripepaymentmethod_controller.go\<close>), the invoice fields
  (\<open>billingaccount_controller.go\<close>) and \<open>isNamespaceTerminatingForbidden\<close>
  (\<open>paymentmethod_watcher.go\<close>).
\<close>

section \<open>From the BillingAccount\<close>

definition hasInvoiceArrangement :: "billing_account \<Rightarrow> bool" where
  "hasInvoiceArrangement ba =
     (case ba_PaymentArrangement ba of
        None \<Rightarrow> False
      | Some arr \<Rightarrow> arr_Type arr = ArrangementInvoice)"

definition invoiceFields :: "billing_account \<Rightarrow> invoice_field list" where
  "invoiceFields ba =
     (if \<not> hasInvoiceArrangement ba then []
      else case Option.bind (ba_PaymentArrangement ba) arr_Invoice of
        None \<Rightarrow> []
      | Some terms \<Rightarrow>
          (let fields = [];
               fields = (if PurchaseOrderNumber terms \<noteq> ''''
                 then fields @ [\<lparr>if_Name = ''PO number'', if_Value = PurchaseOrderNumber terms\<rparr>]
                 else fields);
               fields = (if AgreementReference terms \<noteq> ''''
                 then fields @ [\<lparr>if_Name = ''Agreement'', if_Value = AgreementReference terms\<rparr>]
                 else fields)
           in fields))"

definition empty_details :: customer_details where
  "empty_details = \<lparr>dt_Name = '''', dt_Email = '''', dt_Address = None, dt_TaxIDs = [],
     dt_BusinessName = '''', dt_IndividualName = '''', dt_DefaultPaymentMethodID = '''',
     dt_Organizations = [], dt_Projects = [], dt_InvoiceFields = []\<rparr>"

definition customerDetailsFromBillingAccount :: "billing_account \<Rightarrow> customer_details" where
  "customerDetailsFromBillingAccount ba =
     (let d = (case ba_ContactInfo ba of
          None \<Rightarrow> empty_details
        | Some ci \<Rightarrow>
            (let d = empty_details\<lparr>
                   dt_Email := (case ci_InvoiceEmails ci of [] \<Rightarrow> ci_Email ci | e # _ \<Rightarrow> e),
                   dt_Name := (if ci_BusinessName ci \<noteq> '''' then ci_BusinessName ci else ci_Name ci),
                   dt_BusinessName := ci_BusinessName ci,
                   dt_IndividualName := ci_Name ci\<rparr>
             in case ci_Address ci of None \<Rightarrow> d
                | Some a \<Rightarrow> d\<lparr>dt_Address := Some \<lparr>ca_Country = ad_Country a, ca_Line1 = ad_Line1 a,
                    ca_Line2 = ad_Line2 a, ca_City = ad_City a, ca_State = ad_Region a,
                    ca_PostalCode = ad_PostalCode a\<rparr>\<rparr>));
          d = d\<lparr>dt_TaxIDs := map (\<lambda>t. \<lparr>tx_Type = tx_Type t, tx_Value = tx_Value t\<rparr>) (ba_TaxIDs ba)\<rparr>;
          d = d\<lparr>dt_InvoiceFields := invoiceFields ba\<rparr>
      in if Namespace (ba_meta ba) \<noteq> '''' then d\<lparr>dt_Organizations := [Namespace (ba_meta ba)]\<rparr> else d)"

section \<open>From the cluster\<close>

definition findDefaultStripePaymentMethodID ::
  "'w kube \<Rightarrow> billing_account \<Rightarrow> ('w, go_error + string) prog" where
  "findDefaultStripePaymentMethodID K ba =
     (case ba_DefaultPaymentMethodRef ba of
        None \<Rightarrow> ret (Inr '''')
      | Some ref \<Rightarrow>
          (if ref = '''' then ret (Inr '''')
           else do {
             r \<leftarrow> ask (get_spm K (Namespace (ba_meta ba), ref));
             case r of
               Inl e \<Rightarrow> (if IsNotFound e then ret (Inr '''')
                 else ret (Inl (WrapError (''getting StripePaymentMethod '' @ quoted ref
                   @ '' for default ref'') e)))
             | Inr spm \<Rightarrow> ret (Inr (StripePaymentMethodID (spm_status spm)))
           }))"

definition bound_to :: "billing_account \<Rightarrow> binding \<Rightarrow> bool" where
  "bound_to ba b =
     (if bab_BillingAccountRef b \<noteq> Name (ba_meta ba) then False
      else if bab_Phase b \<noteq> BindingPhaseUnset \<and> bab_Phase b \<noteq> BindingActive then False
      else if bab_ProjectRef b = '''' then False
      else True)"

definition listBoundProjectNames ::
  "'w kube \<Rightarrow> billing_account \<Rightarrow> ('w, go_error + string list) prog" where
  "listBoundProjectNames K ba = do {
     r \<leftarrow> ask (list_bindings K (Namespace (ba_meta ba)));
     case r of
       Inl e \<Rightarrow> ret (Inl (WrapError (''listing BillingAccountBindings in ''
         @ quoted (Namespace (ba_meta ba))) e))
     | Inr bs \<Rightarrow> ret (Inr (sort (map bab_ProjectRef (filter (bound_to ba) bs))))
   }"

definition buildCustomerDetails ::
  "'w kube \<Rightarrow> billing_account \<Rightarrow> ('w, go_error + customer_details) prog" where
  "buildCustomerDetails K ba = do {
     let d = customerDetailsFromBillingAccount ba;
     r \<leftarrow> findDefaultStripePaymentMethodID K ba;
     case r of
       Inl e \<Rightarrow> ret (Inl (WrapError ''looking up default Stripe PaymentMethod'' e))
     | Inr pmID \<Rightarrow> do {
         let d = d\<lparr>dt_DefaultPaymentMethodID := pmID\<rparr>;
         p \<leftarrow> listBoundProjectNames K ba;
         case p of
           Inl e \<Rightarrow> ret (Inl (WrapError (''listing bound projects for BillingAccount ''
             @ quoted (Name (ba_meta ba))) e))
         | Inr projects \<Rightarrow> ret (Inr (d\<lparr>dt_Projects := projects\<rparr>))
       }
   }"

fun account_spms :: "'w kube \<Rightarrow> string \<Rightarrow> spm list \<Rightarrow> ('w, spm list) prog" where
  "account_spms K account [] = ret []"
| "account_spms K account (spm # spms) =
     (if spm_PaymentMethodRef spm = '''' then account_spms K account spms
      else do {
        r \<leftarrow> ask (get_pm K (Namespace (spm_meta spm), spm_PaymentMethodRef spm));
        case r of
          Inl e \<Rightarrow> account_spms K account spms
        | Inr pm \<Rightarrow>
            (if pm_BillingAccountRef pm \<noteq> account then account_spms K account spms
             else do {
               rest \<leftarrow> account_spms K account spms;
               ret (spm # rest)
             })
      })"

definition accountStripePaymentMethods ::
  "'w kube \<Rightarrow> string \<Rightarrow> string \<Rightarrow> ('w, go_error + spm list) prog" where
  "accountStripePaymentMethods K ns account = do {
     r \<leftarrow> ask (list_spm K (Some ns));
     case r of
       Inl e \<Rightarrow> ret (Inl (WrapError (''listing StripePaymentMethods in '' @ quoted ns) e))
     | Inr spms \<Rightarrow> do {
         out \<leftarrow> account_spms K account spms;
         ret (Inr out)
       }
   }"

definition first_customer_id :: "spm list \<Rightarrow> string" where
  "first_customer_id spms =
     (case find (\<lambda>spm. StripeCustomerID (spm_status spm) \<noteq> '''') spms of
        None \<Rightarrow> ''''
      | Some spm \<Rightarrow> StripeCustomerID (spm_status spm))"

definition findExistingCustomerID ::
  "'w kube \<Rightarrow> string \<Rightarrow> string \<Rightarrow> ('w, go_error + string) prog" where
  "findExistingCustomerID K ns account = do {
     r \<leftarrow> accountStripePaymentMethods K ns account;
     case r of
       Inl e \<Rightarrow> ret (Inl e)
     | Inr spms \<Rightarrow> ret (Inr (first_customer_id spms))
   }"

definition isNamespaceTerminatingForbidden :: "go_error \<Rightarrow> bool" where
  "isNamespaceTerminatingForbidden e \<longleftrightarrow> IsForbidden e \<and> Contains (Error e) ''being terminated''"

section \<open>Facts\<close>

lemma findDefault_emits [effect_rules]: "emits P (findDefaultStripePaymentMethodID K ba)"
  unfolding findDefaultStripePaymentMethodID_def by (intro effect_rules)

lemma listBound_emits [effect_rules]: "emits P (listBoundProjectNames K ba)"
  unfolding listBoundProjectNames_def by (intro effect_rules)

lemma buildCustomerDetails_emits [effect_rules]: "emits P (buildCustomerDetails K ba)"
  unfolding buildCustomerDetails_def by (intro effect_rules)

lemma account_spms_emits [effect_rules]: "emits P (account_spms K account spms)"
proof (induction spms)
  case Nil
  then show ?case by (simp add: effect_rules)
next
  case (Cons spm spms)
  then show ?case unfolding account_spms.simps by (intro effect_rules)
qed

lemma accountSPMs_emits [effect_rules]: "emits P (accountStripePaymentMethods K ns account)"
  unfolding accountStripePaymentMethods_def by (intro effect_rules)

lemma findExistingCustomerID_emits [effect_rules]: "emits P (findExistingCustomerID K ns account)"
  unfolding findExistingCustomerID_def by (intro effect_rules)

text \<open>
  The projects printed on the customer are exactly the project names of the
  namespace's bindings that refer to the account and are active (or have no phase yet), sorted, with
  a name for each such binding; bindings of other accounts, inactive ones and nameless ones are out.
\<close>

lemma listBoundProjectNames_exact:
  assumes "list_bindings K (Namespace (ba_meta ba)) (world s) = (Inr bs, w)"
  shows "\<exists>names. run_state (listBoundProjectNames K ba) s = (Inr names, s\<lparr>world := w\<rparr>) \<and>
    sorted names \<and>
    mset names = mset (map bab_ProjectRef (filter (\<lambda>b. bab_BillingAccountRef b = Name (ba_meta ba) \<and>
      bab_Phase b \<in> {BindingPhaseUnset, BindingActive} \<and> bab_ProjectRef b \<noteq> '''') bs))"
proof -
  have same: "filter (bound_to ba) bs = filter (\<lambda>b. bab_BillingAccountRef b = Name (ba_meta ba) \<and>
      bab_Phase b \<in> {BindingPhaseUnset, BindingActive} \<and> bab_ProjectRef b \<noteq> '''') bs"
    by (rule filter_cong) (auto simp: bound_to_def)
  then show ?thesis using assms by (simp add: listBoundProjectNames_def)
qed

lemma account_spms_sound:
  assumes "run_state (account_spms K account spms) s = (out, s')" and "spm \<in> set out"
  shows "spm \<in> set spms \<and> (\<exists>w w' pm. get_pm K (Namespace (spm_meta spm), spm_PaymentMethodRef spm) w
    = (Inr pm, w') \<and> pm_BillingAccountRef pm = account)"
  using assms
proof (induction spms arbitrary: s out s')
  case Nil
  then show ?case by simp
next
  case (Cons x spms)
  then show ?case
    by (fastforce split: if_splits prod.splits sum.splits)
qed

text \<open>
  A customer ID reused from a sibling StripePaymentMethod comes from one that the
  namespace's list holds, that has the ID on its status, and whose parent PaymentMethod was just read
  and is bound to the same account: an account never adopts another account's customer this way.
\<close>

lemma findExistingCustomerID_sound:
  assumes "run_state (findExistingCustomerID K ns account) s = (Inr c, s')" and "c \<noteq> ''''"
  shows "\<exists>spms w1. list_spm K (Some ns) (world s) = (Inr spms, w1) \<and>
    (\<exists>spm \<in> set spms. StripeCustomerID (spm_status spm) = c \<and>
      (\<exists>w w' pm. get_pm K (Namespace (spm_meta spm), spm_PaymentMethodRef spm) w = (Inr pm, w') \<and>
         pm_BillingAccountRef pm = account))"
proof -
  obtain spms w1 out s1 where list: "list_spm K (Some ns) (world s) = (Inr spms, w1)"
    and out: "run_state (account_spms K account spms) (s\<lparr>world := w1\<rparr>) = (out, s1)"
    and c: "c = first_customer_id out"
    using assms(1)
    by (auto simp: findExistingCustomerID_def accountStripePaymentMethods_def
        split: prod.splits sum.splits)
  from c assms(2) obtain spm where "spm \<in> set out" "StripeCustomerID (spm_status spm) = c"
    by (auto simp: first_customer_id_def dest!: find_SomeD split: option.splits)
  then show ?thesis using list account_spms_sound [OF out] by blast
qed

section \<open>Witnesses\<close>

definition sample_binding :: "string \<Rightarrow> binding_phase \<Rightarrow> binding" where
  "sample_binding project ph = \<lparr>bab_meta = new_object_meta ''org'' project,
     bab_BillingAccountRef = ''acme'', bab_ProjectRef = project, bab_Phase = ph\<rparr>"

lemma listBoundProjectNames_exact_witness:
  "\<exists>names. fst (run_state (listBoundProjectNames (sample_kube\<lparr>list_bindings := \<lambda>_.
       answer [sample_binding ''web'' BindingActive, sample_binding ''api'' BindingPhaseUnset]\<rparr>) sample_ba)
       (st0 ())) = Inr names \<and> mset names = {#''web'', ''api''#}"
proof -
  let ?bs = "[sample_binding ''web'' BindingActive, sample_binding ''api'' BindingPhaseUnset]"
  have "list_bindings (sample_kube\<lparr>list_bindings := \<lambda>_. answer ?bs\<rparr>) (Namespace (ba_meta sample_ba))
      (world (st0 ())) = (Inr ?bs, ())"
    by (simp add: sample_defs)
  from listBoundProjectNames_exact [OF this] show ?thesis
    by (auto simp: sample_binding_def sample_ba_def new_object_meta_def)
qed

definition card_with_customer :: spm where
  "card_with_customer = sample_spm\<lparr>spm_status := empty_spm_status\<lparr>StripeCustomerID := ''cus_7''\<rparr>\<rparr>"

definition lookup_kube :: "unit kube" where
  "lookup_kube = sample_kube\<lparr>list_spm := \<lambda>_. answer [sample_spm, card_with_customer],
     get_pm := \<lambda>_. answer sample_pm\<rparr>"

lemma findExistingCustomerID_sound_witness:
  "\<exists>spms w1. list_spm lookup_kube (Some ''org'') () = (Inr spms, w1) \<and>
     (\<exists>spm \<in> set spms. StripeCustomerID (spm_status spm) = ''cus_7'')"
proof -
  have "run_state (findExistingCustomerID lookup_kube ''org'' ''acme'') (st0 ()) = (Inr ''cus_7'', st0 ())"
    by (simp add: findExistingCustomerID_def accountStripePaymentMethods_def first_customer_id_def
        lookup_kube_def card_with_customer_def sample_defs)
  from findExistingCustomerID_sound [OF this] show ?thesis by (auto simp: st0_def)
qed

end
