(* ===== verification/StripeCustomers.thy ===== *)
theory StripeCustomers
  imports CustomerLookup
begin

text \<open>
  \<open>internal/controller/stripe_customers.go\<close>: the one place where an account's Stripe customer is
  found or created and published on its \<open>StripeCustomer\<close>. \<open>Ensure\<close> is one call with the
  account's lock held (the lock itself is in \<open>EnsureLocks\<close>); it takes the customer ensurer as a
  parameter, as the code takes the interface \<open>stripeCustomerEnsurer\<close>. That interface is a locale
  here, and \<open>EnsureCustomer\<close> of the Stripe client its instance.
\<close>

section \<open>Operations\<close>

type_synonym 'w ensurer =
  "string \<Rightarrow> account_key \<Rightarrow> customer_details \<Rightarrow> ('w, string \<times> go_error option) prog"

definition new_stripe_customer :: "billing_account \<Rightarrow> stripe_customer" where
  "new_stripe_customer ba =
     \<lparr>sc_meta = new_object_meta (Namespace (ba_meta ba)) (Name (ba_meta ba)),
      sc_BillingAccountRef = Name (ba_meta ba), sc_status = empty_sc_status\<rparr>"

definition getOrCreate :: "'w env \<Rightarrow> billing_account \<Rightarrow> ('w, go_error + stripe_customer) prog" where
  "getOrCreate E ba = do {
     r \<leftarrow> ask (read_sc (kube E) (key_of (ba_meta ba)));
     case r of
       Inl e \<Rightarrow>
         (if IsNotFound e then
            (let sc = new_stripe_customer ba in
             case SetControllerReference (lib E) KindBillingAccount (ba_meta ba) (sc_meta sc) of
               Inl e \<Rightarrow> ret (Inl (WrapError (''setting owner on StripeCustomer ''
                 @ quoted (Name (ba_meta ba))) e))
             | Inr m \<Rightarrow> do {
                 let sc = sc\<lparr>sc_meta := m\<rparr>;
                 c \<leftarrow> act (create_sc (kube E) sc) (\<lambda>r. SCCreate sc (\<not> isl r));
                 case c of
                   Inl e \<Rightarrow>
                     (if isNamespaceTerminatingForbidden e
                      then ret (Inl (WrapError (''creating StripeCustomer ''
                        @ quoted (Name (ba_meta ba))) ErrNamespaceTerminating))
                      else ret (Inl (WrapError (''creating StripeCustomer ''
                        @ quoted (Name (ba_meta ba))) e)))
                 | Inr sc \<Rightarrow> ret (Inr sc)
               })
          else ret (Inl (WrapError (''getting StripeCustomer '' @ quoted (Name (ba_meta ba))) e)))
     | Inr sc \<Rightarrow>
         (let refuse = Inl (NewError (''StripeCustomer '' @ quoted (Name (ba_meta ba))
                @ '' is not owned by BillingAccount '' @ UID (ba_meta ba)
                @ ''; waiting for it to be garbage collected'')) in
          case GetControllerOf (lib E) (sc_meta sc) of
            None \<Rightarrow> ret refuse
          | Some owner \<Rightarrow> (if or_UID owner \<noteq> UID (ba_meta ba) then ret refuse else ret (Inr sc)))
   }"

text \<open>The status \<open>patchStatus\<close> writes, and \<open>patchStatus\<close> itself.\<close>

definition synced_status ::
  "lib \<Rightarrow> stripe_customer \<Rightarrow> string \<Rightarrow> condition \<Rightarrow> condition option \<Rightarrow> sc_status" where
  "synced_status L sc customerID ready taxIDs =
     (let st = (sc_status sc)\<lparr>sc_StripeCustomerID := customerID\<rparr>;
          st = st\<lparr>sc_Conditions := SetStatusCondition L (sc_Conditions st)
                 (ready\<lparr>c_ObservedGeneration := Generation (sc_meta sc)\<rparr>)\<rparr>;
          st = (case taxIDs of None \<Rightarrow> st
                | Some c \<Rightarrow> st\<lparr>sc_Conditions := SetStatusCondition L (sc_Conditions st)
                    (c\<lparr>c_ObservedGeneration := Generation (sc_meta sc)\<rparr>)\<rparr>)
      in st\<lparr>sc_ObservedGeneration := Generation (sc_meta sc)\<rparr>)"

definition patchStatus ::
  "'w env \<Rightarrow> stripe_customer \<Rightarrow> string \<Rightarrow> condition \<Rightarrow> condition option \<Rightarrow> ('w, go_error option) prog" where
  "patchStatus E sc customerID ready taxIDs =
     (let sc' = sc\<lparr>sc_status := synced_status (lib E) sc customerID ready taxIDs\<rparr> in
      if sc_status sc = sc_status sc' then ret None
      else do {
        r \<leftarrow> act (patch_sc_status (kube E) sc sc') (\<lambda>r. SCStatusPatch sc' (\<not> isl r));
        case r of
          Inl e \<Rightarrow> ret (Some (WrapError (''patching StripeCustomer ''
            @ quoted (Name (sc_meta sc)) @ '' status'') e))
        | Inr _ \<Rightarrow> ret None
      })"

definition ready_failed :: "go_error \<Rightarrow> condition" where
  "ready_failed e = \<lparr>c_Type = StripeCustomerConditionReady, c_Status = ConditionFalse,
     c_ObservedGeneration = 0, c_Reason = ''StripeError'',
     c_Message = ''Syncing the Stripe customer failed: '' @ Error e\<rparr>"

definition ready_synced :: "string \<Rightarrow> condition" where
  "ready_synced customerID = \<lparr>c_Type = StripeCustomerConditionReady, c_Status = ConditionTrue,
     c_ObservedGeneration = 0, c_Reason = ''CustomerSynced'',
     c_Message = ''Stripe customer '' @ customerID @ '' is in sync with the BillingAccount.''\<rparr>"

definition tax_ids_condition :: "go_error option \<Rightarrow> condition" where
  "tax_ids_condition taxErr =
     (case taxErr of
        None \<Rightarrow> \<lparr>c_Type = StripeCustomerConditionTaxIDsApplied, c_Status = ConditionTrue,
          c_ObservedGeneration = 0, c_Reason = ''Synced'',
          c_Message = ''Tax IDs reconciled against Stripe customer.''\<rparr>
      | Some u \<Rightarrow> \<lparr>c_Type = StripeCustomerConditionTaxIDsApplied, c_Status = ConditionFalse,
          c_ObservedGeneration = 0, c_Reason = ''StripeRejected'',
          c_Message = ''Stripe rejected one or more tax IDs on the customer; correct the values on the BillingAccount: ''
            @ Error u\<rparr>)"

text \<open>The rest of \<open>Ensure\<close> after the ensurer's answer: failed, or synced but for the tax IDs.\<close>

definition record_failure ::
  "'w env \<Rightarrow> stripe_customer \<Rightarrow> string \<Rightarrow> go_error \<Rightarrow> ('w, string \<times> go_error option) prog" where
  "record_failure E sc existingID e = do {
     p \<leftarrow> patchStatus E sc existingID (ready_failed e) None;
     case p of
       Some statusErr \<Rightarrow> ret ('''', Some (JoinError [e, statusErr]))
     | None \<Rightarrow> ret ('''', Some e)
   }"

definition record_synced ::
  "'w env \<Rightarrow> stripe_customer \<Rightarrow> string \<Rightarrow> go_error option \<Rightarrow> go_error option
    \<Rightarrow> ('w, string \<times> go_error option) prog" where
  "record_synced E sc customerID ensureErr taxErr = do {
     p \<leftarrow> patchStatus E sc customerID (ready_synced customerID) (Some (tax_ids_condition taxErr));
     case p of
       Some e \<Rightarrow> ret ('''', Some e)
     | None \<Rightarrow> ret (customerID, ensureErr)
   }"

definition account_key_of :: "billing_account \<Rightarrow> account_key" where
  "account_key_of ba = \<lparr>ak_Namespace = Namespace (ba_meta ba), ak_Name = Name (ba_meta ba),
     ak_UID = UID (ba_meta ba)\<rparr>"

text \<open>\<open>Ensure\<close> from the point where the customer ID to work with is known.\<close>

definition sync_customer ::
  "'w env \<Rightarrow> 'w ensurer \<Rightarrow> billing_account \<Rightarrow> stripe_customer \<Rightarrow> string
    \<Rightarrow> ('w, string \<times> go_error option) prog" where
  "sync_customer E ensure ba sc existingID = do {
     b \<leftarrow> buildCustomerDetails (kube E) ba;
     case b of
       Inl e \<Rightarrow> ret ('''', Some e)
     | Inr details \<Rightarrow> do {
         c \<leftarrow> ensure existingID (account_key_of ba) details;
         case c of (customerID, ensureErr) \<Rightarrow>
           (case ensureErr of
              None \<Rightarrow> record_synced E sc customerID None None
            | Some e \<Rightarrow>
                (case As_TaxIDError e of
                   None \<Rightarrow> record_failure E sc existingID e
                 | Some u \<Rightarrow> record_synced E sc customerID (Some e) (Some u)))
       }
   }"

definition known_customer_id ::
  "'w env \<Rightarrow> billing_account \<Rightarrow> stripe_customer \<Rightarrow> ('w, go_error + string) prog" where
  "known_customer_id E ba sc =
     (if sc_StripeCustomerID (sc_status sc) = '''' then do {
        f \<leftarrow> findExistingCustomerID (kube E) (Namespace (ba_meta ba)) (Name (ba_meta ba));
        case f of
          Inl e \<Rightarrow> ret (Inl (WrapError (''looking up existing Stripe customer for BillingAccount ''
            @ quoted (Name (ba_meta ba))) e))
        | Inr i \<Rightarrow> ret (Inr i)
      }
      else ret (Inr (sc_StripeCustomerID (sc_status sc))))"

definition Ensure ::
  "'w env \<Rightarrow> 'w ensurer \<Rightarrow> billing_account \<Rightarrow> ('w, string \<times> go_error option) prog" where
  "Ensure E ensure ba = do {
     g \<leftarrow> getOrCreate E ba;
     case g of
       Inl e \<Rightarrow> ret ('''', Some e)
     | Inr sc \<Rightarrow> do {
         x \<leftarrow> known_customer_id E ba sc;
         case x of
           Inl e \<Rightarrow> ret ('''', Some e)
         | Inr existingID \<Rightarrow> sync_customer E ensure ba sc existingID
       }
   }"

section \<open>Facts\<close>

definition is_sc_effect :: "effect \<Rightarrow> bool" where
  "is_sc_effect e \<longleftrightarrow> (\<exists>sc ok. e = SCCreate sc ok \<or> e = SCStatusPatch sc ok)"

lemma is_sc_effect_simps [simp]:
  "is_sc_effect (SCCreate sc ok)" "is_sc_effect (SCStatusPatch sc ok)"
  "\<not> is_sc_effect (CustomersNew p r)" "\<not> is_sc_effect (CustomersUpdate c p ok)"
  by (auto simp: is_sc_effect_def)

lemma is_sc_effect_creates [simp]: "is_sc_effect e \<Longrightarrow> \<not> creates_customer e"
  by (auto simp: is_sc_effect_def creates_customer_def)

lemma getOrCreate_emits: "emits (\<lambda>e. \<exists>sc ok. e = SCCreate sc ok) (getOrCreate E ba)"
  unfolding getOrCreate_def by (intro effect_rules) auto

lemma patchStatus_emits: "emits (\<lambda>e. \<exists>sc ok. e = SCStatusPatch sc ok) (patchStatus E sc c r t)"
  unfolding patchStatus_def by (intro effect_rules) auto

lemma record_failure_emits: "emits (\<lambda>e. \<exists>sc ok. e = SCStatusPatch sc ok) (record_failure E sc c e)"
  unfolding record_failure_def by (intro effect_rules patchStatus_emits)

lemma record_synced_emits: "emits (\<lambda>e. \<exists>sc ok. e = SCStatusPatch sc ok) (record_synced E sc c e t)"
  unfolding record_synced_def by (intro effect_rules patchStatus_emits)

text \<open>
  Errors of the Kubernetes client and helpers wrap none of this program's errors: a documented
  library error is never a \<open>TaxIDError\<close>.
\<close>

definition foreign_errors :: "('w \<Rightarrow> (go_error + 'a) \<times> 'w) \<Rightarrow> bool" where
  "foreign_errors f \<longleftrightarrow> (\<forall>w e w'. f w = (Inl e, w') \<longrightarrow> foreign e)"

definition kube_errors_ok :: "'w env \<Rightarrow> bool" where
  "kube_errors_ok E \<longleftrightarrow>
     (\<forall>k. foreign_errors (read_sc (kube E) k)) \<and> (\<forall>sc. foreign_errors (create_sc (kube E) sc)) \<and>
     (\<forall>b sc. foreign_errors (patch_sc_status (kube E) b sc)) \<and>
     (\<forall>ns. foreign_errors (list_spm (kube E) ns)) \<and> (\<forall>k. foreign_errors (get_spm (kube E) k)) \<and>
     (\<forall>ns. foreign_errors (list_bindings (kube E) ns)) \<and>
     (\<forall>k owner m e. SetControllerReference (lib E) k owner m = Inl e \<longrightarrow> foreign e)"

abbreviation plain_error :: "go_error + 'a \<Rightarrow> bool" where
  "plain_error r \<equiv> (case r of Inl e \<Rightarrow> As_TaxIDError e = None | Inr _ \<Rightarrow> True)"

lemma foreign_errorsD: "foreign_errors f \<Longrightarrow> f w = (Inl e, w') \<Longrightarrow> As_TaxIDError e = None"
  unfolding foreign_errors_def by (metis foreign_plain(1))

lemma plain_ask: "foreign_errors f \<Longrightarrow> run_state (ask f) s = (Inl e, s') \<Longrightarrow> As_TaxIDError e = None"
  by (auto split: prod.splits dest: foreign_errorsD)

lemma plain_act: "foreign_errors f \<Longrightarrow> run_state (act f ev) s = (Inl e, s') \<Longrightarrow> As_TaxIDError e = None"
  by (auto split: prod.splits dest: foreign_errorsD)

lemma kube_plain:
  assumes "kube_errors_ok E"
  shows "run_state (ask (read_sc (kube E) k)) s = (Inl e, s') \<Longrightarrow> As_TaxIDError e = None"
    and "run_state (act (create_sc (kube E) sc) ev) s = (Inl e, s') \<Longrightarrow> As_TaxIDError e = None"
    and "run_state (act (patch_sc_status (kube E) sc sc') ev) s = (Inl e, s') \<Longrightarrow> As_TaxIDError e = None"
    and "run_state (ask (list_spm (kube E) ns)) s = (Inl e, s') \<Longrightarrow> As_TaxIDError e = None"
    and "run_state (ask (get_spm (kube E) k)) s = (Inl e, s') \<Longrightarrow> As_TaxIDError e = None"
    and "run_state (ask (list_bindings (kube E) n)) s = (Inl e, s') \<Longrightarrow> As_TaxIDError e = None"
    and "SetControllerReference (lib E) kd owner m = Inl e \<Longrightarrow> As_TaxIDError e = None"
  using assms unfolding kube_errors_ok_def by (metis plain_ask plain_act foreign_plain(1))+

lemma getOrCreate_plain: "kube_errors_ok E \<Longrightarrow> answers plain_error (getOrCreate E ba)"
  unfolding getOrCreate_def
  by (intro answer_rules) (auto simp del: run_ask run_act dest: kube_plain)

lemma findDefault_plain:
  "kube_errors_ok E \<Longrightarrow> answers plain_error (findDefaultStripePaymentMethodID (kube E) ba)"
  unfolding findDefaultStripePaymentMethodID_def
  by (intro answer_rules) (auto simp del: run_ask run_act dest: kube_plain)

lemma listBound_plain: "kube_errors_ok E \<Longrightarrow> answers plain_error (listBoundProjectNames (kube E) ba)"
  unfolding listBoundProjectNames_def
  by (intro answer_rules) (auto simp del: run_ask run_act dest: kube_plain)

lemma buildCustomerDetails_plain:
  "kube_errors_ok E \<Longrightarrow> answers plain_error (buildCustomerDetails (kube E) ba)"
  unfolding buildCustomerDetails_def
  by (intro answer_rules) (auto dest: answersD [OF findDefault_plain] answersD [OF listBound_plain])

lemma accountSPMs_plain:
  "kube_errors_ok E \<Longrightarrow> answers plain_error (accountStripePaymentMethods (kube E) ns account)"
  unfolding accountStripePaymentMethods_def
  by (intro answer_rules) (auto simp del: run_ask run_act dest: kube_plain)

lemma findExisting_plain:
  "kube_errors_ok E \<Longrightarrow> answers plain_error (findExistingCustomerID (kube E) ns account)"
  unfolding findExistingCustomerID_def
  by (intro answer_rules) (auto dest: answersD [OF accountSPMs_plain])

lemma known_customer_id_plain: "kube_errors_ok E \<Longrightarrow> answers plain_error (known_customer_id E ba sc)"
  unfolding known_customer_id_def
  by (intro answer_rules) (auto dest: answersD [OF findExisting_plain])

lemma patchStatus_error:
  assumes "kube_errors_ok E" and "run_state (patchStatus E sc c r t) s = (Some e, s')"
  shows "As_TaxIDError e = None"
proof -
  have "answers (\<lambda>x. \<forall>e. x = Some e \<longrightarrow> As_TaxIDError e = None) (patchStatus E sc c r t)"
    using assms(1) unfolding patchStatus_def
    by (intro answer_rules) (auto simp del: run_ask run_act dest: kube_plain)
  from answersD [OF this assms(2)] show ?thesis by simp
qed

lemma patchStatus_ok:
  assumes "run_state (patchStatus E sc c r t) s = (None, s')"
  shows "sc_status sc = synced_status (lib E) sc c r t \<and> s' = s \<or>
    trace s' = trace s @ [SCStatusPatch (sc\<lparr>sc_status := synced_status (lib E) sc c r t\<rparr>) True]"
  using assms by (auto simp: patchStatus_def Let_def split: prod.splits sum.splits if_splits)

text \<open>What is on the account's \<open>StripeCustomer\<close> when its status is \<open>st\<close>.\<close>

definition published :: "sc_status \<Rightarrow> string \<Rightarrow> bool \<Rightarrow> bool" where
  "published st customerID taxOK \<longleftrightarrow>
     sc_StripeCustomerID st = customerID \<and>
     (\<exists>c. find_condition (sc_Conditions st) StripeCustomerConditionReady = Some c \<and>
        c_Status c = ConditionTrue) \<and>
     (\<exists>c. find_condition (sc_Conditions st) StripeCustomerConditionTaxIDsApplied = Some c \<and>
        c_Status c = (if taxOK then ConditionTrue else ConditionFalse))"

lemma condition_types [simp]:
  "c_Type (ready_synced c) = StripeCustomerConditionReady"
  "c_Type (tax_ids_condition t) = StripeCustomerConditionTaxIDsApplied"
  "c_Status (ready_synced c) = ConditionTrue"
  "c_Status (tax_ids_condition t) = (if t = None then ConditionTrue else ConditionFalse)"
  by (simp_all add: ready_synced_def tax_ids_condition_def split: option.split)

lemma find_SetStatusCondition:
  "conditions_ok L \<Longrightarrow> find_condition (SetStatusCondition L cs c) t =
     (if t = c_Type c then Some c else find_condition cs t)"
  by (simp add: conditions_ok_def)

lemma synced_status_published:
  assumes "conditions_ok L"
  shows "published (synced_status L sc c (ready_synced c) (Some (tax_ids_condition t))) c (t = None)"
proof -
  have "StripeCustomerConditionReady \<noteq> StripeCustomerConditionTaxIDsApplied"
    by (simp add: StripeCustomerConditionReady_def StripeCustomerConditionTaxIDsApplied_def)
  then show ?thesis
    by (simp add: published_def synced_status_def Let_def find_SetStatusCondition [OF assms])
qed

abbreviation usable :: "go_error option \<Rightarrow> bool" where
  "usable err \<equiv> (case err of None \<Rightarrow> True | Some e \<Rightarrow> As_TaxIDError e \<noteq> None)"

lemma record_synced_usable:
  assumes "kube_errors_ok E" and "conditions_ok (lib E)"
    and "run_state (record_synced E sc customerID ensureErr t) s = ((c, err), s')" and "usable err"
  shows "c = customerID \<and> err = ensureErr \<and>
    (\<exists>st. published st customerID (t = None) \<and>
      (st = sc_status sc \<or> SCStatusPatch (sc\<lparr>sc_status := st\<rparr>) True \<in> set (trace s')))"
proof -
  let ?st = "synced_status (lib E) sc customerID (ready_synced customerID) (Some (tax_ids_condition t))"
  obtain p s1 where p: "run_state (patchStatus E sc customerID (ready_synced customerID)
      (Some (tax_ids_condition t))) s = (p, s1)" by fastforce
  show ?thesis
  proof (cases p)
    case None
    with p assms(3) have "c = customerID" "err = ensureErr" "s' = s1"
      by (simp_all add: record_synced_def)
    moreover have "?st = sc_status sc \<or> SCStatusPatch (sc\<lparr>sc_status := ?st\<rparr>) True \<in> set (trace s1)"
      using patchStatus_ok [OF p [unfolded None]] by auto
    ultimately show ?thesis using synced_status_published [OF assms(2)] by blast
  next
    case (Some e)
    with p assms(3) have "err = Some e" by (simp add: record_synced_def)
    moreover have "As_TaxIDError e = None"
      using patchStatus_error [OF assms(1)] p Some by blast
    ultimately show ?thesis using assms(4) by simp
  qed
qed

lemma record_failure_unusable:
  assumes "kube_errors_ok E" and "As_TaxIDError e = None"
    and "run_state (record_failure E sc existingID e) s = ((c, err), s')"
  shows "\<not> usable err"
  using assms patchStatus_error [OF assms(1)]
  by (auto simp: record_failure_def split: prod.splits option.splits)

lemma sync_customer_usable:
  assumes "kube_errors_ok E" and "conditions_ok (lib E)"
    and "run_state (sync_customer E ensure ba sc existingID) s = ((c, err), s')" and "usable err"
  shows "\<exists>st. published st c (err = None) \<and>
      (st = sc_status sc \<or> SCStatusPatch (sc\<lparr>sc_status := st\<rparr>) True \<in> set (trace s'))"
proof -
  obtain b s1 where b: "run_state (buildCustomerDetails (kube E) ba) s = (b, s1)" by fastforce
  show ?thesis
  proof (cases b)
    case (Inl e)
    with b assms(3,4) answersD [OF buildCustomerDetails_plain [OF assms(1)] b] show ?thesis
      by (auto simp: sync_customer_def)
  next
    case (Inr details)
    obtain customerID ensureErr s2 where c:
      "run_state (ensure existingID (account_key_of ba) details) s1 = ((customerID, ensureErr), s2)"
      by (metis prod.exhaust)
    show ?thesis
    proof (cases ensureErr)
      case None
      with b Inr c assms(3) have "run_state (record_synced E sc customerID None None) s2 = ((c, err), s')"
        by (simp add: sync_customer_def)
      from record_synced_usable [OF assms(1,2) this assms(4)] show ?thesis by auto
    next
      case (Some e)
      show ?thesis
      proof (cases "As_TaxIDError e")
        case None
        with Some b Inr c assms(3) have "run_state (record_failure E sc existingID e) s2 = ((c, err), s')"
          by (simp add: sync_customer_def)
        from record_failure_unusable [OF assms(1) None this] assms(4) show ?thesis by simp
      next
        case (Some u)
        with \<open>ensureErr = Some e\<close> b Inr c assms(3)
        have "run_state (record_synced E sc customerID (Some e) (Some u)) s2 = ((c, err), s')"
          by (simp add: sync_customer_def)
        from record_synced_usable [OF assms(1,2) this assms(4)] show ?thesis by auto
      qed
    qed
  qed
qed

text \<open>
  C8 (functional): whenever Ensure returns a usable customer ID (no error, or a tax ID error beside
  it), that ID is what the account's StripeCustomer publishes, with Ready true and TaxIDsApplied true
  exactly when there was no tax ID error: either the status patch that says so succeeded, or the
  status already said so.
\<close>

theorem Ensure_publishes:
  assumes "kube_errors_ok E" and "conditions_ok (lib E)"
    and run: "run_state (Ensure E ensure ba) s = ((c, err), s')" and "usable err"
  shows "\<exists>sc s1 st. run_state (getOrCreate E ba) s = (Inr sc, s1) \<and> published st c (err = None) \<and>
      (st = sc_status sc \<or> SCStatusPatch (sc\<lparr>sc_status := st\<rparr>) True \<in> set (trace s'))"
proof -
  obtain g s1 where g: "run_state (getOrCreate E ba) s = (g, s1)" by fastforce
  with run assms(4) answersD [OF getOrCreate_plain [OF assms(1)] g] obtain sc where sc: "g = Inr sc"
    by (cases g) (auto simp: Ensure_def)
  obtain x s2 where x: "run_state (known_customer_id E ba sc) s1 = (x, s2)" by fastforce
  with g sc run assms(4) answersD [OF known_customer_id_plain [OF assms(1)] x] obtain existingID
    where "x = Inr existingID" by (cases x) (auto simp: Ensure_def)
  with g sc x run have "run_state (sync_customer E ensure ba sc existingID) s2 = ((c, err), s')"
    by (simp add: Ensure_def)
  from sync_customer_usable [OF assms(1,2) this assms(4)] g sc show ?thesis by blast
qed

section \<open>The ensurer interface\<close>

locale customer_ensurer =
  fixes ensure :: "string \<Rightarrow> account_key \<Rightarrow> customer_details
    \<Rightarrow> (('w, effect) st, string \<times> go_error option) state"
  assumes known_id: "existing \<noteq> '''' \<Longrightarrow> fst (fst (run_state (ensure existing a d) s)) = existing"
    and known_calls: "existing \<noteq> '''' \<Longrightarrow> emits (\<lambda>e. \<not> creates_customer e) (ensure existing a d)"
    and stripe_only: "emits (\<lambda>e. \<not> is_sc_effect e) (ensure existing a d)"
begin

lemma sync_known:
  assumes "c \<noteq> ''''"
  shows "emits (\<lambda>e. \<not> creates_customer e \<and>
      (\<forall>sc' ok. e = SCStatusPatch sc' ok \<longrightarrow> sc_StripeCustomerID (sc_status sc') = c))
    (sync_customer E ensure ba sc c)"
proof -
  let ?P = "\<lambda>e. \<not> creates_customer e \<and>
      (\<forall>sc' ok. e = SCStatusPatch sc' ok \<longrightarrow> sc_StripeCustomerID (sc_status sc') = c)"
  have call: "emits ?P (ensure c a d)" for a d
  proof (rule emitsI)
    fix s
    have "list_all ?P (effects (ensure c a d) s)"
      using emits_effects [OF known_calls [OF assms], of a d s] emits_effects [OF stripe_only, of c a d s]
      by (auto simp: list_all_iff)
    with emits_trace [OF stripe_only, of c a d s]
    show "\<exists>es. trace (snd (run_state (ensure c a d) s)) = trace s @ es \<and> list_all ?P es" by blast
  qed
  have patch: "emits ?P (patchStatus E sc c r t)" for r t
    unfolding patchStatus_def
    by (intro effect_rules) (auto simp: creates_customer_def synced_status_def Let_def split: option.split)
  have rest: "emits ?P (record_synced E sc c e t)" "emits ?P (record_failure E sc c e')" for e t e'
    unfolding record_synced_def record_failure_def by (intro effect_rules patch)+
  have answer: "emits ?P (State_Monad.bind (ensure c a d) (\<lambda>x. case x of (customerID, ensureErr) \<Rightarrow>
       (case ensureErr of None \<Rightarrow> record_synced E sc customerID None None
        | Some e \<Rightarrow> (case As_TaxIDError e of None \<Rightarrow> record_failure E sc c e
             | Some u \<Rightarrow> record_synced E sc customerID (Some e) (Some u)))))" for a d
  proof (rule emits_bind_run [OF call], rule emits_prod)
    fix s x s' customerID err
    assume "run_state (ensure c a d) s = (x, s')" "x = (customerID, err)"
    then have "customerID = c" using known_id [OF assms, of a d s] by simp
    then show "emits ?P (case err of None \<Rightarrow> record_synced E sc customerID None None
        | Some e \<Rightarrow> (case As_TaxIDError e of None \<Rightarrow> record_failure E sc c e
             | Some u \<Rightarrow> record_synced E sc customerID (Some e) (Some u)))"
      by (simp only:) (intro emits_option rest)
  qed
  show ?thesis unfolding sync_customer_def by (intro effect_rules answer)
qed

lemma Ensure_known:
  assumes "run_state (getOrCreate E ba) s = (Inr sc, s1)"
    and "sc_StripeCustomerID (sc_status sc) = c" and "c \<noteq> ''''"
    and "e \<in> set (effects (Ensure E ensure ba) s)"
  shows "\<not> creates_customer e \<and>
    (\<forall>sc' ok. e = SCStatusPatch sc' ok \<longrightarrow> sc_StripeCustomerID (sc_status sc') = c)"
proof -
  have tr: "trace s1 = trace s @ effects (getOrCreate E ba) s"
    using emits_trace [OF getOrCreate_emits, of E ba s] assms(1) by (metis snd_conv)
  have run: "run_state (Ensure E ensure ba) s = run_state (sync_customer E ensure ba sc c) s1"
    using assms by (simp add: Ensure_def known_customer_id_def)
  have "trace (snd (run_state (Ensure E ensure ba) s)) =
      trace s @ effects (getOrCreate E ba) s @ effects (sync_customer E ensure ba sc c) s1"
    using tr emits_trace [OF sync_known [OF assms(3)], of E ba sc s1] unfolding run by simp
  then have "effects (Ensure E ensure ba) s =
      effects (getOrCreate E ba) s @ effects (sync_customer E ensure ba sc c) s1"
    by (rule effects_eqI)
  with assms(4) emitsD [OF sync_known [OF assms(3)]] emitsD [OF getOrCreate_emits]
  show ?thesis by (fastforce simp: creates_customer_def)
qed

end

text \<open>The Stripe client is a customer ensurer.\<close>

lemma EnsureCustomer_stripe_only: "emits (\<lambda>e. \<not> is_sc_effect e) (EnsureCustomer S rt existing a d)"
proof -
  have tax: "emits (\<lambda>e. \<not> is_sc_effect e) (with_tax_ids S rt c txs)" for c txs
    by (rule emits_mono [OF with_tax_ids_emits]) (auto simp: is_tax_effect_def is_sc_effect_def)
  show ?thesis unfolding EnsureCustomer_def by (intro effect_rules tax) simp_all
qed

lemma EnsureCustomer_known_calls:
  assumes "existing \<noteq> ''''"
  shows "emits (\<lambda>e. \<not> creates_customer e) (EnsureCustomer S rt existing a d)"
proof (rule emitsI)
  fix s
  have "list_all (\<lambda>e. \<not> creates_customer e) (effects (EnsureCustomer S rt existing a d) s)"
    using EnsureCustomer_existing_calls [OF assms, of S rt a d s]
    by (auto simp: list_all_iff dest: creates_customer_simps(2))
  then show "\<exists>es. trace (snd (run_state (EnsureCustomer S rt existing a d) s)) = trace s @ es \<and>
      list_all (\<lambda>e. \<not> creates_customer e) es"
    using emits_trace [OF EnsureCustomer_stripe_only, of S rt existing a d s] by blast
qed

interpretation stripe_client: customer_ensurer "EnsureCustomer S rt" for S rt
  by unfold_locales
    (simp_all add: EnsureCustomer_existing_calls EnsureCustomer_known_calls EnsureCustomer_stripe_only)

section \<open>Properties\<close>

text \<open>
  Once the account's StripeCustomer publishes a customer ID, Ensure over the Stripe
  client never creates another customer, and every status it then writes keeps that ID, on success
  and on every failure.
\<close>

lemma Ensure_keeps_customer:
  assumes "run_state (getOrCreate E ba) s = (Inr sc, s1)"
    and "sc_StripeCustomerID (sc_status sc) = c" and "c \<noteq> ''''"
    and "e \<in> set (effects (Ensure E (EnsureCustomer S rt) ba) s)"
  shows "\<not> creates_customer e \<and>
    (\<forall>sc' ok. e = SCStatusPatch sc' ok \<longrightarrow> sc_StripeCustomerID (sc_status sc') = c)"
  using assms by (rule stripe_client.Ensure_known)

text \<open>
  A StripeCustomer of the account's name that another object controls (one left behind
  by a deleted account of that name, or with no controller at all) is refused: Ensure returns an
  error without any effect, on the cluster or in Stripe.
\<close>

lemma Ensure_refuses_unowned:
  assumes "read_sc (kube E) (key_of (ba_meta ba)) (world s) = (Inr sc, w)"
    and "\<forall>owner. GetControllerOf (lib E) (sc_meta sc) = Some owner \<longrightarrow> or_UID owner \<noteq> UID (ba_meta ba)"
  shows "\<exists>msg. run_state (Ensure E ensure ba) s = (('''', Some (NewError msg)), s\<lparr>world := w\<rparr>)"
  using assms by (auto simp: Ensure_def getOrCreate_def Let_def split: option.split)

text \<open>
  An account without a StripeCustomer gets one before anything is done in Stripe: the
  first effect of Ensure is the creation of the owned StripeCustomer, and when that fails it is the
  only one. A refusal because the namespace is being terminated is returned as that error, so that
  the caller stops retrying.
\<close>

lemma Ensure_creates_object_first:
  assumes "read_sc (kube E) (key_of (ba_meta ba)) (world s) = (Inl e0, w)" and "IsNotFound e0"
    and "SetControllerReference (lib E) KindBillingAccount (ba_meta ba)
      (sc_meta (new_stripe_customer ba)) = Inr m"
    and "create_sc (kube E) ((new_stripe_customer ba)\<lparr>sc_meta := m\<rparr>) w = (Inl e, w')"
  shows "\<exists>err. run_state (Ensure E ensure ba) s =
      (('''', Some err), s\<lparr>world := w', trace := trace s @
         [SCCreate ((new_stripe_customer ba)\<lparr>sc_meta := m\<rparr>) False]\<rparr>) \<and>
    (isNamespaceTerminatingForbidden e \<longrightarrow> Is_NamespaceTerminating err)"
  using assms by (auto simp: Ensure_def getOrCreate_def Let_def)

section \<open>Witnesses\<close>

definition owned_sc :: stripe_customer where
  "owned_sc = (new_stripe_customer sample_ba)\<lparr>
     sc_meta := (new_object_meta ''org'' ''acme'')\<lparr>OwnerReferences :=
       [owner_reference KindBillingAccount (ba_meta sample_ba)]\<rparr>,
     sc_status := empty_sc_status\<lparr>sc_StripeCustomerID := ''cus_1''\<rparr>\<rparr>"

definition updating_stripe :: "unit stripe_api" where
  "updating_stripe = sample_stripe\<lparr>customers_update := \<lambda>_ _. answer sample_customer,
     setup_intents_new := \<lambda>_. answer \<lparr>ssi_ID = ''seti_1'', ssi_ClientSecret = ''secret'', ssi_Status = ''''\<rparr>\<rparr>"

definition owned_env :: "unit env" where
  "owned_env = sample_env\<lparr>
     kube := sample_kube\<lparr>read_sc := \<lambda>_. answer owned_sc, get_cfg := \<lambda>_. answer sample_cfg,
       get_spm := \<lambda>_. answer (live_spm empty_spm_status), get_pm := \<lambda>_. answer sample_pm,
       get_ba := \<lambda>_. answer sample_ba\<rparr>,
     sdk := \<lambda>_. updating_stripe\<rparr>"

lemmas owned_defs = owned_sc_def owned_env_def new_stripe_customer_def empty_sc_status_def

lemma owned_getOrCreate: "run_state (getOrCreate owned_env sample_ba) s = (Inr owned_sc, s\<lparr>world := ()\<rparr>)"
  by (simp add: getOrCreate_def owned_defs sample_defs)

lemma owned_env_errors: "kube_errors_ok owned_env"
  by (simp add: kube_errors_ok_def foreign_errors_def owned_env_def sample_defs)

lemma owned_env_lib: "conditions_ok (lib owned_env)"
  using sample_lib_conditions by (simp add: owned_env_def sample_env_def)


text \<open>A world of one state.\<close>

lemma owned_st [simp]: "s\<lparr>world := ()\<rparr> = (s :: (unit, 'e) st)"
  by (cases s) simp

lemma owned_details: "run_state (buildCustomerDetails (kube owned_env) sample_ba) s =
   (Inr (customerDetailsFromBillingAccount sample_ba), s\<lparr>world := ()\<rparr>)"
  by (simp add: buildCustomerDetails_def findDefaultStripePaymentMethodID_def listBoundProjectNames_def
      customerDetailsFromBillingAccount_def empty_details_def owned_env_def sample_defs)

lemma owned_run:
  fixes s :: "(unit, effect) st"
  shows "run_state (Ensure owned_env ensure sample_ba) s =
   run_state (State_Monad.bind
     (ensure ''cus_1'' (account_key_of sample_ba) (customerDetailsFromBillingAccount sample_ba))
     (\<lambda>c. case c of (customerID, ensureErr) \<Rightarrow>
       (case ensureErr of None \<Rightarrow> record_synced owned_env owned_sc customerID None None
        | Some e \<Rightarrow> (case As_TaxIDError e of
             None \<Rightarrow> record_failure owned_env owned_sc ''cus_1'' e
           | Some u \<Rightarrow> record_synced owned_env owned_sc customerID (Some e) (Some u))))) s"
proof -
  have "run_state (known_customer_id owned_env sample_ba owned_sc) s = (Inr ''cus_1'', s)"
    by (simp add: known_customer_id_def owned_defs)
  moreover have "run_state (getOrCreate owned_env sample_ba) s = (Inr owned_sc, s)"
    by (simp add: owned_getOrCreate)
  ultimately show ?thesis by (simp add: Ensure_def sync_customer_def owned_details)
qed

lemma updating_run:
  "dt_TaxIDs d = [] \<Longrightarrow> run_state (EnsureCustomer updating_stripe sample_os ''cus_1'' a d) s =
    ((''cus_1'', None), s\<lparr>trace := trace s @ [CustomersUpdate ''cus_1'' (applyCustomerDetails (account_params a) d) True]\<rparr>)"
  by (simp add: EnsureCustomer_def with_tax_ids_def reconcileTaxIDs_def updating_stripe_def
      existing_tax_ids_def Let_def sample_defs)

abbreviation owned_synced :: sc_status where
  "owned_synced \<equiv> synced_status (lib owned_env) owned_sc ''cus_1'' (ready_synced ''cus_1'')
     (Some (tax_ids_condition None))"

lemma owned_unsynced: "sc_status owned_sc \<noteq> owned_synced"
proof -
  have "published owned_synced ''cus_1'' True"
    using synced_status_published [OF owned_env_lib, of owned_sc "''cus_1''" None] by simp
  moreover have "\<not> published (sc_status owned_sc) ''cus_1'' True"
    by (simp add: published_def owned_sc_def empty_sc_status_def find_condition_def)
  ultimately show ?thesis by auto
qed

lemma owned_Ensure_from:
  fixes s :: "(unit, effect) st"
  shows "run_state (Ensure owned_env (EnsureCustomer updating_stripe sample_os) sample_ba) s =
    ((''cus_1'', None), s\<lparr>trace := trace s @ [CustomersUpdate ''cus_1''
        (applyCustomerDetails (account_params (account_key_of sample_ba))
          (customerDetailsFromBillingAccount sample_ba)) True,
      SCStatusPatch (owned_sc\<lparr>sc_status := owned_synced\<rparr>) True]\<rparr>)"
proof -
  have "dt_TaxIDs (customerDetailsFromBillingAccount sample_ba) = []"
    by (simp add: customerDetailsFromBillingAccount_def empty_details_def sample_ba_def Let_def)
  moreover have "patch_sc_status (kube owned_env) sc sc' w = (Inr sc', w)" for sc sc' w
    by (simp add: owned_env_def sample_defs)
  ultimately show ?thesis
    unfolding owned_run by (simp add: updating_run record_synced_def patchStatus_def owned_unsynced Let_def)
qed

lemmas owned_Ensure = owned_Ensure_from [of "st0 ()", unfolded st0_def, simplified, folded st0_def]

lemma Ensure_keeps_customer_witness:
  "\<exists>sc ok. SCStatusPatch sc ok \<in> set (effects (Ensure owned_env
      (EnsureCustomer updating_stripe sample_os) sample_ba) (st0 ())) \<and>
     sc_StripeCustomerID (sc_status sc) = ''cus_1''"
proof -
  have "run_state (getOrCreate owned_env sample_ba) (st0 ()) = (Inr owned_sc, st0 ())"
    by (simp add: owned_getOrCreate st0_def)
  moreover have "sc_StripeCustomerID (sc_status owned_sc) = ''cus_1''" by (simp add: owned_sc_def)
  moreover have "SCStatusPatch (owned_sc\<lparr>sc_status := owned_synced\<rparr>) True \<in> set (effects
      (Ensure owned_env (EnsureCustomer updating_stripe sample_os) sample_ba) (st0 ()))"
    by (simp add: effects_def owned_Ensure) (simp add: st0_def)
  ultimately show ?thesis using Ensure_keeps_customer [of owned_env sample_ba "st0 ()"] by blast
qed

theorem Ensure_publishes_witness:
  "\<exists>st. published st ''cus_1'' True \<and>
    SCStatusPatch (owned_sc\<lparr>sc_status := st\<rparr>) True \<in> set (trace (snd (run_state
      (Ensure owned_env (EnsureCustomer updating_stripe sample_os) sample_ba) (st0 ()))))"
proof -
  obtain sc s1 st where "run_state (getOrCreate owned_env sample_ba) (st0 ()) = (Inr sc, s1)"
    and st: "published st ''cus_1'' True" "st = sc_status sc \<or> SCStatusPatch (sc\<lparr>sc_status := st\<rparr>) True
      \<in> set (trace (snd (run_state (Ensure owned_env (EnsureCustomer updating_stripe sample_os) sample_ba)
        (st0 ()))))"
    using Ensure_publishes [OF owned_env_errors owned_env_lib owned_Ensure] unfolding owned_Ensure by auto
  then have "sc = owned_sc" by (simp add: owned_getOrCreate)
  moreover have "\<not> published (sc_status owned_sc) ''cus_1'' True"
    by (simp add: published_def owned_sc_def empty_sc_status_def find_condition_def)
  ultimately show ?thesis using st by auto
qed

definition orphan_sc :: stripe_customer where
  "orphan_sc = new_stripe_customer sample_ba"

lemma Ensure_refuses_unowned_witness:
  "\<exists>msg. fst (run_state (Ensure (sample_env\<lparr>kube := sample_kube\<lparr>read_sc := \<lambda>_. answer orphan_sc\<rparr>\<rparr>)
     (EnsureCustomer sample_stripe sample_os) sample_ba) (st0 ())) = ('''', Some (NewError msg))"
proof -
  let ?E = "sample_env\<lparr>kube := sample_kube\<lparr>read_sc := \<lambda>_. answer orphan_sc\<rparr>\<rparr>"
  have "read_sc (kube ?E) (key_of (ba_meta sample_ba)) (world (st0 ())) = (Inr orphan_sc, ())"
    by (simp add: sample_defs)
  moreover have "\<forall>owner. GetControllerOf (lib ?E) (sc_meta orphan_sc) = Some owner \<longrightarrow>
      or_UID owner \<noteq> UID (ba_meta sample_ba)"
    by (simp add: orphan_sc_def new_stripe_customer_def sample_defs)
  ultimately show ?thesis
    using Ensure_refuses_unowned [of ?E sample_ba "st0 ()" orphan_sc "()"] by (metis fst_conv)
qed

definition terminating_env :: "unit env" where
  "terminating_env = sample_env\<lparr>kube := sample_kube\<lparr>create_sc := \<lambda>_ w. (Inl (ApiError Forbidden
     ''namespace org is being terminated''), w)\<rparr>\<rparr>"

lemma terminating_text: "Contains ''namespace org is being terminated'' ''being terminated''"
  unfolding Contains_sublist by (intro exI [of _ "''namespace org is ''"] exI [of _ "''''"]) simp

lemma Ensure_creates_object_first_witness:
  "\<exists>err. fst (run_state (Ensure terminating_env (EnsureCustomer sample_stripe sample_os) sample_ba)
     (st0 ())) = ('''', Some err) \<and> Is_NamespaceTerminating err"
proof -
  let ?m = "(sc_meta (new_stripe_customer sample_ba))\<lparr>OwnerReferences :=
    [owner_reference KindBillingAccount (ba_meta sample_ba)]\<rparr>"
  let ?e = "ApiError Forbidden ''namespace org is being terminated''"
  have read: "read_sc (kube terminating_env) (key_of (ba_meta sample_ba)) (world (st0 ())) =
      (Inl (ApiError NotFound ''not found''), ())"
    and own: "SetControllerReference (lib terminating_env) KindBillingAccount (ba_meta sample_ba)
      (sc_meta (new_stripe_customer sample_ba)) = Inr ?m"
    and create: "create_sc (kube terminating_env) ((new_stripe_customer sample_ba)\<lparr>sc_meta := ?m\<rparr>) () =
      (Inl ?e, ())"
    by (simp_all add: terminating_env_def sample_defs)
  have "IsNotFound (ApiError NotFound ''not found'')" by simp
  moreover have "isNamespaceTerminatingForbidden ?e"
    using terminating_text by (simp add: isNamespaceTerminatingForbidden_def del: Contains.simps)
  ultimately show ?thesis
    using Ensure_creates_object_first [OF read _ own create, of "EnsureCustomer sample_stripe sample_os"]
    by (metis fst_conv)
qed

end
