(* ===== verification/EnsureLocks.thy ===== *)
theory EnsureLocks
  imports ApiTypes
begin

text \<open>
  The per-account lock of \<open>StripeCustomers\<close> (\<open>internal/controller/stripe_customers.go\<close>,
  \<open>lock\<close>) and the concurrent calls of \<open>Ensure\<close> it serializes, as a step relation over any
  number of callers. A caller's program counter follows \<open>lock\<close> statement by statement: the two
  mutexes, and in between the lookup in the map, the allocation of a mutex and its insertion, each a
  step of its own that other callers may come before or after; only \<open>s.mu\<close> keeps them apart. It then
  follows \<open>Ensure\<close> call by call (the account's key is any type): the uncached read of the
  StripeCustomer, the customer that is updated, adopted or created in Stripe, and the status patch that
  publishes it. The outcomes of the calls are
  left open, so every interleaving and every failure is a run. The sequential behaviour of the calls
  themselves is in \<open>StripeCustomers\<close>.
\<close>

section \<open>States and steps\<close>

type_synonym caller = nat
type_synonym mutex = nat

datatype 'k pc =
    Idle
  | WantMu 'k                      \<comment> \<open>\<open>s.mu.Lock()\<close>\<close>
  | InMu 'k                        \<comment> \<open>\<open>l, ok := s.locks[key]\<close>\<close>
  | Missing 'k                     \<comment> \<open>\<open>!ok\<close>: \<open>l = &sync.Mutex{}\<close>\<close>
  | Storing 'k mutex               \<comment> \<open>\<open>s.locks[key] = l\<close>\<close>
  | LeaveMu 'k mutex               \<comment> \<open>\<open>s.mu.Unlock()\<close>\<close>
  | WantLock 'k mutex              \<comment> \<open>\<open>l.Lock()\<close>\<close>
  | Reading 'k mutex               \<comment> \<open>\<open>getOrCreate\<close>\<close>
  | Working 'k mutex string        \<comment> \<open>the ID read from the status, or empty\<close>
  | Publishing 'k mutex string     \<comment> \<open>\<open>patchStatus\<close> with the customer's ID\<close>
  | Leaving 'k mutex               \<comment> \<open>the deferred \<open>l.Unlock()\<close>\<close>

record 'k sys =
  mu :: "caller option"
  locks :: "'k \<rightharpoonup> mutex"
  fresh :: mutex                 \<comment> \<open>the next mutex to be allocated\<close>
  held :: "mutex \<Rightarrow> caller option"
  pcs :: "caller \<Rightarrow> 'k pc"
  publishedID :: "'k \<Rightarrow> string"   \<comment> \<open>on the StripeCustomer's status; empty when none\<close>
  created :: "'k \<Rightarrow> nat"          \<comment> \<open>customers created in Stripe for the account\<close>
  lost :: "'k \<Rightarrow> nat"             \<comment> \<open>failed publications\<close>

definition NewStripeCustomers :: "('k \<Rightarrow> string) \<Rightarrow> 'k sys" where
  "NewStripeCustomers ids = \<lparr>mu = None, locks = Map.empty, fresh = 0, held = (\<lambda>_. None),
     pcs = (\<lambda>_. Idle), publishedID = ids, created = (\<lambda>_. 0), lost = (\<lambda>_. 0)\<rparr>"

abbreviation goto :: "caller \<Rightarrow> 'k pc \<Rightarrow> 'k sys \<Rightarrow> 'k sys" where
  "goto p c s \<equiv> s\<lparr>pcs := (pcs s)(p := c)\<rparr>"

inductive step :: "caller \<Rightarrow> 'k sys \<Rightarrow> 'k sys \<Rightarrow> bool" where
  call: "pcs s p = Idle \<Longrightarrow> step p s (goto p (WantMu k) s)"
| mu_lock: "pcs s p = WantMu k \<Longrightarrow> mu s = None \<Longrightarrow> step p s (goto p (InMu k) (s\<lparr>mu := Some p\<rparr>))"
| lookup_hit: "pcs s p = InMu k \<Longrightarrow> locks s k = Some l \<Longrightarrow> step p s (goto p (LeaveMu k l) s)"
| lookup_miss: "pcs s p = InMu k \<Longrightarrow> locks s k = None \<Longrightarrow>
    step p s (goto p (Missing k) s)"
| allocate: "pcs s p = Missing k \<Longrightarrow> step p s (goto p (Storing k (fresh s)) (s\<lparr>fresh := fresh s + 1\<rparr>))"
| store: "pcs s p = Storing k l \<Longrightarrow> step p s (goto p (LeaveMu k l) (s\<lparr>locks := (locks s)(k \<mapsto> l)\<rparr>))"
| mu_unlock: "pcs s p = LeaveMu k l \<Longrightarrow> step p s (goto p (WantLock k l) (s\<lparr>mu := None\<rparr>))"
| acquire: "pcs s p = WantLock k l \<Longrightarrow> held s l = None \<Longrightarrow>
    step p s (goto p (Reading k l) (s\<lparr>held := (held s)(l := Some p)\<rparr>))"
| read: "pcs s p = Reading k l \<Longrightarrow> step p s (goto p (Working k l (publishedID s k)) s)"
| read_fails: "pcs s p = Reading k l \<Longrightarrow> step p s (goto p (Leaving k l) s)"
| fails: "pcs s p = Working k l i \<Longrightarrow> step p s (goto p (Leaving k l) s)"
| update: "pcs s p = Working k l i \<Longrightarrow> i \<noteq> '''' \<Longrightarrow> step p s (goto p (Publishing k l i) s)"
| adopt: "pcs s p = Working k l i \<Longrightarrow> i = '''' \<Longrightarrow> c \<noteq> '''' \<Longrightarrow> step p s (goto p (Publishing k l c) s)"
| create: "pcs s p = Working k l i \<Longrightarrow> i = '''' \<Longrightarrow> c \<noteq> '''' \<Longrightarrow>
    step p s (goto p (Publishing k l c) (s\<lparr>created := (created s)(k := created s k + 1)\<rparr>))"
| publish: "pcs s p = Publishing k l c \<Longrightarrow>
    step p s (goto p (Leaving k l) (s\<lparr>publishedID := (publishedID s)(k := c)\<rparr>))"
| publish_fails: "pcs s p = Publishing k l c \<Longrightarrow>
    step p s (goto p (Leaving k l) (s\<lparr>lost := (lost s)(k := lost s k + 1)\<rparr>))"
| release: "pcs s p = Leaving k l \<Longrightarrow> step p s (goto p Idle (s\<lparr>held := (held s)(l := None)\<rparr>))"

inductive reachable :: "('k \<Rightarrow> string) \<Rightarrow> 'k sys \<Rightarrow> bool" for ids where
  start: "reachable ids (NewStripeCustomers ids)"
| more: "reachable ids s \<Longrightarrow> step p s s' \<Longrightarrow> reachable ids s'"

section \<open>Invariant\<close>

text \<open>The key and mutex a caller works with, whether it is in \<open>s.mu\<close>, and whether it holds the lock.\<close>

fun lock_used :: "'k pc \<Rightarrow> ('k \<times> mutex) option" where
  "lock_used (LeaveMu k l) = Some (k, l)"
| "lock_used (WantLock k l) = Some (k, l)"
| "lock_used (Reading k l) = Some (k, l)"
| "lock_used (Working k l i) = Some (k, l)"
| "lock_used (Publishing k l c) = Some (k, l)"
| "lock_used (Leaving k l) = Some (k, l)"
| "lock_used _ = None"

fun in_mu :: "'k pc \<Rightarrow> bool" where
  "in_mu (InMu k) = True"
| "in_mu (Missing k) = True"
| "in_mu (Storing k l) = True"
| "in_mu (LeaveMu k l) = True"
| "in_mu _ = False"

fun holding :: "'k pc \<Rightarrow> mutex option" where
  "holding (Reading k l) = Some l"
| "holding (Working k l i) = Some l"
| "holding (Publishing k l c) = Some l"
| "holding (Leaving k l) = Some l"
| "holding _ = None"

definition mu_inv :: "'k sys \<Rightarrow> bool" where
  "mu_inv s \<longleftrightarrow> (\<forall>p. in_mu (pcs s p) \<longleftrightarrow> mu s = Some p)"

definition used_inv :: "'k sys \<Rightarrow> bool" where
  "used_inv s \<longleftrightarrow> (\<forall>p k l. lock_used (pcs s p) = Some (k, l) \<longrightarrow> locks s k = Some l)"

definition held_inv :: "'k sys \<Rightarrow> bool" where
  "held_inv s \<longleftrightarrow> (\<forall>p l. holding (pcs s p) = Some l \<longleftrightarrow> held s l = Some p)"

definition locks_inv :: "'k sys \<Rightarrow> bool" where
  "locks_inv s \<longleftrightarrow> (\<forall>k l. locks s k = Some l \<longrightarrow> l < fresh s) \<and>
     (\<forall>k k' l. locks s k = Some l \<and> locks s k' = Some l \<longrightarrow> k = k')"

text \<open>Between the lookup that missed and the insertion the map still lacks the key and the new mutex.\<close>

definition missing_inv :: "'k sys \<Rightarrow> bool" where
  "missing_inv s \<longleftrightarrow> (\<forall>p k. pcs s p = Missing k \<longrightarrow> locks s k = None) \<and>
     (\<forall>p k l. pcs s p = Storing k l \<longrightarrow> locks s k = None \<and> l < fresh s \<and> (\<forall>k'. locks s k' \<noteq> Some l))"

lemma step_other: "step p s s' \<Longrightarrow> q \<noteq> p \<Longrightarrow> pcs s' q = pcs s q"
  by (cases rule: step.cases) auto

lemma mu_inv_step: "step p s s' \<Longrightarrow> mu_inv s \<Longrightarrow> mu_inv s'"
proof (induction rule: step.induct)
  case (mu_lock s p k)
  then show ?case by (simp add: mu_inv_def)
next
  case (mu_unlock s p k l)
  then have "mu s = Some p" unfolding mu_inv_def by (metis in_mu.simps(4))
  with mu_unlock show ?case by (auto simp: mu_inv_def)
qed (unfold mu_inv_def, simp_all, (metis in_mu.simps)+)

lemma in_mu_unique: "mu_inv s \<Longrightarrow> in_mu (pcs s p) \<Longrightarrow> in_mu (pcs s q) \<Longrightarrow> p = q"
  by (simp add: mu_inv_def)

lemma missing_invD:
  "missing_inv s \<Longrightarrow> pcs s p = Missing k \<Longrightarrow> locks s k = None"
  "missing_inv s \<Longrightarrow> pcs s p = Storing k l \<Longrightarrow> locks s k = None \<and> l < fresh s \<and> (\<forall>k'. locks s k' \<noteq> Some l)"
  by (simp_all add: missing_inv_def)

text \<open>The map and the supply of mutexes change only in the hands of a caller inside \<open>s.mu\<close>.\<close>

lemma step_outside_mu: "step p s s' \<Longrightarrow> \<not> in_mu (pcs s p) \<Longrightarrow> locks s' = locks s \<and> fresh s' = fresh s"
  by (cases rule: step.cases) auto

lemma missing_inv_step:
  assumes "step p s s'" and inv: "missing_inv s" and loc: "locks_inv s" and mu: "mu_inv s"
  shows "missing_inv s'"
proof -
  have other: "locks s' = locks s \<and> fresh s' = fresh s" if "q \<noteq> p" "in_mu (pcs s q)" for q
    using that in_mu_unique [OF mu that(2), of p] step_outside_mu [OF assms(1)] by blast
  have "locks s' k = None" if "pcs s' q = Missing k" for q k
  proof (cases "q = p")
    case True
    with assms(1) that show ?thesis by (cases rule: step.cases) auto
  next
    case False
    with that have "pcs s q = Missing k" by (simp add: step_other [OF assms(1)])
    with other [OF False] missing_invD(1) [OF inv] show ?thesis by simp
  qed
  moreover have "locks s' k = None \<and> l < fresh s' \<and> (\<forall>k'. locks s' k' \<noteq> Some l)"
    if "pcs s' q = Storing k l" for q k l
  proof (cases "q = p")
    case True
    have "locks s k' \<noteq> Some (fresh s)" for k' using loc by (auto simp: locks_inv_def)
    with assms(1) that True show ?thesis by (cases rule: step.cases) (auto dest: missing_invD(1) [OF inv])
  next
    case False
    with that have "pcs s q = Storing k l" by (simp add: step_other [OF assms(1)])
    with other [OF False] missing_invD(2) [OF inv] show ?thesis by simp
  qed
  ultimately show ?thesis unfolding missing_inv_def by blast
qed

lemma locks_inv_step: "step p s s' \<Longrightarrow> locks_inv s \<Longrightarrow> missing_inv s \<Longrightarrow> locks_inv s'"
proof (induction rule: step.induct)
  case (store s p k l)
  with missing_invD(2) [OF store.prems(2) store.hyps] show ?case
    by (auto simp: locks_inv_def split: if_splits)
qed (simp_all add: locks_inv_def less_SucI)

lemma used_invD: "used_inv s \<Longrightarrow> lock_used (pcs s p) = Some (k, l) \<Longrightarrow> locks s k = Some l"
  by (simp add: used_inv_def)

lemma used_inv_step:
  assumes "step p s s'" and inv: "used_inv s" and miss: "missing_inv s"
  shows "used_inv s'"
  unfolding used_inv_def
proof (intro allI impI)
  fix q k l
  assume "lock_used (pcs s' q) = Some (k, l)"
  with assms(1) used_invD [OF inv, of q k l] used_invD [OF inv, of p k l] missing_invD(2) [OF miss, of p k]
  show "locks s' k = Some l"
    by (cases rule: step.cases) (auto split: if_splits)
qed

lemma held_invD: "held_inv s \<Longrightarrow> holding (pcs s p) = Some l \<longleftrightarrow> held s l = Some p"
  by (simp add: held_inv_def)

lemma held_inv_step:
  assumes "step p s s'" and inv: "held_inv s"
  shows "held_inv s'"
  unfolding held_inv_def
proof (intro allI)
  fix q l
  show "holding (pcs s' q) = Some l \<longleftrightarrow> held s' l = Some q"
    using assms(1) held_invD [OF inv, of q l] held_invD [OF inv, of p l]
    by (cases rule: step.cases) (auto split: if_splits)
qed

text \<open>The account a caller is working on with its lock held.\<close>

fun in_critical :: "'k pc \<Rightarrow> 'k option" where
  "in_critical (Reading k l) = Some k"
| "in_critical (Working k l i) = Some k"
| "in_critical (Publishing k l c) = Some k"
| "in_critical (Leaving k l) = Some k"
| "in_critical _ = None"

lemma critical_lock: "in_critical c = Some k \<Longrightarrow> \<exists>l. lock_used c = Some (k, l) \<and> holding c = Some l"
  by (cases c) auto

lemma exclusive:
  assumes "used_inv s" and "held_inv s"
    and "in_critical (pcs s p) = Some k" and "in_critical (pcs s q) = Some k"
  shows "p = q"
proof -
  obtain l where l: "lock_used (pcs s p) = Some (k, l)" "holding (pcs s p) = Some l"
    using critical_lock [OF assms(3)] by blast
  obtain m where m: "lock_used (pcs s q) = Some (k, m)" "holding (pcs s q) = Some m"
    using critical_lock [OF assms(4)] by blast
  have "l = m" using used_invD [OF assms(1) l(1)] used_invD [OF assms(1) m(1)] by simp
  with l m held_invD [OF assms(2)] show ?thesis by (metis option.inject)
qed

definition ids_inv :: "'k sys \<Rightarrow> bool" where
  "ids_inv s \<longleftrightarrow>
     (\<forall>p k l i. pcs s p = Working k l i \<longrightarrow> i = publishedID s k) \<and>
     (\<forall>p k l c. pcs s p = Publishing k l c \<longrightarrow> c \<noteq> '''' \<and> (publishedID s k \<noteq> '''' \<longrightarrow> c = publishedID s k))"

lemma ids_invD:
  "ids_inv s \<Longrightarrow> pcs s p = Working k l i \<Longrightarrow> i = publishedID s k"
  "ids_inv s \<Longrightarrow> pcs s p = Publishing k l c \<Longrightarrow> c \<noteq> '''' \<and> (publishedID s k \<noteq> '''' \<longrightarrow> c = publishedID s k)"
  by (simp_all add: ids_inv_def)

text \<open>A step leaves the data of every account but the one it holds alone.\<close>

lemma step_frame:
  assumes "step p s s'" and "in_critical (pcs s p) \<noteq> Some k"
  shows "publishedID s' k = publishedID s k \<and> created s' k = created s k \<and> lost s' k = lost s k"
  using assms by (cases rule: step.cases) auto

lemma ids_inv_step:
  assumes "step p s s'" and inv: "ids_inv s" and "used_inv s" and "held_inv s"
  shows "ids_inv s'"
proof -
  have frame: "publishedID s' k = publishedID s k" if "q \<noteq> p" "in_critical (pcs s q) = Some k" for q k
    using exclusive [OF assms(3,4) that(2), of p] that(1) step_frame [OF assms(1), of k] by blast
  have "i = publishedID s' k" if "pcs s' q = Working k l i" for q k l i
  proof (cases "q = p")
    case True
    with assms(1) that show ?thesis by (cases rule: step.cases) auto
  next
    case False
    with that have "pcs s q = Working k l i" by (simp add: step_other [OF assms(1)])
    with frame [OF False, of k] ids_invD(1) [OF inv] show ?thesis by simp
  qed
  moreover have "c \<noteq> '''' \<and> (publishedID s' k \<noteq> '''' \<longrightarrow> c = publishedID s' k)"
    if "pcs s' q = Publishing k l c" for q k l c
  proof (cases "q = p")
    case True
    with assms(1) that show ?thesis
      by (cases rule: step.cases) (auto dest: ids_invD(1) [OF inv])
  next
    case False
    with that have "pcs s q = Publishing k l c" by (simp add: step_other [OF assms(1)])
    with frame [OF False, of k] ids_invD(2) [OF inv] show ?thesis by simp
  qed
  ultimately show ?thesis unfolding ids_inv_def by blast
qed

definition publishing :: "'k sys \<Rightarrow> 'k \<Rightarrow> bool" where
  "publishing s k \<longleftrightarrow> (\<exists>p l c. pcs s p = Publishing k l c)"

definition count_inv :: "'k sys \<Rightarrow> bool" where
  "count_inv s \<longleftrightarrow> (\<forall>k. created s k \<le> lost s k + (if publishedID s k \<noteq> '''' \<or> publishing s k then 1 else 0))"

lemma publishing_frame:
  assumes "step p s s'" and "in_critical (pcs s p) \<noteq> Some k" and "in_critical (pcs s' p) \<noteq> Some k"
  shows "publishing s' k = publishing s k"
proof -
  have "pcs s' q = Publishing k l c \<longleftrightarrow> pcs s q = Publishing k l c" for q l c
    using assms step_other [OF assms(1), of q] by (cases "q = p") auto
  then show ?thesis by (simp add: publishing_def)
qed

text \<open>A caller outside the account's critical section does not begin or end a publication there.\<close>

lemma publishing_outside:
  assumes "step p s s'" and "in_critical (pcs s p) \<noteq> Some k"
  shows "publishing s' k = publishing s k"
proof (cases "in_critical (pcs s' p) = Some k")
  case True
  with assms obtain l where "pcs s' p = Reading k l" "\<forall>l c. pcs s p \<noteq> Publishing k l c"
    by (cases rule: step.cases) auto
  then have "pcs s' q = Publishing j l c \<longleftrightarrow> pcs s q = Publishing j l c" if "j = k" for q j l c
    using that step_other [OF assms(1), of q] by (cases "q = p") auto
  then show ?thesis by (simp add: publishing_def)
next
  case outside: False
  show ?thesis by (rule publishing_frame [OF assms outside])
qed

lemma count_inv_step:
  assumes "step p s s'" and inv: "count_inv s" and "ids_inv s" and "used_inv s" and "held_inv s"
  shows "count_inv s'"
  unfolding count_inv_def
proof
  fix k
  have c: "created s k \<le> lost s k + (if publishedID s k \<noteq> '''' \<or> publishing s k then 1 else 0)"
    using inv by (simp add: count_inv_def)
  show "created s' k \<le> lost s' k + (if publishedID s' k \<noteq> '''' \<or> publishing s' k then 1 else 0)"
  proof (cases "in_critical (pcs s p) = Some k")
    case False
    with c step_frame [OF assms(1) False] publishing_outside [OF assms(1) False] show ?thesis by simp
  next
    case True
    have mine: "\<exists>l i. pcs s p = Publishing k l i" if "publishing s k"
    proof -
      from that obtain q l i where q: "pcs s q = Publishing k l i" by (auto simp: publishing_def)
      with exclusive [OF assms(4,5) _ True, of q] have "q = p" by simp
      with q show ?thesis by blast
    qed
    have after: "publishing s' k" if "pcs s' p = Publishing k l i" for l i
      using that by (auto simp: publishing_def)
    from assms(1) show ?thesis
    proof (cases rule: step.cases)
      case (create k' l i cu)
      with True have "k' = k" "i = ''''" by auto
      moreover have "\<not> publishing s k" using mine create by auto
      ultimately show ?thesis using create ids_invD(1) [OF assms(3), of p k l i] c after by auto
    next
      case (publish k' l cu)
      with True ids_invD(2) [OF assms(3), of p k' l cu] c show ?thesis by (auto split: if_splits)
    qed (use True mine c after in \<open>auto split: if_splits\<close>)
  qed
qed


definition sys_inv :: "'k sys \<Rightarrow> bool" where
  "sys_inv s \<longleftrightarrow> mu_inv s \<and> locks_inv s \<and> missing_inv s \<and> used_inv s \<and> held_inv s \<and> ids_inv s \<and> count_inv s"

lemma sys_inv_start: "sys_inv (NewStripeCustomers ids)"
  by (simp add: sys_inv_def NewStripeCustomers_def mu_inv_def locks_inv_def missing_inv_def used_inv_def held_inv_def
      ids_inv_def count_inv_def)

lemma sys_inv_reachable: "reachable ids s \<Longrightarrow> sys_inv s"
proof (induction rule: reachable.induct)
  case start
  show ?case by (rule sys_inv_start)
next
  case (more s p s')
  then show ?case
    unfolding sys_inv_def
    using mu_inv_step locks_inv_step missing_inv_step used_inv_step held_inv_step ids_inv_step count_inv_step by metis
qed

section \<open>Properties\<close>

text \<open>
  C12 (safety): at most one caller at a time is inside Ensure for an account, in every interleaving of
  the statements of any number of callers, and a caller waits for another's mutex only when that one is
  inside Ensure for the same account: calls for different accounts are not serialized against each
  other once they have left the map.
\<close>

theorem one_ensure_per_account:
  assumes "reachable ids s"
  shows "(in_critical (pcs s p) = Some k \<and> in_critical (pcs s q) = Some k \<longrightarrow> p = q) \<and>
    (pcs s p = WantLock k l \<and> held s l = Some q \<longrightarrow> in_critical (pcs s q) = Some k)"
proof -
  have inv: "locks_inv s" "used_inv s" "held_inv s"
    using sys_inv_reachable [OF assms] by (simp_all add: sys_inv_def)
  have "in_critical (pcs s q) = Some k" if "pcs s p = WantLock k l" "held s l = Some q"
  proof -
    from that(2) have "holding (pcs s q) = Some l" using held_invD [OF inv(3)] by simp
    then obtain j where j: "in_critical (pcs s q) = Some j" "lock_used (pcs s q) = Some (j, l)"
      by (cases "pcs s q") auto
    with used_invD [OF inv(2) j(2)] used_invD [OF inv(2), of p k l] that(1) inv(1)
    have "j = k" by (simp add: locks_inv_def)
    with j show ?thesis by simp
  qed
  with exclusive [OF inv(2,3)] show ?thesis by blast
qed

text \<open>
  C11 (invariant): whatever the interleaving and whatever fails, the customers created for an account
  never outnumber its failed publications by more than one, and they do so only once the last one is
  published or being published: duplicates need a status patch that failed, never a race.
\<close>

theorem created_bounded:
  assumes "reachable ids s"
  shows "created s k \<le> lost s k + 1 \<and> (created s k = lost s k + 1 \<longrightarrow> publishedID s k \<noteq> '''' \<or> publishing s k)"
proof -
  have "created s k \<le> lost s k + (if publishedID s k \<noteq> '''' \<or> publishing s k then 1 else 0)"
    using sys_inv_reachable [OF assms] by (simp add: sys_inv_def count_inv_def)
  then show ?thesis by (auto split: if_splits)
qed

text \<open>
  A published customer ID is never replaced: once an account's StripeCustomer has one, no
  step of any caller changes it or creates another customer for the account.
\<close>

lemma published_is_stable:
  assumes "reachable ids s" and "step p s s'" and "publishedID s k \<noteq> ''''"
  shows "publishedID s' k = publishedID s k \<and> created s' k = created s k"
proof -
  have inv: "ids_inv s" using sys_inv_reachable [OF assms(1)] by (simp add: sys_inv_def)
  from assms(2,3) show ?thesis
    by (cases rule: step.cases) (auto dest: ids_invD [OF inv])
qed

lemma holder_moves:
  assumes "holding (pcs s p) \<noteq> None"
  shows "\<exists>s'. step p s s'"
  using assms by (cases "pcs s p") (auto intro: step.intros)

lemma mu_holder_moves:
  assumes "in_mu (pcs s p)"
  shows "\<exists>s'. step p s s'"
proof (cases "pcs s p")
  case (InMu k)
  then show ?thesis by (cases "locks s k") (auto intro: step.intros)
qed (use assms in \<open>auto intro: step.intros\<close>)

lemma busy_moves:
  assumes "mu_inv s" and "held_inv s" and "pcs s p \<noteq> Idle"
  shows "\<exists>q s'. pcs s q \<noteq> Idle \<and> step q s s'"
proof (cases "pcs s p")
  case (WantMu k)
  show ?thesis
  proof (cases "mu s")
    case None
    with WantMu show ?thesis by (metis assms(3) mu_lock)
  next
    case (Some q)
    then have "in_mu (pcs s q)" using assms(1) by (simp add: mu_inv_def)
    with mu_holder_moves [OF this] show ?thesis by (metis in_mu.simps(5))
  qed
next
  case (WantLock k l)
  show ?thesis
  proof (cases "held s l")
    case None
    with WantLock show ?thesis by (metis assms(3) acquire)
  next
    case (Some q)
    then have "holding (pcs s q) = Some l" using held_invD [OF assms(2)] by simp
    then have "holding (pcs s q) \<noteq> None" "pcs s q \<noteq> Idle" by auto
    with holder_moves [of s q] show ?thesis by blast
  qed
qed (use assms(3) mu_holder_moves [of s p] holder_moves [of s p] in \<open>auto intro!: exI [of _ p]\<close>)

text \<open>
  The two levels of locking cannot deadlock: as long as some caller is inside a call,
  some caller inside a call can take a step.
\<close>

lemma no_deadlock:
  assumes "reachable ids s" and "pcs s p \<noteq> Idle"
  shows "\<exists>q s'. pcs s q \<noteq> Idle \<and> step q s s'"
proof -
  have "mu_inv s" "held_inv s" using sys_inv_reachable [OF assms(1)] by (simp_all add: sys_inv_def)
  then show ?thesis using assms(2) by (rule busy_moves)
qed

section \<open>Calls return\<close>

text \<open>What is left of a call, in steps of its caller.\<close>

fun steps_left :: "'k pc \<Rightarrow> nat" where
  "steps_left Idle = 0"
| "steps_left (Leaving k l) = 1"
| "steps_left (Publishing k l c) = 2"
| "steps_left (Working k l i) = 3"
| "steps_left (Reading k l) = 4"
| "steps_left (WantLock k l) = 5"
| "steps_left (LeaveMu k l) = 6"
| "steps_left (Storing k l) = 7"
| "steps_left (Missing k) = 8"
| "steps_left (InMu k) = 9"
| "steps_left (WantMu k) = 10"

abbreviation busy :: "'k sys \<Rightarrow> caller set" where
  "busy s \<equiv> {p. pcs s p \<noteq> Idle}"

text \<open>\<open>n\<close> steps of callers inside a call, with no new call begun.\<close>

inductive drains :: "nat \<Rightarrow> 'k sys \<Rightarrow> 'k sys \<Rightarrow> bool" where
  stay: "drains 0 s s"
| work: "pcs s p \<noteq> Idle \<Longrightarrow> step p s s' \<Longrightarrow> drains n s' t \<Longrightarrow> drains (Suc n) s t"

lemma steps_left_le: "steps_left c \<le> 10"
  by (cases c) auto

lemma step_progress:
  assumes "step p s s'" and "pcs s p \<noteq> Idle"
  shows "steps_left (pcs s' p) < steps_left (pcs s p)"
  using assms by (cases rule: step.cases) auto

lemma step_drains:
  assumes "step p s s'" and "pcs s p \<noteq> Idle" and "finite (busy s)"
  shows "finite (busy s')" and "(\<Sum>q\<in>busy s'. steps_left (pcs s' q)) < (\<Sum>q\<in>busy s. steps_left (pcs s q))"
proof -
  have sub: "busy s' \<subseteq> busy s"
    using step_other [OF assms(1)] assms(2) by (auto split: if_splits) metis
  then show fin: "finite (busy s')" using assms(3) finite_subset by blast
  have "(\<Sum>q\<in>busy s'. steps_left (pcs s' q)) \<le> (\<Sum>q\<in>busy s. steps_left (pcs s' q))"
    by (rule sum_mono2 [OF assms(3) sub]) simp
  also have "\<dots> < (\<Sum>q\<in>busy s. steps_left (pcs s q))"
  proof (rule sum_strict_mono_ex1 [OF assms(3)])
    show "\<forall>q\<in>busy s. steps_left (pcs s' q) \<le> steps_left (pcs s q)"
      using step_progress [OF assms(1,2)] step_other [OF assms(1)] by (metis le_less order_refl)
    show "\<exists>q\<in>busy s. steps_left (pcs s' q) < steps_left (pcs s q)"
      using step_progress [OF assms(1,2)] assms(2) by blast
  qed
  finally show "(\<Sum>q\<in>busy s'. steps_left (pcs s' q)) < (\<Sum>q\<in>busy s. steps_left (pcs s q))" .
qed

lemma drains_bound:
  "drains n s t \<Longrightarrow> finite (busy s) \<Longrightarrow>
   finite (busy t) \<and> n + (\<Sum>q\<in>busy t. steps_left (pcs t q)) \<le> (\<Sum>q\<in>busy s. steps_left (pcs s q))"
proof (induction rule: drains.induct)
  case (work s p s' n t)
  with step_drains [OF work(2,1)] show ?case by fastforce
qed simp

lemma drains_reachable: "drains n s t \<Longrightarrow> reachable ids s \<Longrightarrow> reachable ids t"
  by (induction rule: drains.induct) (auto intro: reachable.more)

text \<open>
  C13 (termination): every call returns: while no new call is begun, any schedule of the callers that are
  inside Ensure makes at most ten steps for each of them, and where it cannot go on all of them have
  returned and their locks are free. (A step is a statement of \<open>lock\<close> or one of the calls that
  Ensure makes, each of which answers.)
\<close>

theorem calls_return:
  assumes "reachable ids s" and "finite {p. pcs s p \<noteq> Idle}" and "drains n s t"
  shows "n \<le> 10 * card {p. pcs s p \<noteq> Idle} \<and>
    ((\<forall>p. pcs t p = Idle) \<and> (\<forall>l. held t l = None) \<or> (\<exists>p t'. pcs t p \<noteq> Idle \<and> step p t t'))"
proof
  have "(\<Sum>q\<in>busy s. steps_left (pcs s q)) \<le> (\<Sum>q\<in>busy s. 10)"
    by (rule sum_mono) (rule steps_left_le)
  with drains_bound [OF assms(3,2)] show "n \<le> 10 * card {p. pcs s p \<noteq> Idle}" by simp
  have inv: "mu_inv t" "held_inv t"
    using sys_inv_reachable [OF drains_reachable [OF assms(3,1)]] by (simp_all add: sys_inv_def)
  show "(\<forall>p. pcs t p = Idle) \<and> (\<forall>l. held t l = None) \<or> (\<exists>p t'. pcs t p \<noteq> Idle \<and> step p t t')"
  proof (cases "\<forall>p. pcs t p = Idle")
    case True
    with held_invD [OF inv(2)] have "held t l \<noteq> Some p" for l p by (metis holding.simps(5) option.distinct(1))
    with True show ?thesis by (metis not_Some_eq)
  next
    case False
    with busy_moves [OF inv] show ?thesis by blast
  qed
qed

section \<open>Witnesses\<close>

text \<open>Caller 1 in its call for an account, up to the point where it created the customer.\<close>

definition calling :: "string sys" where
  "calling = goto 1 (WantMu ''acme'') (NewStripeCustomers (\<lambda>_. ''''))"

lemma calling_reachable: "reachable (\<lambda>_. '''') calling"
  unfolding calling_def by (rule more [OF start], rule call) (simp add: NewStripeCustomers_def)

definition inside :: "string sys" where
  "inside = \<lparr>mu = None, locks = [''acme'' \<mapsto> 0], fresh = 1, held = (\<lambda>_. None)(0 := Some 1),
     pcs = (\<lambda>_. Idle)(1 := Reading ''acme'' 0), publishedID = (\<lambda>_. ''''), created = (\<lambda>_. 0),
     lost = (\<lambda>_. 0)\<rparr>"

lemma inside_reachable: "reachable (\<lambda>_. '''') inside"
proof -
  define s2 where "s2 = goto 1 (InMu ''acme'') (calling\<lparr>mu := Some 1\<rparr>)"
  define s3 where "s3 = goto 1 (Missing ''acme'') s2"
  define s4 where "s4 = goto 1 (Storing ''acme'' (fresh s3)) (s3\<lparr>fresh := fresh s3 + 1\<rparr>)"
  define s5 where "s5 = goto 1 (LeaveMu ''acme'' 0) (s4\<lparr>locks := (locks s4)(''acme'' \<mapsto> 0)\<rparr>)"
  define s6 where "s6 = goto 1 (WantLock ''acme'' 0) (s5\<lparr>mu := None\<rparr>)"
  note states = s6_def s5_def s4_def s3_def s2_def calling_def NewStripeCustomers_def
  have r2: "reachable (\<lambda>_. '''') s2"
    unfolding s2_def by (rule more [OF calling_reachable], rule mu_lock) (simp_all add: states)
  have r3: "reachable (\<lambda>_. '''') s3"
    unfolding s3_def by (rule more [OF r2], rule lookup_miss) (simp_all add: states)
  have r4: "reachable (\<lambda>_. '''') s4"
    unfolding s4_def by (rule more [OF r3], rule allocate) (simp add: states)
  have r5: "reachable (\<lambda>_. '''') s5"
    unfolding s5_def by (rule more [OF r4], rule store) (simp add: states)
  have r6: "reachable (\<lambda>_. '''') s6"
    unfolding s6_def by (rule more [OF r5], rule mu_unlock) (simp add: states)
  have "inside = goto 1 (Reading ''acme'' 0) (s6\<lparr>held := (held s6)(0 := Some 1)\<rparr>)"
    by (simp add: inside_def states)
  moreover have "step 1 s6 (goto 1 (Reading ''acme'' 0) (s6\<lparr>held := (held s6)(0 := Some 1)\<rparr>))"
    by (rule acquire) (simp_all add: states)
  ultimately show ?thesis using more [OF r6] by metis
qed

theorem one_ensure_per_account_witness:
  "in_critical (pcs inside 1) = Some ''acme'' \<and> (1 :: caller) = 1"
  using one_ensure_per_account [OF inside_reachable, of 1 "''acme''" 1 0] by (simp add: inside_def)

theorem created_bounded_witness: "created inside ''acme'' \<le> lost inside ''acme'' + 1"
  using created_bounded [OF inside_reachable] by blast

lemma published_is_stable_witness:
  "publishedID (goto 1 (WantMu ''acme'') (NewStripeCustomers (\<lambda>_. ''cus_1''))) ''acme'' = ''cus_1''"
proof -
  let ?s = "NewStripeCustomers (\<lambda>_. ''cus_1'') :: string sys"
  have "step 1 ?s (goto 1 (WantMu ''acme'') ?s)" by (rule call) (simp add: NewStripeCustomers_def)
  from published_is_stable [OF start this] show ?thesis by (simp add: NewStripeCustomers_def)
qed

lemma no_deadlock_witness: "\<exists>q s'. pcs calling q \<noteq> Idle \<and> step q calling s'"
  using no_deadlock [OF calling_reachable, of 1] by (simp add: calling_def)

theorem calls_return_witness:
  "\<exists>t. drains 1 calling t \<and> 1 \<le> 10 * card {p. pcs calling p \<noteq> Idle}"
proof -
  have "pcs calling 1 = WantMu ''acme''" "mu calling = None"
    by (simp_all add: calling_def NewStripeCustomers_def)
  then have "step 1 calling (goto 1 (InMu ''acme'') (calling\<lparr>mu := Some 1\<rparr>))" and "pcs calling 1 \<noteq> Idle"
    by (simp_all only: step.mu_lock pc.distinct not_False_eq_True)
  then have d: "drains (Suc 0) calling (goto 1 (InMu ''acme'') (calling\<lparr>mu := Some 1\<rparr>))"
    using drains.work drains.stay by blast
  have "finite {p. pcs calling p \<noteq> Idle}"
    by (rule finite_subset [of _ "{1}"]) (auto simp: calling_def NewStripeCustomers_def split: if_splits)
  from calls_return [OF calling_reachable this d] d show ?thesis by auto
qed

end
