(* ===== verification/PaymentMethods.thy ===== *)
theory PaymentMethods
  imports StripeCustomers Resolver
begin

text \<open>
  \<open>internal/controller/stripepaymentmethod_controller.go\<close>: the reconciler of
  \<open>StripePaymentMethod\<close>. \<open>Reconcile\<close> is one call: the finalizer, the terminal phases, a
  fresh or an expired SetupIntent, the creation of a SetupIntent, and the deletion with its bounded
  number of cleanup attempts. A \<open>result\<close> is an error or the delay after which to call again
  (0 for \<open>ctrl.Result{}\<close>); durations and times are nanoseconds as unbounded integers.
\<close>

section \<open>Constants and state\<close>

type_synonym result = "go_error + gotime"

definition second :: gotime where
  "second = 1000000000"

definition stripePaymentMethodFinalizer :: string where
  "stripePaymentMethodFinalizer = ''stripe.billing.miloapis.com/cleanup''"

definition defaultSetupIntentTTL :: gotime where
  "defaultSetupIntentTTL = 24 * 3600 * second"

definition stripeCleanupMaxAttempts :: int where
  "stripeCleanupMaxAttempts = 12"

definition stripeCleanupBackoff :: gotime where
  "stripeCleanupBackoff = 5 * 60 * second"

definition cleanupAttemptsAnnotation :: string where
  "cleanupAttemptsAnnotation = ''stripe.billing.miloapis.com/cleanup-attempts''"

record spm_reconciler =
  ProviderConfigName :: string
  SetupIntentTTL :: gotime

section \<open>SetupIntent freshness\<close>

definition setupIntentExpired ::
  "'w env \<Rightarrow> setup_intent_status option \<Rightarrow> ('w, bool) prog" where
  "setupIntentExpired E si =
     (case Option.bind si si_ExpiresAt of
        None \<Rightarrow> ret False
      | Some t \<Rightarrow> do {
          now \<leftarrow> ask (clock (os E));
          ret (now > t)
        })"

definition setupIntentNeedsCancel :: "setup_intent_status option \<Rightarrow> bool" where
  "setupIntentNeedsCancel si =
     (case si of
        None \<Rightarrow> False
      | Some i \<Rightarrow>
          (if si_ID i = '''' then False
           else if si_Status i = ''succeeded'' \<or> si_Status i = ''canceled'' then False
           else True))"

definition requeueUntilExpiry ::
  "'w env \<Rightarrow> setup_intent_status option \<Rightarrow> ('w, gotime) prog" where
  "requeueUntilExpiry E si =
     (case Option.bind si si_ExpiresAt of
        None \<Rightarrow> ret defaultSetupIntentTTL
      | Some t \<Rightarrow> do {
          now \<leftarrow> ask (clock (os E));
          let d = t - now;
          ret (if d \<le> 0 then second else d)
        })"

section \<open>The parent PaymentMethod\<close>

definition awaiting_condition :: "lib \<Rightarrow> int \<Rightarrow> condition" where
  "awaiting_condition L g = \<lparr>c_Type = InstrumentReady L, c_Status = ConditionFalse,
     c_ObservedGeneration = g, c_Reason = ''AwaitingConfirmation'',
     c_Message = ''Stripe SetupIntent created; awaiting consumer confirmation.''\<rparr>"

definition ensurePaymentMethodAwaiting :: "'w env \<Rightarrow> spm \<Rightarrow> ('w, go_error option) prog" where
  "ensurePaymentMethodAwaiting E spm = do {
     r \<leftarrow> ask (get_pm (kube E) (Namespace (spm_meta spm), spm_PaymentMethodRef spm));
     case r of
       Inl e \<Rightarrow> ret (Some (WrapError ''getting parent PaymentMethod'' e))
     | Inr pm \<Rightarrow>
         (if pm_Phase pm = PMAwaitingConfirmation \<or> pm_Phase pm = PMActive \<or> pm_Phase pm = PMFailed
          then ret None
          else do {
            let pm' = pm\<lparr>pm_Phase := PMAwaitingConfirmation,
                  pm_Conditions := SetStatusCondition (lib E) (pm_Conditions pm)
                    (awaiting_condition (lib E) (Generation (pm_meta pm)))\<rparr>;
            p \<leftarrow> act (patch_pm_status (kube E) pm pm') (\<lambda>r. PMStatusPatch pm' (\<not> isl r));
            case p of Inl e \<Rightarrow> ret (Some e) | Inr _ \<Rightarrow> ret None
          })
   }"

section \<open>Creating a SetupIntent\<close>

definition setup_intent_condition ::
  "'w surroundings \<Rightarrow> setup_intent_result \<Rightarrow> gotime \<Rightarrow> int \<Rightarrow> condition" where
  "setup_intent_condition rt si expiresAt g = \<lparr>c_Type = ''SetupIntentReady'', c_Status = ConditionTrue,
     c_ObservedGeneration = g, c_Reason = ''ClientSecretAvailable'',
     c_Message = ''Stripe SetupIntent '' @ sir_ID si @ '' created (expires '' @ rfc3339 rt expiresAt
       @ '').''\<rparr>"

text \<open>The condition on the applied tax IDs is the one the \<open>StripeCustomer\<close> gets, with a generation.\<close>

definition awaiting_status ::
  "'w env \<Rightarrow> spm \<Rightarrow> string \<Rightarrow> setup_intent_result \<Rightarrow> gotime \<Rightarrow> go_error option \<Rightarrow> spm_status" where
  "awaiting_status E spm customerID si expiresAt taxErr =
     (let g = Generation (spm_meta spm);
          st = (spm_status spm)\<lparr>Phase := AwaitingConfirmation,
             StripeCustomerID := customerID,
             SetupIntent := Some \<lparr>si_ID = sir_ID si, si_ClientSecret = sir_ClientSecret si,
               si_Status = sir_Status si, si_ExpiresAt = Some expiresAt\<rparr>\<rparr>;
          st = st\<lparr>Conditions := SetStatusCondition (lib E) (Conditions st)
                 (setup_intent_condition (os E) si expiresAt g)\<rparr>;
          st = st\<lparr>Conditions := SetStatusCondition (lib E) (Conditions st)
                 ((tax_ids_condition taxErr)\<lparr>c_ObservedGeneration := g\<rparr>)\<rparr>
      in st\<lparr>ObservedGeneration := g\<rparr>)"

definition publish_status :: "'w env \<Rightarrow> spm \<Rightarrow> spm \<Rightarrow> gotime \<Rightarrow> ('w, result) prog" where
  "publish_status E spm spm' ttl = do {
     p \<leftarrow> act (patch_spm_status (kube E) spm spm') (\<lambda>r. SPMStatusPatch spm' (\<not> isl r));
     case p of
       Inl e \<Rightarrow> ret (Inl (WrapError ''patching StripePaymentMethod status'' e))
     | Inr spm \<Rightarrow> do {
         a \<leftarrow> ensurePaymentMethodAwaiting E spm;
         case a of
           Some e \<Rightarrow> ret (Inl e)
         | None \<Rightarrow> ret (Inr ttl)
       }
   }"

definition setup_intent_ttl :: "spm_reconciler \<Rightarrow> gotime" where
  "setup_intent_ttl rc = (if SetupIntentTTL rc \<le> 0 then defaultSetupIntentTTL else SetupIntentTTL rc)"

definition publishSetupIntent ::
  "'w env \<Rightarrow> spm_reconciler \<Rightarrow> 'w stripe_api \<Rightarrow> spm \<Rightarrow> string \<Rightarrow> go_error option \<Rightarrow> ('w, result) prog" where
  "publishSetupIntent E rc S spm customerID taxErr = do {
     c \<leftarrow> CreateSetupIntent S customerID (Namespace (spm_meta spm)) (Name (spm_meta spm));
     case c of
       Inl e \<Rightarrow> ret (Inl (WrapError ''creating Stripe SetupIntent'' e))
     | Inr si \<Rightarrow> do {
         let ttl = setup_intent_ttl rc;
         now \<leftarrow> ask (clock (os E));
         publish_status E spm
           (spm\<lparr>spm_status := awaiting_status E spm customerID si (now + ttl) taxErr\<rparr>) ttl
       }
   }"

definition reconcileSetupIntent ::
  "'w env \<Rightarrow> spm_reconciler \<Rightarrow> spm \<Rightarrow> ('w, result) prog" where
  "reconcileSetupIntent E rc spm = do {
     let pmKey = (Namespace (spm_meta spm), spm_PaymentMethodRef spm);
     r \<leftarrow> ask (get_pm (kube E) pmKey);
     case r of
       Inl e \<Rightarrow> (if IsNotFound e then ret (Inr 0)
         else ret (Inl (WrapError (''getting parent PaymentMethod '' @ fst pmKey @ ''/'' @ snd pmKey) e)))
     | Inr pm \<Rightarrow> do {
         b \<leftarrow> ask (get_ba (kube E) (Namespace (pm_meta pm), pm_BillingAccountRef pm));
         case b of
           Inl e \<Rightarrow> ret (Inl (WrapError (''getting BillingAccount '' @ quoted (pm_BillingAccountRef pm)) e))
         | Inr ba \<Rightarrow> do {
             g \<leftarrow> ResolveConfig E (ProviderConfigName rc);
             case g of
               Inl e \<Rightarrow> ret (Inl (WrapError ''resolving StripeProviderConfig'' e))
             | Inr cfg \<Rightarrow> do {
                 let S = NewClient E cfg;
                 c \<leftarrow> Ensure E (EnsureCustomer S (os E)) ba;
                 case c of (customerID, err) \<Rightarrow>
                   (case err of
                      None \<Rightarrow> publishSetupIntent E rc S spm customerID None
                    | Some e \<Rightarrow>
                        (if Is_NamespaceTerminating e then ret (Inr 0)
                         else case As_TaxIDError e of
                             Some u \<Rightarrow> publishSetupIntent E rc S spm customerID (Some u)
                           | None \<Rightarrow> ret (Inl (WrapError ''ensuring Stripe customer'' e))))
               }
           }
       }
   }"

section \<open>Deletion\<close>

definition annotation :: "object_meta \<Rightarrow> string \<Rightarrow> string" where
  "annotation m k = (case Option.bind (Annotations m) (\<lambda>a. a k) of None \<Rightarrow> '''' | Some v \<Rightarrow> v)"

definition cleanupAttempts :: "spm \<Rightarrow> int" where
  "cleanupAttempts spm =
     (let v = annotation (spm_meta spm) cleanupAttemptsAnnotation in
      if v = '''' then 0 else Sscanf_d v)"

definition record_attempts :: "object_meta \<Rightarrow> int \<Rightarrow> object_meta" where
  "record_attempts m n =
     m\<lparr>Annotations := Some ((case Annotations m of None \<Rightarrow> Map.empty | Some a \<Rightarrow> a)
         (cleanupAttemptsAnnotation \<mapsto> show_int n))\<rparr>"

text \<open>The cleanup in Stripe: cancel while cancellable, then detach.\<close>

definition detach_upstream :: "'w env \<Rightarrow> spm_reconciler \<Rightarrow> spm \<Rightarrow> ('w, go_error option) prog" where
  "detach_upstream E rc spm = do {
     g \<leftarrow> ResolveConfig E (ProviderConfigName rc);
     case g of
       Inl e \<Rightarrow> ret (Some (WrapError ''resolving StripeProviderConfig'' e))
     | Inr cfg \<Rightarrow> do {
         let S = NewClient E cfg;
         c \<leftarrow> (case SetupIntent (spm_status spm) of
                 None \<Rightarrow> ret None
               | Some si \<Rightarrow> (if setupIntentNeedsCancel (Some si) then CancelSetupIntent S (si_ID si)
                   else ret None));
         case c of
           Some e \<Rightarrow> ret (Some e)
         | None \<Rightarrow> DetachPaymentMethod S (StripePaymentMethodID (spm_status spm))
       }
   }"

definition drop_finalizer :: "lib \<Rightarrow> spm \<Rightarrow> spm" where
  "drop_finalizer L spm = spm\<lparr>spm_meta := RemoveFinalizer L (spm_meta spm) stripePaymentMethodFinalizer\<rparr>"

definition cleanup_incomplete :: "spm \<Rightarrow> int \<Rightarrow> go_error \<Rightarrow> condition" where
  "cleanup_incomplete spm attempts e = \<lparr>c_Type = ''CleanupIncomplete'', c_Status = ConditionTrue,
     c_ObservedGeneration = Generation (spm_meta spm), c_Reason = ''DetachAttemptsExhausted'',
     c_Message = ''Gave up after '' @ show_int attempts @ '' detach attempts: '' @ Error e
       @ ''. PaymentMethod '' @ quoted (StripePaymentMethodID (spm_status spm))
       @ '' may still be attached upstream.''\<rparr>"

definition surrender :: "'w env \<Rightarrow> spm \<Rightarrow> int \<Rightarrow> go_error \<Rightarrow> ('w, result) prog" where
  "surrender E spm attempts detachErr = do {
     let spm' = spm\<lparr>spm_status := (spm_status spm)\<lparr>Conditions := SetStatusCondition (lib E)
           (Conditions (spm_status spm)) (cleanup_incomplete spm attempts detachErr)\<rparr>\<rparr>;
     p \<leftarrow> act (patch_spm_status (kube E) spm spm') (\<lambda>r. SPMStatusPatch spm' (\<not> isl r));
     let spm = drop_finalizer (lib E) (case p of Inl _ \<Rightarrow> spm' | Inr stored \<Rightarrow> stored);
     u \<leftarrow> act (update_spm (kube E) spm) (\<lambda>r. SPMUpdate spm (\<not> isl r));
     case u of
       Inl e \<Rightarrow> ret (Inl (WrapError ''removing finalizer after exhausted attempts'' e))
     | Inr _ \<Rightarrow> ret (Inr 0)
   }"

definition reconcileDelete :: "'w env \<Rightarrow> spm_reconciler \<Rightarrow> spm \<Rightarrow> ('w, result) prog" where
  "reconcileDelete E rc spm =
     (if \<not> ContainsFinalizer (lib E) (spm_meta spm) stripePaymentMethodFinalizer then ret (Inr 0)
      else do {
        let attempts = cleanupAttempts spm;
        d \<leftarrow> detach_upstream E rc spm;
        case d of
          None \<Rightarrow> do {
            let spm = drop_finalizer (lib E) spm;
            u \<leftarrow> act (update_spm (kube E) spm) (\<lambda>r. SPMUpdate spm (\<not> isl r));
            case u of
              Inl e \<Rightarrow> ret (Inl (WrapError ''removing finalizer after detach'' e))
            | Inr _ \<Rightarrow> ret (Inr 0)
          }
        | Some detachErr \<Rightarrow>
            (let attempts = wrap64 (attempts + 1) in
             if attempts \<ge> stripeCleanupMaxAttempts then surrender E spm attempts detachErr
             else do {
               let spm = spm\<lparr>spm_meta := record_attempts (spm_meta spm) attempts\<rparr>;
               u \<leftarrow> act (update_spm (kube E) spm) (\<lambda>r. SPMUpdate spm (\<not> isl r));
               ret (Inr stripeCleanupBackoff)
             })
      })"

section \<open>Reconcile\<close>

definition add_finalizer :: "lib \<Rightarrow> spm \<Rightarrow> spm" where
  "add_finalizer L spm = spm\<lparr>spm_meta := AddFinalizer L (spm_meta spm) stripePaymentMethodFinalizer\<rparr>"

definition cancel_expired :: "'w env \<Rightarrow> spm_reconciler \<Rightarrow> string \<Rightarrow> ('w, unit) prog" where
  "cancel_expired E rc siID = do {
     g \<leftarrow> ResolveConfig E (ProviderConfigName rc);
     case g of
       Inl _ \<Rightarrow> ret ()
     | Inr cfg \<Rightarrow> do {
         _ \<leftarrow> CancelSetupIntent (NewClient E cfg) siID;
         ret ()
       }
   }"

definition reconcile_spm :: "'w env \<Rightarrow> spm_reconciler \<Rightarrow> spm \<Rightarrow> ('w, result) prog" where
  "reconcile_spm E rc spm =
     (if DeletionTimestamp (spm_meta spm) \<noteq> None then reconcileDelete E rc spm
      else if \<not> ContainsFinalizer (lib E) (spm_meta spm) stripePaymentMethodFinalizer then do {
        let spm = add_finalizer (lib E) spm;
        u \<leftarrow> act (update_spm (kube E) spm) (\<lambda>r. SPMUpdate spm (\<not> isl r));
        case u of
          Inl e \<Rightarrow> ret (Inl (WrapError ''adding finalizer'' e))
        | Inr _ \<Rightarrow> ret (Inr 0)
      }
      else if Phase (spm_status spm) = Active \<or> Phase (spm_status spm) = Failed then ret (Inr 0)
      else case SetupIntent (spm_status spm) of
          None \<Rightarrow> reconcileSetupIntent E rc spm
        | Some si \<Rightarrow>
            (if si_ClientSecret si = '''' then reconcileSetupIntent E rc spm
             else do {
               expired \<leftarrow> setupIntentExpired E (Some si);
               if \<not> expired then do {
                 a \<leftarrow> ensurePaymentMethodAwaiting E spm;
                 case a of
                   Some e \<Rightarrow> ret (Inl e)
                 | None \<Rightarrow> do {
                     d \<leftarrow> requeueUntilExpiry E (Some si);
                     ret (Inr d)
                   }
               }
               else do {
                 _ \<leftarrow> cancel_expired E rc (si_ID si);
                 reconcileSetupIntent E rc spm
               }
             }))"

definition Reconcile_StripePaymentMethod :: "'w env \<Rightarrow> spm_reconciler \<Rightarrow> object_key \<Rightarrow> ('w, result) prog" where
  "Reconcile_StripePaymentMethod E rc req = do {
     r \<leftarrow> ask (get_spm (kube E) req);
     case r of
       Inl e \<Rightarrow> (if IsNotFound e then ret (Inr 0) else ret (Inl e))
     | Inr spm \<Rightarrow> reconcile_spm E rc spm
   }"

section \<open>Facts\<close>

text \<open>The effects that are calls of the Stripe API.\<close>

fun is_stripe_effect :: "effect \<Rightarrow> bool" where
  "is_stripe_effect (CustomersNew p r) = True"
| "is_stripe_effect (CustomersUpdate c p ok) = True"
| "is_stripe_effect (TaxIDsNew c t v ok) = True"
| "is_stripe_effect (TaxIDsDel i c ok) = True"
| "is_stripe_effect (SetupIntentsNew p ok) = True"
| "is_stripe_effect (SetupIntentsCancel i ok) = True"
| "is_stripe_effect (PaymentMethodsDetach i ok) = True"
| "is_stripe_effect _ = False"

abbreviation is_release_effect :: "effect \<Rightarrow> bool" where
  "is_release_effect e \<equiv> (\<exists>i ok. e = SetupIntentsCancel i ok \<or> e = PaymentMethodsDetach i ok)"

lemma ensurePaymentMethodAwaiting_emits:
  "emits (\<lambda>e. \<exists>pm ok. e = PMStatusPatch pm ok) (ensurePaymentMethodAwaiting E spm)"
  unfolding ensurePaymentMethodAwaiting_def by (intro effect_rules) auto

lemma setupIntentExpired_emits [effect_rules]: "emits P (setupIntentExpired E si)"
  unfolding setupIntentExpired_def by (intro effect_rules)

lemma requeueUntilExpiry_emits [effect_rules]: "emits P (requeueUntilExpiry E si)"
  unfolding requeueUntilExpiry_def by (intro effect_rules)

lemma detach_upstream_emits: "emits is_release_effect (detach_upstream E rc spm)"
proof -
  have "emits is_release_effect (CancelSetupIntent S i)" for S i
    by (rule emits_mono [OF CancelSetupIntent_emits]) auto
  moreover have "emits is_release_effect (DetachPaymentMethod S i)" for S i
    by (rule emits_mono [OF DetachPaymentMethod_emits]) auto
  ultimately show ?thesis unfolding detach_upstream_def by (intro effect_rules)
qed

lemma finalizer_iff:
  assumes "finalizers_ok L"
  shows "ContainsFinalizer L m f \<longleftrightarrow> f \<in> set (Finalizers m)"
    and "Finalizers (RemoveFinalizer L m f) = filter (\<lambda>g. g \<noteq> f) (Finalizers m)"
  using assms by (simp_all add: finalizers_ok_def)

lemma drop_finalizer_gone:
  "finalizers_ok L \<Longrightarrow> stripePaymentMethodFinalizer \<notin> set (Finalizers (spm_meta (drop_finalizer L spm)))"
  by (simp add: drop_finalizer_def finalizer_iff)

subsection \<open>Reconcile of a live resource\<close>

text \<open>
  A StripePaymentMethod that reached Active or Failed is left alone: no effect, no
  requeue.
\<close>

lemma terminal_phases_sticky:
  assumes "get_spm (kube E) req (world s) = (Inr spm, w)"
    and "DeletionTimestamp (spm_meta spm) = None"
    and "ContainsFinalizer (lib E) (spm_meta spm) stripePaymentMethodFinalizer"
    and "Phase (spm_status spm) \<in> {Active, Failed}"
  shows "run_state (Reconcile_StripePaymentMethod E rc req) s = (Inr 0, s\<lparr>world := w\<rparr>)"
  using assms by (auto simp: Reconcile_StripePaymentMethod_def reconcile_spm_def)

lemma unguarded_effects:
  assumes "\<not> ContainsFinalizer (lib E) (spm_meta spm) stripePaymentMethodFinalizer"
    and "e \<in> set (effects (reconcile_spm E rc spm) s)"
  shows "\<exists>spm' ok. e = SPMUpdate spm' ok"
  using assms by (auto simp: reconcile_spm_def reconcileDelete_def effects_def Let_def
      split: prod.splits sum.splits if_splits)

lemma Reconcile_read:
  assumes "get_spm (kube E) req (world s) = (Inr spm, w)"
  shows "effects (Reconcile_StripePaymentMethod E rc req) s =
    effects (reconcile_spm E rc spm) (s\<lparr>world := w\<rparr>)"
  using assms by (simp add: effects_def Reconcile_StripePaymentMethod_def)

text \<open>
  Nothing is done in Stripe for a resource that does not carry the cleanup finalizer: a
  reconcile that makes any Stripe call read the resource with the finalizer on it, so every SetupIntent
  and payment method the controller creates is guarded by it.
\<close>

lemma finalizer_before_stripe:
  assumes "finalizers_ok (lib E)"
    and "get_spm (kube E) req (world s) = (Inr spm, w)"
    and "e \<in> set (effects (Reconcile_StripePaymentMethod E rc req) s)" and "is_stripe_effect e"
  shows "stripePaymentMethodFinalizer \<in> set (Finalizers (spm_meta spm))"
proof (rule ccontr)
  assume "stripePaymentMethodFinalizer \<notin> set (Finalizers (spm_meta spm))"
  then have "\<not> ContainsFinalizer (lib E) (spm_meta spm) stripePaymentMethodFinalizer"
    by (simp add: finalizer_iff(1) [OF assms(1)])
  from unguarded_effects [OF this] assms(3) Reconcile_read [OF assms(2)] obtain spm' ok
    where "e = SPMUpdate spm' ok" by metis
  with assms(4) show False by simp
qed

text \<open>
  The parent PaymentMethod is only ever moved forward to AwaitingConfirmation: when it is
  patched, the parent just read was in none of AwaitingConfirmation, Active and Failed, and only its
  phase and conditions change.
\<close>

lemma parent_never_demoted:
  assumes "PMStatusPatch pm' ok \<in> set (effects (ensurePaymentMethodAwaiting E spm) s)"
  shows "\<exists>pm w. get_pm (kube E) (Namespace (spm_meta spm), spm_PaymentMethodRef spm) (world s) = (Inr pm, w) \<and>
    pm_Phase pm \<notin> {PMAwaitingConfirmation, PMActive, PMFailed} \<and>
    pm' = pm\<lparr>pm_Phase := PMAwaitingConfirmation, pm_Conditions := pm_Conditions pm'\<rparr>"
  using assms by (auto simp: ensurePaymentMethodAwaiting_def effects_def Let_def
      split: prod.splits sum.splits if_splits)

lemma requeueUntilExpiry_answers:
  fixes E :: "'w env"
  assumes "si_ExpiresAt si = Some t"
  shows "answers (\<lambda>d. \<exists>w. d = (if t \<le> fst (clock (os E) w) then second
      else t - fst (clock (os E) w))) (requeueUntilExpiry E (Some si))"
  unfolding answers_def
proof
  fix s :: "('w, effect) st"
  obtain now w' where "clock (os E) (world s) = (now, w')" by fastforce
  then show "\<exists>w. fst (run_state (requeueUntilExpiry E (Some si)) s) =
      (if t \<le> fst (clock (os E) w) then second else t - fst (clock (os E) w))"
    using assms by (intro exI [of _ "world s"]) (auto simp: requeueUntilExpiry_def Let_def)
qed

text \<open>What a reconcile does while the SetupIntent is fresh.\<close>

lemma fresh_run:
  assumes "get_spm (kube E) req (world s) = (Inr spm, w)"
    and "DeletionTimestamp (spm_meta spm) = None"
    and "ContainsFinalizer (lib E) (spm_meta spm) stripePaymentMethodFinalizer"
    and "Phase (spm_status spm) \<notin> {Active, Failed}"
    and "SetupIntent (spm_status spm) = Some si" and "si_ClientSecret si \<noteq> ''''"
    and "si_ExpiresAt si = Some t" and "clock (os E) w = (now, w')" and "now \<le> t"
  shows "run_state (Reconcile_StripePaymentMethod E rc req) s =
    run_state (do {
      a \<leftarrow> ensurePaymentMethodAwaiting E spm;
      case a of Some e \<Rightarrow> ret (Inl e)
      | None \<Rightarrow> do { d \<leftarrow> requeueUntilExpiry E (Some si); ret (Inr d) } }) (s\<lparr>world := w'\<rparr>)"
  using assms by (simp add: Reconcile_StripePaymentMethod_def reconcile_spm_def setupIntentExpired_def)

text \<open>
  While the SetupIntent is fresh (the clock has not passed its expiry), a reconcile
  makes no Stripe call, so no second SetupIntent and no second client secret appear; its only effects
  are patches of the parent PaymentMethod, and when it succeeds it asks to be called again after a
  positive delay: at the expiry by the clock's last reading, or after the minimum of one second.
\<close>

lemma fresh_setup_intent_kept:
  assumes "get_spm (kube E) req (world s) = (Inr spm, w)"
    and "DeletionTimestamp (spm_meta spm) = None"
    and "ContainsFinalizer (lib E) (spm_meta spm) stripePaymentMethodFinalizer"
    and "Phase (spm_status spm) \<notin> {Active, Failed}"
    and "SetupIntent (spm_status spm) = Some si" and "si_ClientSecret si \<noteq> ''''"
    and "si_ExpiresAt si = Some t" and "clock (os E) w = (now, w')" and "now \<le> t"
  shows "list_all (\<lambda>e. \<exists>pm ok. e = PMStatusPatch pm ok)
      (effects (Reconcile_StripePaymentMethod E rc req) s) \<and>
    (case fst (run_state (Reconcile_StripePaymentMethod E rc req) s) of
       Inl e \<Rightarrow> True
     | Inr d \<Rightarrow> 0 < d \<and> (d = second \<or> (\<exists>w1. d = t - fst (clock (os E) w1))))"
proof -
  let ?k = "do {
      a \<leftarrow> ensurePaymentMethodAwaiting E spm;
      case a of Some e \<Rightarrow> ret (Inl e)
      | None \<Rightarrow> do { d \<leftarrow> requeueUntilExpiry E (Some si); ret (Inr d) } }"
  have run: "run_state (Reconcile_StripePaymentMethod E rc req) s = run_state ?k (s\<lparr>world := w'\<rparr>)"
    by (rule fresh_run [OF assms])
  have "emits (\<lambda>e. \<exists>pm ok. e = PMStatusPatch pm ok) ?k"
    by (intro effect_rules ensurePaymentMethodAwaiting_emits)
  from emits_effects [OF this, of "s\<lparr>world := w'\<rparr>"]
  have "list_all (\<lambda>e. \<exists>pm ok. e = PMStatusPatch pm ok) (effects (Reconcile_StripePaymentMethod E rc req) s)"
    by (simp add: effects_def run)
  moreover have "answers (\<lambda>r. case r of Inl e \<Rightarrow> True
     | Inr d \<Rightarrow> 0 < d \<and> (d = second \<or> (\<exists>w1. d = t - fst (clock (os E) w1)))) ?k"
    by (intro answer_rules)
      (auto simp: second_def dest!: answersD [OF requeueUntilExpiry_answers [OF assms(7)]] split: if_splits)
  ultimately show ?thesis unfolding run answers_def by blast
qed

subsection \<open>Creation of a SetupIntent\<close>

lemma awaiting_status_fields:
  assumes "conditions_ok (lib E)"
  shows "Phase (awaiting_status E spm c si t taxErr) = AwaitingConfirmation \<and>
    StripeCustomerID (awaiting_status E spm c si t taxErr) = c \<and>
    SetupIntent (awaiting_status E spm c si t taxErr) = Some \<lparr>si_ID = sir_ID si,
      si_ClientSecret = sir_ClientSecret si, si_Status = sir_Status si, si_ExpiresAt = Some t\<rparr> \<and>
    (\<exists>d. find_condition (Conditions (awaiting_status E spm c si t taxErr))
        StripeCustomerConditionTaxIDsApplied = Some d \<and>
      c_Status d = (if taxErr = None then ConditionTrue else ConditionFalse))"
  by (simp add: awaiting_status_def Let_def find_SetStatusCondition [OF assms])

text \<open>A run of \<open>publishSetupIntent\<close> only creates one SetupIntent, for this resource.\<close>

abbreviation publish_effect :: "spm \<Rightarrow> string \<Rightarrow> effect \<Rightarrow> bool" where
  "publish_effect spm c e \<equiv>
     (\<exists>ok. e = SetupIntentsNew (setup_intent_params_for c (Namespace (spm_meta spm))
        (Name (spm_meta spm))) ok \<and> c \<noteq> '''') \<or>
     (\<exists>spm' ok. e = SPMStatusPatch spm' ok) \<or> (\<exists>pm ok. e = PMStatusPatch pm ok)"

lemma publish_status_emits: "emits (publish_effect spm c) (publish_status E spm0 spm' ttl)"
proof -
  have "emits (publish_effect spm c) (ensurePaymentMethodAwaiting E spm1)" for spm1
    by (rule emits_mono [OF ensurePaymentMethodAwaiting_emits]) simp
  then show ?thesis unfolding publish_status_def by (intro effect_rules) auto
qed

lemma publishSetupIntent_emits: "emits (publish_effect spm c) (publishSetupIntent E rc S spm c taxErr)"
proof -
  have "emits (publish_effect spm c) (CreateSetupIntent S c (Namespace (spm_meta spm)) (Name (spm_meta spm)))"
    by (rule emits_mono [OF CreateSetupIntent_emits]) simp
  then show ?thesis unfolding publishSetupIntent_def by (intro effect_rules publish_status_emits)
qed

lemma publish_status_effects:
  "\<exists>ok es. effects (publish_status E spm spm' ttl) s = SPMStatusPatch spm' ok # es \<and>
    list_all (\<lambda>e. \<exists>pm ok. e = PMStatusPatch pm ok) es"
proof -
  obtain r w where r: "patch_spm_status (kube E) spm spm' (world s) = (r, w)" by fastforce
  define k where "k = (case r of Inl e \<Rightarrow> ret (Inl (WrapError ''patching StripePaymentMethod status'' e))
     | Inr spm \<Rightarrow> do {
         a \<leftarrow> ensurePaymentMethodAwaiting E spm;
         case a of Some e \<Rightarrow> ret (Inl e) | None \<Rightarrow> ret (Inr ttl) })"
  let ?s1 = "s\<lparr>world := w, trace := trace s @ [SPMStatusPatch spm' (\<not> isl r)]\<rparr>"
  have run: "run_state (publish_status E spm spm' ttl) s = run_state k ?s1"
    using r by (simp add: publish_status_def k_def)
  have "emits (\<lambda>e. \<exists>pm ok. e = PMStatusPatch pm ok) k"
    unfolding k_def by (intro effect_rules ensurePaymentMethodAwaiting_emits)
  from emits_trace [OF this, of ?s1] emits_effects [OF this, of ?s1]
  have "effects (publish_status E spm spm' ttl) s = SPMStatusPatch spm' (\<not> isl r) # effects k ?s1"
    and "list_all (\<lambda>e. \<exists>pm ok. e = PMStatusPatch pm ok) (effects k ?s1)"
    by (intro effects_eqI, simp_all add: run)
  then show ?thesis by blast
qed

lemma publishSetupIntent_run:
  assumes "c \<noteq> ''''"
    and "setup_intents_new S (setup_intent_params_for c (Namespace (spm_meta spm)) (Name (spm_meta spm)))
      (world s) = (Inr si, w1)"
    and "clock (os E) w1 = (now, w2)"
  shows "\<exists>ok es. effects (publishSetupIntent E rc S spm c taxErr) s =
      SetupIntentsNew (setup_intent_params_for c (Namespace (spm_meta spm)) (Name (spm_meta spm))) True #
      SPMStatusPatch (spm\<lparr>spm_status := awaiting_status E spm c \<lparr>sir_ID = ssi_ID si,
        sir_ClientSecret = ssi_ClientSecret si, sir_Status = ssi_Status si, sir_ExpiresAt = None\<rparr>
        (now + setup_intent_ttl rc) taxErr\<rparr>) ok # es"
proof -
  let ?p = "setup_intent_params_for c (Namespace (spm_meta spm)) (Name (spm_meta spm))"
  let ?si = "\<lparr>sir_ID = ssi_ID si, sir_ClientSecret = ssi_ClientSecret si, sir_Status = ssi_Status si, sir_ExpiresAt = None\<rparr>"
  let ?spm' = "spm\<lparr>spm_status := awaiting_status E spm c ?si (now + setup_intent_ttl rc) taxErr\<rparr>"
  let ?s2 = "s\<lparr>trace := trace s @ [SetupIntentsNew ?p True], world := w2\<rparr>"
  have create: "run_state (CreateSetupIntent S c (Namespace (spm_meta spm)) (Name (spm_meta spm))) s =
      (Inr ?si, s\<lparr>world := w1, trace := trace s @ [SetupIntentsNew ?p True]\<rparr>)"
    using assms by (simp add: CreateSetupIntent_def Let_def)
  have run: "run_state (publishSetupIntent E rc S spm c taxErr) s =
      run_state (publish_status E spm ?spm' (setup_intent_ttl rc)) ?s2"
    using assms(3) create by (simp add: publishSetupIntent_def Let_def)
  obtain ok es where es: "effects (publish_status E spm ?spm' (setup_intent_ttl rc)) ?s2 =
      SPMStatusPatch ?spm' ok # es" using publish_status_effects by blast
  from emits_trace [OF publish_status_emits, of E spm ?spm' "setup_intent_ttl rc" ?s2] have
    "effects (publishSetupIntent E rc S spm c taxErr) s = SetupIntentsNew ?p True # SPMStatusPatch ?spm' ok # es"
    by (intro effects_eqI) (simp add: run es)
  then show ?thesis by blast
qed

lemma reconcileSetupIntent_run:
  assumes "get_pm (kube E) (Namespace (spm_meta spm), spm_PaymentMethodRef spm) (world s) = (Inr pm, w1)"
    and "get_ba (kube E) (Namespace (pm_meta pm), pm_BillingAccountRef pm) w1 = (Inr ba, w2)"
    and "run_state (ResolveConfig E (ProviderConfigName rc)) (s\<lparr>world := w2\<rparr>) = (Inr cfg, s3)"
    and "run_state (Ensure E (EnsureCustomer (NewClient E cfg) (os E)) ba) s3 = ((c, err), s4)"
    and "case err of None \<Rightarrow> taxErr = None
      | Some e \<Rightarrow> \<not> Is_NamespaceTerminating e \<and> As_TaxIDError e = taxErr \<and> taxErr \<noteq> None"
  shows "run_state (reconcileSetupIntent E rc spm) s =
    run_state (publishSetupIntent E rc (NewClient E cfg) spm c taxErr) s4"
  using assms by (auto simp: reconcileSetupIntent_def Let_def split: option.splits)

text \<open>The calls of \<open>Ensure\<close>: on the account's StripeCustomer, its customer and its tax IDs.\<close>

definition is_ensure_effect :: "effect \<Rightarrow> bool" where
  "is_ensure_effect e \<longleftrightarrow> is_sc_effect e \<or> creates_customer e \<or>
     (\<exists>c p ok. e = CustomersUpdate c p ok) \<or> (\<exists>c. is_tax_effect c e)"

lemma EnsureCustomer_emits: "emits is_ensure_effect (EnsureCustomer S rt existing a d)"
proof -
  have "emits is_ensure_effect (with_tax_ids S rt c txs)" for c txs
    by (rule emits_mono [OF with_tax_ids_emits]) (auto simp: is_ensure_effect_def)
  then show ?thesis
    unfolding EnsureCustomer_def by (intro effect_rules) (auto simp: is_ensure_effect_def)
qed

lemma Ensure_emits: "emits is_ensure_effect (Ensure E (EnsureCustomer S rt) ba)"
proof -
  have status: "emits is_ensure_effect (record_failure E sc c e)"
    "emits is_ensure_effect (record_synced E sc c e' t)"
    "emits is_ensure_effect (getOrCreate E ba)" for sc c e e' t
    by (rule emits_mono [OF record_failure_emits] emits_mono [OF record_synced_emits]
        emits_mono [OF getOrCreate_emits]; auto simp: is_ensure_effect_def)+
  then show ?thesis
    unfolding Ensure_def known_customer_id_def findExistingCustomerID_def sync_customer_def
    by (intro effect_rules EnsureCustomer_emits) auto
qed


lemma reconcileSetupIntent_effects:
  assumes "get_pm (kube E) (Namespace (spm_meta spm), spm_PaymentMethodRef spm) (world s) = (Inr pm, w1)"
    and "get_ba (kube E) (Namespace (pm_meta pm), pm_BillingAccountRef pm) w1 = (Inr ba, w2)"
    and "run_state (ResolveConfig E (ProviderConfigName rc)) (s\<lparr>world := w2\<rparr>) = (Inr cfg, s3)"
    and "run_state (Ensure E (EnsureCustomer (NewClient E cfg) (os E)) ba) s3 = ((c, err), s4)"
    and "case err of None \<Rightarrow> taxErr = None
      | Some e \<Rightarrow> \<not> Is_NamespaceTerminating e \<and> As_TaxIDError e = taxErr \<and> taxErr \<noteq> None"
    and "c \<noteq> ''''"
    and "setup_intents_new (NewClient E cfg) (setup_intent_params_for c (Namespace (spm_meta spm))
      (Name (spm_meta spm))) (world s4) = (Inr si, w5)"
    and "clock (os E) w5 = (now, w6)"
  shows "\<exists>es0 ok es1. effects (reconcileSetupIntent E rc spm) s = es0 @
     SetupIntentsNew (setup_intent_params_for c (Namespace (spm_meta spm)) (Name (spm_meta spm))) True #
     SPMStatusPatch (spm\<lparr>spm_status := awaiting_status E spm c \<lparr>sir_ID = ssi_ID si,
        sir_ClientSecret = ssi_ClientSecret si, sir_Status = ssi_Status si, sir_ExpiresAt = None\<rparr>
        (now + setup_intent_ttl rc) taxErr\<rparr>) ok # es1"
proof -
  let ?m = "publishSetupIntent E rc (NewClient E cfg) spm c taxErr"
  let ?si = "\<lparr>sir_ID = ssi_ID si, sir_ClientSecret = ssi_ClientSecret si, sir_Status = ssi_Status si, sir_ExpiresAt = None\<rparr>"
  let ?spm' = "spm\<lparr>spm_status := awaiting_status E spm c ?si (now + setup_intent_ttl rc) taxErr\<rparr>"
  have run: "run_state (reconcileSetupIntent E rc spm) s = run_state ?m s4"
    by (rule reconcileSetupIntent_run [OF assms(1-5)])
  obtain ok es where es: "effects ?m s4 = SetupIntentsNew (setup_intent_params_for c
      (Namespace (spm_meta spm)) (Name (spm_meta spm))) True # SPMStatusPatch ?spm' ok # es"
    using publishSetupIntent_run [OF assms(6-8)] by blast
  obtain es0 where "trace s3 = trace s @ es0"
    using emits_run [OF ResolveConfig_emits assms(3)] by auto
  moreover obtain es1 where "trace s4 = trace s3 @ es1"
    using emits_run [OF Ensure_emits assms(4)] by auto
  moreover have "trace (snd (run_state ?m s4)) = trace s4 @ effects ?m s4"
    by (rule emits_trace [OF publishSetupIntent_emits])
  ultimately have "effects (reconcileSetupIntent E rc spm) s = es0 @ es1 @ effects ?m s4"
    by (intro effects_eqI) (simp add: run)
  then show ?thesis unfolding es by (metis append.assoc)
qed

text \<open>
  A tax ID that Stripe rejects does not hold up the payment method: whenever Ensure
  answers with a usable customer (no error, or a tax ID error that is not a terminating namespace) and
  Stripe creates the SetupIntent, the resource is moved to AwaitingConfirmation with that customer,
  the SetupIntent's ID and client secret and an expiry of the clock's reading plus the TTL, and its
  TaxIDsApplied condition says whether the tax IDs were applied.
\<close>

lemma tax_error_does_not_block:
  assumes "conditions_ok (lib E)"
    and "get_pm (kube E) (Namespace (spm_meta spm), spm_PaymentMethodRef spm) (world s) = (Inr pm, w1)"
    and "get_ba (kube E) (Namespace (pm_meta pm), pm_BillingAccountRef pm) w1 = (Inr ba, w2)"
    and "run_state (ResolveConfig E (ProviderConfigName rc)) (s\<lparr>world := w2\<rparr>) = (Inr cfg, s3)"
    and "run_state (Ensure E (EnsureCustomer (NewClient E cfg) (os E)) ba) s3 = ((c, err), s4)"
    and "case err of None \<Rightarrow> taxErr = None
      | Some e \<Rightarrow> \<not> Is_NamespaceTerminating e \<and> As_TaxIDError e = taxErr \<and> taxErr \<noteq> None"
    and "c \<noteq> ''''"
    and "setup_intents_new (NewClient E cfg) (setup_intent_params_for c (Namespace (spm_meta spm))
      (Name (spm_meta spm))) (world s4) = (Inr si, w5)"
    and "clock (os E) w5 = (now, w6)"
  shows "\<exists>spm' ok. SPMStatusPatch spm' ok \<in> set (effects (reconcileSetupIntent E rc spm) s) \<and>
    spm_meta spm' = spm_meta spm \<and> Phase (spm_status spm') = AwaitingConfirmation \<and>
    StripeCustomerID (spm_status spm') = c \<and>
    SetupIntent (spm_status spm') = Some \<lparr>si_ID = ssi_ID si, si_ClientSecret = ssi_ClientSecret si,
      si_Status = ssi_Status si, si_ExpiresAt = Some (now + setup_intent_ttl rc)\<rparr> \<and>
    (\<exists>d. find_condition (Conditions (spm_status spm')) StripeCustomerConditionTaxIDsApplied = Some d \<and>
      (c_Status d = ConditionTrue \<longleftrightarrow> err = None))"
proof -
  let ?si = "\<lparr>sir_ID = ssi_ID si, sir_ClientSecret = ssi_ClientSecret si, sir_Status = ssi_Status si, sir_ExpiresAt = None\<rparr>"
  let ?spm' = "spm\<lparr>spm_status := awaiting_status E spm c ?si (now + setup_intent_ttl rc) taxErr\<rparr>"
  obtain es0 ok es1 where "effects (reconcileSetupIntent E rc spm) s = es0 @
      SetupIntentsNew (setup_intent_params_for c (Namespace (spm_meta spm)) (Name (spm_meta spm))) True #
      SPMStatusPatch ?spm' ok # es1"
    using reconcileSetupIntent_effects [OF assms(2-9)] by blast
  then have "SPMStatusPatch ?spm' ok \<in> set (effects (reconcileSetupIntent E rc spm) s)" by simp
  moreover have "err = None \<longleftrightarrow> taxErr = None" using assms(6) by (auto split: option.splits)
  ultimately show ?thesis
    using awaiting_status_fields [OF assms(1), of spm c ?si "now + setup_intent_ttl rc" taxErr]
    by (intro exI [of _ ?spm'] exI [of _ ok]) (auto simp del: not_None_eq split: if_splits)
qed

abbreviation stamped :: "spm \<Rightarrow> effect \<Rightarrow> bool" where
  "stamped spm e \<equiv> (\<forall>p ok. e = SetupIntentsNew p ok \<longrightarrow>
     (\<exists>c. c \<noteq> '''' \<and> p = setup_intent_params_for c (Namespace (spm_meta spm)) (Name (spm_meta spm))))"

lemma reconcileSetupIntent_stamped: "emits (stamped spm) (reconcileSetupIntent E rc spm)"
proof -
  have "emits (stamped spm) (Ensure E (EnsureCustomer S rt) ba)" for S rt ba
    by (rule emits_mono [OF Ensure_emits])
      (auto simp: is_ensure_effect_def is_sc_effect_def creates_customer_def is_tax_effect_def)
  moreover have "emits (stamped spm) (publishSetupIntent E rc S spm c t)" for S c t
    by (rule emits_mono [OF publishSetupIntent_emits]) auto
  ultimately show ?thesis unfolding reconcileSetupIntent_def by (intro effect_rules)
qed

lemma reconcileDelete_emits:
  "emits (\<lambda>e. is_release_effect e \<or> (\<exists>spm' ok. e = SPMUpdate spm' ok \<or> e = SPMStatusPatch spm' ok))
     (reconcileDelete E rc spm)"
proof -
  have "emits (\<lambda>e. is_release_effect e \<or> (\<exists>spm' ok. e = SPMUpdate spm' ok \<or> e = SPMStatusPatch spm' ok))
      (detach_upstream E rc spm)"
    by (rule emits_mono [OF detach_upstream_emits]) auto
  then show ?thesis unfolding reconcileDelete_def surrender_def by (intro effect_rules) auto
qed

lemma reconcile_spm_stamped: "emits (stamped spm) (reconcile_spm E rc spm)"
proof -
  have "emits (stamped spm) (reconcileDelete E rc spm)"
    by (rule emits_mono [OF reconcileDelete_emits]) auto
  moreover have "emits (stamped spm) (cancel_expired E rc i)" for i
    unfolding cancel_expired_def
    by (intro effect_rules emits_mono [OF CancelSetupIntent_emits]) auto
  moreover have "emits (stamped spm) (ensurePaymentMethodAwaiting E spm)"
    by (rule emits_mono [OF ensurePaymentMethodAwaiting_emits]) auto
  ultimately show ?thesis
    unfolding reconcile_spm_def by (intro effect_rules reconcileSetupIntent_stamped) auto
qed

text \<open>
  Every SetupIntent the controller creates belongs to a customer and is stamped with the
  namespace and name of the resource being reconciled, which is how the webhook finds its way back.
\<close>

lemma setup_intents_stamped:
  assumes "get_spm (kube E) req (world s) = (Inr spm, w)"
    and "SetupIntentsNew p ok \<in> set (effects (Reconcile_StripePaymentMethod E rc req) s)"
  shows "\<exists>c. c \<noteq> '''' \<and> sip_Customer p = c \<and>
    sip_Metadata p ''stripe_payment_method_namespace'' = Some (Namespace (spm_meta spm)) \<and>
    sip_Metadata p ''stripe_payment_method_name'' = Some (Name (spm_meta spm))"
  using emitsD [OF reconcile_spm_stamped assms(2) [unfolded Reconcile_read [OF assms(1)]]]
  by (auto simp: setup_intent_params_for_def)

subsection \<open>Deletion\<close>

lemma cleanup_attempts_recorded:
  assumes "- (2 ^ 63) \<le> n" and "n < 2 ^ 63"
  shows "cleanupAttempts (spm\<lparr>spm_meta := record_attempts m n\<rparr>) = n"
proof -
  have "show_int n \<noteq> ''''" using show_int_head [of n] by (metis list.distinct(1))
  then show ?thesis
    by (simp add: cleanupAttempts_def annotation_def record_attempts_def Sscanf_d_show_int [OF assms])
qed

text \<open>
  The attempt counter survives between reconciles: what a failed attempt writes into
  the annotation with \<open>%d\<close>, the next reconcile scans back, for every value of a 64-bit \<open>int\<close>,
  and no other annotation changes.
\<close>

lemma cleanupAttempts_roundtrip:
  assumes "- (2 ^ 63) \<le> n" and "n < 2 ^ 63"
  shows "cleanupAttempts (spm\<lparr>spm_meta := record_attempts m n\<rparr>) = n \<and>
    (k \<noteq> cleanupAttemptsAnnotation \<longrightarrow> annotation (record_attempts m n) k = annotation m k)"
  using cleanup_attempts_recorded [OF assms]
  by (auto simp: annotation_def record_attempts_def split: option.split)

text \<open>What the cleanup leaves undone when it reports no error: nothing.\<close>

definition cancelled :: "string \<Rightarrow> effect \<Rightarrow> bool" where
  "cancelled i e \<longleftrightarrow> (\<exists>r. e = SetupIntentsCancel i r \<and> (r = None \<or> (\<exists>err. r = Some err \<and>
     stripe_error_code err \<in> {Some ResourceMissing, Some SetupIntentUnexpectedState})))"

definition detached :: "string \<Rightarrow> effect \<Rightarrow> bool" where
  "detached i e \<longleftrightarrow> (\<exists>r. e = PaymentMethodsDetach i r \<and> (r = None \<or> (\<exists>err. r = Some err \<and>
     stripe_error_code err = Some ResourceMissing)))"

lemma Cancel_done:
  "run_state (CancelSetupIntent S i) s = (None, s') \<Longrightarrow> i \<noteq> '''' \<Longrightarrow>
   \<exists>e. trace s' = trace s @ [e] \<and> cancelled i e"
  by (auto simp: CancelSetupIntent_def cancelled_def split: prod.splits sum.splits if_splits)

lemma Detach_done:
  "run_state (DetachPaymentMethod S i) s = (None, s') \<Longrightarrow>
   i = '''' \<and> s' = s \<or> (\<exists>e. trace s' = trace s @ [e] \<and> detached i e)"
  by (auto simp: DetachPaymentMethod_def detached_def split: prod.splits sum.splits if_splits)

definition released :: "spm \<Rightarrow> effect list \<Rightarrow> bool" where
  "released spm es \<longleftrightarrow>
     (\<forall>si. SetupIntent (spm_status spm) = Some si \<and> setupIntentNeedsCancel (Some si) \<longrightarrow>
        (\<exists>e \<in> set es. cancelled (si_ID si) e)) \<and>
     (StripePaymentMethodID (spm_status spm) \<noteq> '''' \<longrightarrow>
        (\<exists>e \<in> set es. detached (StripePaymentMethodID (spm_status spm)) e))"

lemma needs_cancel_id: "setupIntentNeedsCancel (Some si) \<Longrightarrow> si_ID si \<noteq> ''''"
  by (auto simp: setupIntentNeedsCancel_def split: if_splits)

lemma detach_upstream_released:
  assumes "run_state (detach_upstream E rc spm) s = (None, s')"
  shows "\<exists>es. trace s' = trace s @ es \<and> released spm es"
proof -
  let ?c = "\<lambda>S. case SetupIntent (spm_status spm) of None \<Rightarrow> ret None
      | Some si \<Rightarrow> (if setupIntentNeedsCancel (Some si) then CancelSetupIntent S (si_ID si) else ret None)"
  obtain cfg s1 where cfg: "run_state (ResolveConfig E (ProviderConfigName rc)) s = (Inr cfg, s1)"
    using assms by (auto simp: detach_upstream_def split: prod.splits sum.splits)
  obtain s2 where cancel: "run_state (?c (NewClient E cfg)) s1 = (None, s2)"
    and detach: "run_state (DetachPaymentMethod (NewClient E cfg) (StripePaymentMethodID (spm_status spm))) s2
      = (None, s')"
    using assms cfg by (auto simp: detach_upstream_def Let_def split: prod.splits option.splits)
  obtain es1 where es1: "trace s2 = trace s1 @ es1"
    "\<forall>si. SetupIntent (spm_status spm) = Some si \<and> setupIntentNeedsCancel (Some si) \<longrightarrow>
        (\<exists>e \<in> set es1. cancelled (si_ID si) e)"
    using cancel by (auto dest!: Cancel_done needs_cancel_id split: option.splits if_splits)
  obtain es2 where es2: "trace s' = trace s2 @ es2" "StripePaymentMethodID (spm_status spm) \<noteq> '''' \<longrightarrow>
        (\<exists>e \<in> set es2. detached (StripePaymentMethodID (spm_status spm)) e)"
    using Detach_done [OF detach] by auto
  obtain es0 where "trace s1 = trace s @ es0"
    using emits_run [OF ResolveConfig_emits cfg] by auto
  with es1 es2 show ?thesis
    by (intro exI [of _ "es0 @ es1 @ es2"]) (auto simp: released_def)
qed

definition incomplete_status :: "lib \<Rightarrow> spm \<Rightarrow> int \<Rightarrow> go_error \<Rightarrow> spm" where
  "incomplete_status L spm attempts e = spm\<lparr>spm_status := (spm_status spm)\<lparr>Conditions :=
     SetStatusCondition L (Conditions (spm_status spm)) (cleanup_incomplete spm attempts e)\<rparr>\<rparr>"

definition updates_succeed :: "'w kube \<Rightarrow> bool" where
  "updates_succeed K \<longleftrightarrow> (\<forall>x w. \<not> isl (fst (update_spm K x w)))"

text \<open>
  What surrendering writes: the condition first, then the object as it is after that patch, be it the
  stored one or, after a failed patch, the one in memory, without the finalizer.
\<close>

definition surrendered :: "'w env \<Rightarrow> spm \<Rightarrow> int \<Rightarrow> go_error \<Rightarrow> effect list \<Rightarrow> bool" where
  "surrendered E spm n e es \<longleftrightarrow>
     (let x = incomplete_status (lib E) spm n e in
      \<exists>w r w' ok. patch_spm_status (kube E) spm x w = (r, w') \<and>
        es = [SPMStatusPatch x (\<not> isl r),
          SPMUpdate (drop_finalizer (lib E) (case r of Inl _ \<Rightarrow> x | Inr stored \<Rightarrow> stored)) ok] \<and>
        (updates_succeed (kube E) \<longrightarrow> ok))"

lemma surrender_effects: "surrendered E spm n e (effects (surrender E spm n e) s)"
proof -
  let ?spm' = "incomplete_status (lib E) spm n e"
  obtain r w where r: "patch_spm_status (kube E) spm ?spm' (world s) = (r, w)" by fastforce
  define stored where "stored = (case r of Inl _ \<Rightarrow> ?spm' | Inr x \<Rightarrow> x)"
  obtain u w' where u: "update_spm (kube E) (drop_finalizer (lib E) stored) w = (u, w')" by fastforce
  have "trace (snd (run_state (surrender E spm n e) s)) = trace s @
      [SPMStatusPatch ?spm' (\<not> isl r), SPMUpdate (drop_finalizer (lib E) stored) (\<not> isl u)]"
    using r u unfolding surrender_def
    by (simp add: Let_def incomplete_status_def [symmetric] stored_def [symmetric] split: sum.split)
  then have "effects (surrender E spm n e) s =
      [SPMStatusPatch ?spm' (\<not> isl r), SPMUpdate (drop_finalizer (lib E) stored) (\<not> isl u)]"
    by (intro effects_eqI)
  moreover have "updates_succeed (kube E) \<longrightarrow> \<not> isl u"
    using u unfolding updates_succeed_def by (metis fst_conv)
  ultimately show ?thesis using r unfolding surrendered_def Let_def stored_def by blast
qed

lemma update_effects:
  "\<exists>ok. effects (State_Monad.bind (act (update_spm (kube E) x) (\<lambda>r. SPMUpdate x (\<not> isl r)))
      (\<lambda>u. ret (f u))) s = [SPMUpdate x ok] \<and> (updates_succeed (kube E) \<longrightarrow> ok)"
proof -
  obtain u w where u: "update_spm (kube E) x (world s) = (u, w)" by fastforce
  then have "updates_succeed (kube E) \<longrightarrow> \<not> isl u"
    unfolding updates_succeed_def by (metis fst_conv)
  moreover have "effects (State_Monad.bind (act (update_spm (kube E) x) (\<lambda>r. SPMUpdate x (\<not> isl r)))
      (\<lambda>u. ret (f u))) s = [SPMUpdate x (\<not> isl u)]"
    using u by (intro effects_eqI) simp
  ultimately show ?thesis by blast
qed

text \<open>The three ways a deletion ends: cleaned up, surrendered, or to be retried.\<close>

definition deletion_writes :: "'w env \<Rightarrow> spm \<Rightarrow> go_error option \<Rightarrow> effect list \<Rightarrow> bool" where
  "deletion_writes E spm d es \<longleftrightarrow>
     (case d of
        None \<Rightarrow> \<exists>ok. es = [SPMUpdate (drop_finalizer (lib E) spm) ok] \<and> (updates_succeed (kube E) \<longrightarrow> ok)
      | Some e \<Rightarrow>
          let n = wrap64 (cleanupAttempts spm + 1) in
          if stripeCleanupMaxAttempts \<le> n
          then surrendered E spm n e es
          else \<exists>ok. es = [SPMUpdate (spm\<lparr>spm_meta := record_attempts (spm_meta spm) n\<rparr>) ok] \<and>
            (updates_succeed (kube E) \<longrightarrow> ok))"

lemma reconcileDelete_effects:
  assumes "ContainsFinalizer (lib E) (spm_meta spm) stripePaymentMethodFinalizer"
    and "run_state (detach_upstream E rc spm) s = (d, s1)" and "trace s1 = trace s @ es1"
  shows "\<exists>es2. effects (reconcileDelete E rc spm) s = es1 @ es2 \<and> deletion_writes E spm d es2"
proof -
  let ?n = "wrap64 (cleanupAttempts spm + 1)"
  let ?retry = "spm\<lparr>spm_meta := record_attempts (spm_meta spm) ?n\<rparr>"
  let ?dropped = "drop_finalizer (lib E) spm"
  define k where "k = (case d of
      None \<Rightarrow> State_Monad.bind (act (update_spm (kube E) ?dropped) (\<lambda>r. SPMUpdate ?dropped (\<not> isl r)))
        (\<lambda>u. ret (case u of Inl e \<Rightarrow> Inl (WrapError ''removing finalizer after detach'' e) | Inr _ \<Rightarrow> Inr 0))
    | Some e \<Rightarrow> (if stripeCleanupMaxAttempts \<le> ?n then surrender E spm ?n e
        else State_Monad.bind (act (update_spm (kube E) ?retry) (\<lambda>r. SPMUpdate ?retry (\<not> isl r)))
          (\<lambda>u. ret (Inr stripeCleanupBackoff))))"
  have "emits (\<lambda>_. True) k"
    unfolding k_def surrender_def by (intro effect_rules) simp_all
  have run: "trace (snd (run_state (reconcileDelete E rc spm) s)) = trace (snd (run_state k s1))"
    using assms(1,2) unfolding reconcileDelete_def k_def
    by (auto simp: Let_def split: option.split prod.split sum.split)
  have eff: "effects (reconcileDelete E rc spm) s = es1 @ effects k s1"
    using run assms(3) emits_trace [OF \<open>emits (\<lambda>_. True) k\<close>, of s1] by (intro effects_eqI) simp
  show ?thesis
    unfolding eff k_def deletion_writes_def Let_def
    using surrender_effects [of E spm ?n] update_effects [of E]
    by (cases d) auto
qed

lemma incomplete_recorded:
  assumes "conditions_ok L"
  shows "\<exists>c. find_condition (Conditions (spm_status (incomplete_status L spm n e))) ''CleanupIncomplete'' = Some c \<and>
    c_Status c = ConditionTrue"
  by (simp add: incomplete_status_def find_SetStatusCondition [OF assms] cleanup_incomplete_def)

text \<open>What a deletion has done, after the calls to Stripe.\<close>

lemma deletion_effects:
  assumes "ContainsFinalizer (lib E) (spm_meta spm) stripePaymentMethodFinalizer"
  obtains d s1 es1 es2 where "run_state (detach_upstream E rc spm) s = (d, s1)"
    and "trace s1 = trace s @ es1" and "list_all is_release_effect es1"
    and "effects (reconcileDelete E rc spm) s = es1 @ es2" and "deletion_writes E spm d es2"
proof -
  obtain d s1 where d: "run_state (detach_upstream E rc spm) s = (d, s1)" by fastforce
  obtain es1 where es1: "trace s1 = trace s @ es1" "list_all is_release_effect es1"
    using emits_run [OF detach_upstream_emits d] by blast
  from reconcileDelete_effects [OF assms d es1(1)] that [OF d es1] show thesis by blast
qed

lemma last_effect:
  assumes "xs @ [y] = pre @ z # post" and "z \<notin> set xs"
  shows "pre = xs \<and> z = y"
  using assms by (cases post rule: rev_cases) auto

lemma surrendered_ends:
  assumes "surrendered E spm n e es" and "xs @ es = pre @ SPMUpdate spm' ok # post"
    and "\<And>y k. SPMUpdate y k \<notin> set xs" and "conditions_ok (lib E)"
  shows "post = [] \<and> (\<exists>calls x c w r w'. pre = calls @ [SPMStatusPatch x (\<not> isl r)] \<and> spm_meta x = spm_meta spm \<and>
    find_condition (Conditions (spm_status x)) ''CleanupIncomplete'' = Some c \<and> c_Status c = ConditionTrue \<and>
    patch_spm_status (kube E) spm x w = (r, w') \<and>
    spm' = drop_finalizer (lib E) (case r of Inl _ \<Rightarrow> x | Inr stored \<Rightarrow> stored))"
proof -
  let ?x = "incomplete_status (lib E) spm n e"
  obtain w r w' k where r: "patch_spm_status (kube E) spm ?x w = (r, w')"
    and es: "es = [SPMStatusPatch ?x (\<not> isl r),
      SPMUpdate (drop_finalizer (lib E) (case r of Inl _ \<Rightarrow> ?x | Inr stored \<Rightarrow> stored)) k]"
    using assms(1) by (auto simp: surrendered_def Let_def)
  with assms(2) have split: "(xs @ [SPMStatusPatch ?x (\<not> isl r)]) @
      [SPMUpdate (drop_finalizer (lib E) (case r of Inl _ \<Rightarrow> ?x | Inr stored \<Rightarrow> stored)) k] =
      pre @ SPMUpdate spm' ok # post" by simp
  from this last_effect [OF this] assms(3) have "post = []" "pre = xs @ [SPMStatusPatch ?x (\<not> isl r)]"
    "spm' = drop_finalizer (lib E) (case r of Inl _ \<Rightarrow> ?x | Inr stored \<Rightarrow> stored)" by auto
  moreover have "spm_meta ?x = spm_meta spm" by (simp add: incomplete_status_def)
  ultimately show ?thesis using r incomplete_recorded [OF assms(4), of spm n e] by blast
qed

text \<open>
  C9 (safety): a deletion drops the finalizer only at its end, after Stripe has been cleaned up or the
  attempts are exhausted. By the time of an update without the finalizer either the SetupIntent and the
  payment method have been released (cancelled where still cancellable, detached where there is one, or
  Stripe answered that it is already so); or this is the twelfth attempt or a later one, and the call
  just before the update was the status patch that adds the CleanupIncomplete condition to the resource,
  its finalizer still in place: the update then starts from what the API server stored if the patch
  succeeded, and from the object in memory, with the condition, if it failed, which the code tolerates.
\<close>

theorem finalizer_dropped_after_cleanup:
  assumes "finalizers_ok (lib E)" and "conditions_ok (lib E)"
    and "stripePaymentMethodFinalizer \<in> set (Finalizers (spm_meta spm))"
    and "effects (reconcileDelete E rc spm) s = pre @ SPMUpdate spm' ok # post"
    and "stripePaymentMethodFinalizer \<notin> set (Finalizers (spm_meta spm'))"
  shows "post = [] \<and> (released spm pre \<or>
    stripeCleanupMaxAttempts \<le> wrap64 (cleanupAttempts spm + 1) \<and>
    (\<exists>calls x c w r w'. pre = calls @ [SPMStatusPatch x (\<not> isl r)] \<and>
       spm_meta x = spm_meta spm \<and>
       find_condition (Conditions (spm_status x)) ''CleanupIncomplete'' = Some c \<and> c_Status c = ConditionTrue \<and>
       patch_spm_status (kube E) spm x w = (r, w') \<and>
       spm' = drop_finalizer (lib E) (case r of Inl _ \<Rightarrow> x | Inr stored \<Rightarrow> stored)))"
proof -
  let ?n = "wrap64 (cleanupAttempts spm + 1)"
  have has: "ContainsFinalizer (lib E) (spm_meta spm) stripePaymentMethodFinalizer"
    using assms(1,3) by (simp add: finalizer_iff)
  obtain d s1 es1 es2 where d: "run_state (detach_upstream E rc spm) s = (d, s1)"
    and es1: "trace s1 = trace s @ es1" "list_all is_release_effect es1"
    and eff: "effects (reconcileDelete E rc spm) s = es1 @ es2" and es2: "deletion_writes E spm d es2"
    by (rule deletion_effects [OF has])
  have updates: "SPMUpdate y k \<notin> set es1" for y k using es1(2) by (auto simp: list_all_iff)
  note new = updates [of spm' ok]
  show ?thesis
  proof (cases d)
    case None
    with es2 obtain k where "es2 = [SPMUpdate (drop_finalizer (lib E) spm) k]"
      by (auto simp: deletion_writes_def)
    with eff assms(4) new have "es1 @ [SPMUpdate (drop_finalizer (lib E) spm) k] = pre @ SPMUpdate spm' ok # post"
      by simp
    from this last_effect [OF this new] have "pre = es1 \<and> post = []" by simp
    moreover have "released spm es1" using None d detach_upstream_released [of E rc spm s s1] es1(1) by auto
    ultimately show ?thesis by simp
  next
    case (Some e)
    show ?thesis
    proof (cases "stripeCleanupMaxAttempts \<le> ?n")
      case True
      with es2 Some have "surrendered E spm ?n e es2" by (simp add: deletion_writes_def)
      from surrendered_ends [OF this assms(4) [unfolded eff] updates assms(2)] True show ?thesis by blast
    next
      case False
      with es2 Some assms(4) eff new
      have "spm' = spm\<lparr>spm_meta := record_attempts (spm_meta spm) ?n\<rparr>"
        by (auto simp: deletion_writes_def append_eq_append_conv2 append_eq_Cons_conv Cons_eq_append_conv)
      with assms(3,5) show ?thesis by (simp add: record_attempts_def)
    qed
  qed
qed

text \<open>
  Successive deletion reconciles of one resource: each reads back what the last successful update
  stored.
\<close>

fun stored_after :: "spm \<Rightarrow> effect list \<Rightarrow> spm" where
  "stored_after x [] = x"
| "stored_after x (e # es) = stored_after (case e of SPMUpdate y True \<Rightarrow> y | _ \<Rightarrow> x) es"

fun deletion_rounds ::
  "'w env \<Rightarrow> spm_reconciler \<Rightarrow> nat \<Rightarrow> spm \<Rightarrow> ('w, effect) st \<Rightarrow> spm" where
  "deletion_rounds E rc 0 spm s = spm"
| "deletion_rounds E rc (Suc n) spm s =
     deletion_rounds E rc n (stored_after spm (effects (reconcileDelete E rc spm) s))
       (snd (run_state (reconcileDelete E rc spm) s))"

lemma stored_after_append: "stored_after x (es @ es') = stored_after (stored_after x es) es'"
  by (induction es arbitrary: x) simp_all

lemma stored_after_release: "list_all is_release_effect es \<Longrightarrow> stored_after x es = x"
  by (induction es) auto

lemma deletion_round:
  assumes "finalizers_ok (lib E)" and "updates_succeed (kube E)"
    and "stripePaymentMethodFinalizer \<in> set (Finalizers (spm_meta spm))"
    and "0 \<le> cleanupAttempts spm" and "cleanupAttempts spm < stripeCleanupMaxAttempts"
    and "y = stored_after spm (effects (reconcileDelete E rc spm) s)"
  shows "stripePaymentMethodFinalizer \<notin> set (Finalizers (spm_meta y)) \<or>
    cleanupAttempts y = cleanupAttempts spm + 1 \<and> cleanupAttempts y < stripeCleanupMaxAttempts"
proof -
  let ?n = "cleanupAttempts spm + 1"
  have n: "wrap64 ?n = ?n" using assms(4,5) by (simp add: wrap64_id stripeCleanupMaxAttempts_def)
  have has: "ContainsFinalizer (lib E) (spm_meta spm) stripePaymentMethodFinalizer"
    using assms(1,3) by (simp add: finalizer_iff)
  obtain d s1 es1 es2 where es: "list_all is_release_effect es1"
    "effects (reconcileDelete E rc spm) s = es1 @ es2" "deletion_writes E spm d es2"
    by (rule deletion_effects [OF has])
  have recorded: "cleanupAttempts (spm\<lparr>spm_meta := record_attempts (spm_meta spm) ?n\<rparr>) = ?n"
    using assms(4,5) by (intro cleanup_attempts_recorded) (simp_all add: stripeCleanupMaxAttempts_def)
  from es assms(2) show ?thesis
    by (auto simp: assms(6) stored_after_append stored_after_release n recorded Let_def deletion_writes_def surrendered_def
        drop_finalizer_gone [OF assms(1)] split: option.splits if_splits)
qed

lemma deletion_rounds_gone:
  assumes "finalizers_ok (lib E)" and "stripePaymentMethodFinalizer \<notin> set (Finalizers (spm_meta spm))"
  shows "deletion_rounds E rc n spm s = spm"
proof -
  have "run_state (reconcileDelete E rc spm) t = (Inr 0, t)" for t
    using assms by (simp add: reconcileDelete_def finalizer_iff)
  then show ?thesis by (induction n arbitrary: s) (simp_all add: effects_def)
qed

lemma deletion_rounds_bound:
  assumes "finalizers_ok (lib E)" and "updates_succeed (kube E)"
    and "0 \<le> cleanupAttempts spm" and "cleanupAttempts spm < stripeCleanupMaxAttempts"
    and "stripeCleanupMaxAttempts - cleanupAttempts spm \<le> int n"
  shows "stripePaymentMethodFinalizer \<notin> set (Finalizers (spm_meta (deletion_rounds E rc n spm s)))"
  using assms(3-)
proof (induction n arbitrary: spm s)
  case 0
  then show ?case by simp
next
  case (Suc n)
  define y where "y = stored_after spm (effects (reconcileDelete E rc spm) s)"
  show ?case
  proof (cases "stripePaymentMethodFinalizer \<in> set (Finalizers (spm_meta spm)) \<and>
      stripePaymentMethodFinalizer \<in> set (Finalizers (spm_meta y))")
    case True
    with deletion_round [OF assms(1,2) _ Suc.prems(1,2) y_def]
    have "cleanupAttempts y = cleanupAttempts spm + 1" "cleanupAttempts y < stripeCleanupMaxAttempts"
      by auto
    with Suc.prems Suc.IH [of y] show ?thesis by (simp add: y_def [symmetric])
  next
    case False
    then show ?thesis
      using deletion_rounds_gone [OF assms(1), of spm rc "Suc n" s]
        deletion_rounds_gone [OF assms(1), of y rc n]
      by (cases "stripePaymentMethodFinalizer \<in> set (Finalizers (spm_meta spm))")
        (simp_all add: y_def [symmetric])
  qed
qed

text \<open>
  C10 (liveness): deletion is bounded: whatever Stripe, the configuration and the status patches
  answer, after twelve reconciles (fewer when attempts were already counted) the finalizer is gone,
  provided the updates of the resource succeed and the counter was not tampered with.
\<close>

theorem deletion_bounded:
  assumes "finalizers_ok (lib E)" and "updates_succeed (kube E)"
    and "0 \<le> cleanupAttempts spm" and "cleanupAttempts spm < stripeCleanupMaxAttempts"
    and "stripeCleanupMaxAttempts - cleanupAttempts spm \<le> int n"
  shows "stripePaymentMethodFinalizer \<notin> set (Finalizers (spm_meta (deletion_rounds E rc n spm s)))"
  using assms by (rule deletion_rounds_bound)


section \<open>Witnesses\<close>

definition spm_env :: "spm \<Rightarrow> unit env" where
  "spm_env x = sample_env\<lparr>kube := sample_kube\<lparr>get_spm := \<lambda>_. answer x, get_pm := \<lambda>_. answer sample_pm\<rparr>\<rparr>"

definition sample_rc :: spm_reconciler where
  "sample_rc = \<lparr>ProviderConfigName = ''default'', SetupIntentTTL = 0\<rparr>"

lemma live_spm_fields [simp]:
  "DeletionTimestamp (spm_meta (live_spm st)) = None"
  "Finalizers (spm_meta (live_spm st)) = [stripePaymentMethodFinalizer]"
  "spm_status (live_spm st) = st"
  by (simp_all add: live_spm_def sample_spm_def new_object_meta_def stripePaymentMethodFinalizer_def)

lemma spm_env_fields [simp]:
  "lib (spm_env x) = sample_lib" "get_spm (kube (spm_env x)) k w = (Inr x, w)"
  "get_pm (kube (spm_env x)) k w = (Inr sample_pm, w)" "clock (os (spm_env x)) w = (0, w)"
  "ContainsFinalizer sample_lib m f \<longleftrightarrow> f \<in> set (Finalizers m)"
  by (simp_all add: spm_env_def sample_defs)

lemma spm_env_updates: "updates_succeed (kube (spm_env x))"
  by (simp add: updates_succeed_def spm_env_def sample_defs)

lemma terminal_phases_sticky_witness:
  "run_state (Reconcile_StripePaymentMethod (spm_env (live_spm (empty_spm_status\<lparr>Phase := Active\<rparr>)))
     sample_rc (''org'', ''card-1'')) (st0 ()) = (Inr 0, st0 ())"
  using terminal_phases_sticky [of "spm_env (live_spm (empty_spm_status\<lparr>Phase := Active\<rparr>))"
      "(''org'', ''card-1'')" "st0 ()" "live_spm (empty_spm_status\<lparr>Phase := Active\<rparr>)" "()" sample_rc]
  by (simp add: st0_def)

definition fresh_status :: spm_status where
  "fresh_status = empty_spm_status\<lparr>Phase := AwaitingConfirmation,
     SetupIntent := Some \<lparr>si_ID = ''seti_1'', si_ClientSecret = ''secret'', si_Status = '''',
       si_ExpiresAt = Some 100\<rparr>\<rparr>"

lemma fresh_setup_intent_kept_witness:
  "list_all (\<lambda>e. \<exists>pm ok. e = PMStatusPatch pm ok) (effects (Reconcile_StripePaymentMethod
     (spm_env (live_spm fresh_status)) sample_rc (''org'', ''card-1'')) (st0 ()))"
  using fresh_setup_intent_kept [of "spm_env (live_spm fresh_status)" "(''org'', ''card-1'')" "st0 ()"
      "live_spm fresh_status" "()" _ 100 0 "()" sample_rc]
  by (simp add: fresh_status_def empty_spm_status_def st0_def)

lemma parent_never_demoted_witness:
  "\<exists>pm' ok pm. PMStatusPatch pm' ok \<in> set (effects (ensurePaymentMethodAwaiting
       (spm_env (live_spm fresh_status)) (live_spm fresh_status)) (st0 ())) \<and>
     pm_Phase pm \<noteq> PMActive \<and> pm' = pm\<lparr>pm_Phase := PMAwaitingConfirmation, pm_Conditions := pm_Conditions pm'\<rparr>"
proof -
  let ?E = "spm_env (live_spm fresh_status)"
  obtain pm' where pm': "PMStatusPatch pm' True
      \<in> set (effects (ensurePaymentMethodAwaiting ?E (live_spm fresh_status)) (st0 ()))"
    by (simp add: ensurePaymentMethodAwaiting_def effects_def Let_def sample_pm_def spm_env_def
        sample_env_def sample_kube_def answer_def st0_def)
  from parent_never_demoted [OF this] pm' show ?thesis by blast
qed

lemma cleanupAttempts_roundtrip_witness:
  "cleanupAttempts (sample_spm\<lparr>spm_meta := record_attempts (spm_meta sample_spm) 11\<rparr>) = 11"
  using cleanupAttempts_roundtrip [of 11 "spm_meta sample_spm" sample_spm "''''"] by simp

theorem deletion_bounded_witness:
  "stripePaymentMethodFinalizer \<notin> set (Finalizers (spm_meta
     (deletion_rounds (spm_env sample_spm) sample_rc 12 (live_spm empty_spm_status) (st0 ()))))"
proof -
  have "cleanupAttempts (live_spm empty_spm_status) = 0"
    by (simp add: cleanupAttempts_def annotation_def live_spm_def sample_spm_def new_object_meta_def)
  then show ?thesis
    using deletion_bounded [of "spm_env sample_spm" "live_spm empty_spm_status" 12 sample_rc "st0 ()"]
    by (simp add: sample_lib_finalizers spm_env_updates stripeCleanupMaxAttempts_def)
qed

lemma owned_env_fields [simp]:
  "lib owned_env = sample_lib" "os owned_env = sample_os" "NewClient owned_env cfg = updating_stripe"
  "get_spm (kube owned_env) k w = (Inr (live_spm empty_spm_status), w)"
  "get_pm (kube owned_env) k w = (Inr sample_pm, w)"
  "get_ba (kube owned_env) k w = (Inr sample_ba, w)" "clock sample_os w = (0, w)"
  by (simp_all add: owned_env_def NewClient_def sample_env_def sample_kube_def answer_def sample_os_def)

definition owned_config :: resolved_config where
  "owned_config = \<lparr>rc_ProviderConfigName = ''default'', rc_PublishableKey = ''pk'',
     rc_SecretKey = ''secret'', rc_WebhookSecret = ''secret'', rc_APIVersion = ''''\<rparr>"

lemma owned_ResolveConfig: "run_state (ResolveConfig owned_env n) s = (Inr owned_config, s\<lparr>world := ()\<rparr>)"
  by (simp add: ResolveConfig_def owned_env_def owned_config_def sample_defs)

lemma tax_error_does_not_block_witness:
  "\<exists>spm' ok. SPMStatusPatch spm' ok \<in> set (effects (reconcileSetupIntent owned_env sample_rc
       (live_spm empty_spm_status)) (st0 ())) \<and>
     Phase (spm_status spm') = AwaitingConfirmation \<and> StripeCustomerID (spm_status spm') = ''cus_1''"
proof -
  obtain s4 where s4: "run_state (Ensure owned_env (EnsureCustomer updating_stripe sample_os) sample_ba) (st0 ())
      = ((''cus_1'', None), s4)"
    using owned_Ensure by blast
  obtain si where "setup_intents_new updating_stripe p () = (Inr si, ())" for p
    by (simp add: updating_stripe_def answer_def)
  then show ?thesis
    using tax_error_does_not_block [of owned_env "live_spm empty_spm_status" "st0 ()" sample_pm "()"
        sample_ba "()" sample_rc owned_config "st0 ()" "''cus_1''" None s4 None si "()" 0 "()"]
    by (auto simp: sample_lib_conditions owned_ResolveConfig s4)
qed

lemma owned_creates:
  "\<exists>p. SetupIntentsNew p True \<in> set (effects (Reconcile_StripePaymentMethod owned_env sample_rc
     (''org'', ''card-1'')) (st0 ()))"
proof -
  obtain s4 where s4: "run_state (Ensure owned_env (EnsureCustomer updating_stripe sample_os) sample_ba) (st0 ())
      = ((''cus_1'', None), s4)"
    using owned_Ensure by blast
  obtain si where "setup_intents_new updating_stripe p () = (Inr si, ())" for p
    by (simp add: updating_stripe_def answer_def)
  then have "SetupIntentsNew (setup_intent_params_for ''cus_1''
      (Namespace (spm_meta (live_spm empty_spm_status))) (Name (spm_meta (live_spm empty_spm_status)))) True
      \<in> set (effects (reconcileSetupIntent owned_env sample_rc (live_spm empty_spm_status)) (st0 ()))"
    using reconcileSetupIntent_effects [of owned_env "live_spm empty_spm_status" "st0 ()" sample_pm "()"
        sample_ba "()" sample_rc owned_config "st0 ()" "''cus_1''" None s4 None si "()" 0 "()"]
    by (auto simp: owned_ResolveConfig s4)
  moreover have "reconcile_spm owned_env sample_rc (live_spm empty_spm_status) =
      reconcileSetupIntent owned_env sample_rc (live_spm empty_spm_status)"
    by (simp add: reconcile_spm_def) (simp add: empty_spm_status_def)
  ultimately show ?thesis
    using Reconcile_read [of owned_env "(''org'', ''card-1'')" "st0 ()" "live_spm empty_spm_status" "()"
        sample_rc] by auto
qed

lemma setup_intents_stamped_witness:
  "\<exists>p. sip_Customer p \<noteq> '''' \<and> sip_Metadata p ''stripe_payment_method_name'' = Some ''card-1'' \<and>
     SetupIntentsNew p True \<in> set (effects (Reconcile_StripePaymentMethod owned_env sample_rc
       (''org'', ''card-1'')) (st0 ()))"
proof -
  obtain p where p: "SetupIntentsNew p True \<in> set (effects (Reconcile_StripePaymentMethod owned_env
      sample_rc (''org'', ''card-1'')) (st0 ()))" using owned_creates by blast
  have "Name (spm_meta (live_spm empty_spm_status)) = ''card-1''"
    by (simp add: live_spm_def new_object_meta_def)
  with setup_intents_stamped [of owned_env _ "st0 ()" "live_spm empty_spm_status" "()", OF _ p] p
  show ?thesis by auto
qed

lemma finalizer_before_stripe_witness:
  "stripePaymentMethodFinalizer \<in> set (Finalizers (spm_meta (live_spm empty_spm_status)))"
proof -
  obtain p where p: "SetupIntentsNew p True \<in> set (effects (Reconcile_StripePaymentMethod owned_env
      sample_rc (''org'', ''card-1'')) (st0 ()))" using owned_creates by blast
  show ?thesis
    by (rule finalizer_before_stripe [of owned_env _ "st0 ()" _ "()", OF _ _ p])
      (simp_all add: sample_lib_finalizers)
qed

text \<open>A card that Stripe does not let go of, at its last attempt.\<close>

definition stuck_spm :: spm where
  "stuck_spm = (live_spm (empty_spm_status\<lparr>StripePaymentMethodID := ''pm_1''\<rparr>))\<lparr>spm_meta :=
     record_attempts (spm_meta (live_spm empty_spm_status)) 11\<rparr>"

theorem finalizer_dropped_after_cleanup_witness:
  "\<exists>x. SPMStatusPatch x True \<in> set (effects (reconcileDelete owned_env sample_rc stuck_spm) (st0 ())) \<and>
     (\<exists>c. find_condition (Conditions (spm_status x)) ''CleanupIncomplete'' = Some c)"
proof -
  let ?eff = "effects (reconcileDelete owned_env sample_rc stuck_spm) (st0 ())"
  let ?e = "WrapError (''detaching PaymentMethod '' @ quoted ''pm_1'') (ForeignError ''connection refused'')"
  let ?call = "PaymentMethodsDetach ''pm_1'' (Some (ForeignError ''connection refused''))"
  have eleven: "cleanupAttempts stuck_spm = 11"
    unfolding stuck_spm_def by (rule cleanup_attempts_recorded) simp_all
  have fin: "stripePaymentMethodFinalizer \<in> set (Finalizers (spm_meta stuck_spm))"
    by (simp add: stuck_spm_def record_attempts_def)
  have patched: "\<not> isl (fst (patch_spm_status (kube owned_env) x y w))" for x y w
    by (simp add: owned_env_def sample_defs)
  have "payment_methods_detach updating_stripe i () = (Inl (ForeignError ''connection refused''), ())" for i
    by (simp add: updating_stripe_def sample_stripe_def down_def)
  then have "run_state (detach_upstream owned_env sample_rc stuck_spm) (st0 ()) =
      (Some ?e, \<lparr>world = (), trace = [?call]\<rparr>)"
    by (simp add: detach_upstream_def owned_ResolveConfig DetachPaymentMethod_def stuck_spm_def
        empty_spm_status_def st0_def)
  from reconcileDelete_effects [OF _ this, of "[?call]"] eleven fin
  obtain x k stored ok where eff: "?eff = [?call, SPMStatusPatch x k] @ SPMUpdate (drop_finalizer sample_lib stored) ok # []"
    by (auto simp: st0_def wrap64_id stripeCleanupMaxAttempts_def deletion_writes_def surrendered_def Let_def)
  have "\<not> released stuck_spm [?call, SPMStatusPatch x k]"
    by (simp add: released_def detached_def stuck_spm_def empty_spm_status_def)
  moreover have "stripePaymentMethodFinalizer \<notin> set (Finalizers (spm_meta (drop_finalizer sample_lib stored)))"
    by (rule drop_finalizer_gone [OF sample_lib_finalizers])
  ultimately obtain y c r where y: "SPMStatusPatch x k = SPMStatusPatch y (\<not> isl r)"
    "find_condition (Conditions (spm_status y)) ''CleanupIncomplete'' = Some c"
    "\<exists>w w'. patch_spm_status (kube owned_env) stuck_spm y w = (r, w')"
    using finalizer_dropped_after_cleanup [OF _ _ fin, of owned_env sample_rc "st0 ()"
      "[?call, SPMStatusPatch x k]" "drop_finalizer sample_lib stored" ok "[]"] eff
      sample_lib_finalizers sample_lib_conditions by auto
  then have "\<not> isl r" using patched by (metis fst_conv)
  with y eff show ?thesis by auto
qed

end
