(* ===== verification/PaymentMethodWatch.thy ===== *)
theory PaymentMethodWatch
  imports PaymentMethods
begin

text \<open>
  \<open>internal/controller/paymentmethod_watcher.go\<close>: the watcher that gives every billing
  \<open>PaymentMethod\<close> of a Stripe-backed class its \<open>StripePaymentMethod\<close> child.
\<close>

section \<open>Operations\<close>

definition new_child :: "payment_method \<Rightarrow> spm" where
  "new_child pm = \<lparr>spm_meta = new_object_meta (Namespace (pm_meta pm)) (Name (pm_meta pm)),
     spm_PaymentMethodRef = Name (pm_meta pm), spm_status = empty_spm_status\<rparr>"

definition create_child :: "'w env \<Rightarrow> payment_method \<Rightarrow> ('w, result) prog" where
  "create_child E pm =
     (let child = new_child pm in
      case SetControllerReference (lib E) KindPaymentMethod (pm_meta pm) (spm_meta child) of
        Inl e \<Rightarrow> ret (Inl (WrapError ''setting owner reference'' e))
      | Inr m \<Rightarrow> do {
          let child = child\<lparr>spm_meta := m\<rparr>;
          c \<leftarrow> act (create_spm (kube E) child) (\<lambda>r. SPMCreate child (\<not> isl r));
          case c of
            Inl e \<Rightarrow>
              (if IsAlreadyExists e then ret (Inr 0)
               else if isNamespaceTerminatingForbidden e then ret (Inr 0)
               else ret (Inl (WrapError (''creating StripePaymentMethod ''
                 @ Namespace (spm_meta child) @ ''/'' @ Name (spm_meta child)) e)))
          | Inr _ \<Rightarrow> ret (Inr 0)
        })"

definition ensure_child :: "'w env \<Rightarrow> payment_method \<Rightarrow> ('w, result) prog" where
  "ensure_child E pm = do {
     let childKey = key_of (pm_meta pm);
     r \<leftarrow> ask (get_spm (kube E) childKey);
     case r of
       Inr _ \<Rightarrow> ret (Inr 0)
     | Inl e \<Rightarrow>
         (if \<not> IsNotFound e
          then ret (Inl (WrapError (''getting StripePaymentMethod '' @ fst childKey @ ''/'' @ snd childKey) e))
          else create_child E pm)
   }"

definition watch_pm :: "'w env \<Rightarrow> string \<Rightarrow> payment_method \<Rightarrow> ('w, result) prog" where
  "watch_pm E provider pm =
     (if DeletionTimestamp (pm_meta pm) \<noteq> None then ret (Inr 0)
      else case pm_ClassRef pm of
          None \<Rightarrow> ret (Inr 0)
        | Some cls \<Rightarrow>
            (if cls = '''' then ret (Inr 0)
             else do {
               r \<leftarrow> ask (get_pmc (kube E) cls);
               case r of
                 Inl e \<Rightarrow> (if IsNotFound e then ret (Inr 0)
                   else ret (Inl (WrapError (''getting PaymentMethodClass '' @ quoted cls) e)))
               | Inr pmc \<Rightarrow> (if pmc_Provider pmc \<noteq> provider then ret (Inr 0) else ensure_child E pm)
             }))"

definition Reconcile_PaymentMethod :: "'w env \<Rightarrow> string \<Rightarrow> object_key \<Rightarrow> ('w, result) prog" where
  "Reconcile_PaymentMethod E provider req = do {
     r \<leftarrow> ask (get_pm (kube E) req);
     case r of
       Inl e \<Rightarrow> (if IsNotFound e then ret (Inr 0) else ret (Inl e))
     | Inr pm \<Rightarrow> watch_pm E provider pm
   }"

section \<open>Facts\<close>

lemma ensure_child_effects:
  assumes "e \<in> set (effects (ensure_child E pm) s)"
  shows "\<exists>child ok m err w. e = SPMCreate child ok \<and> effects (ensure_child E pm) s = [SPMCreate child ok] \<and>
    child = (new_child pm)\<lparr>spm_meta := m\<rparr> \<and>
    SetControllerReference (lib E) KindPaymentMethod (pm_meta pm) (spm_meta (new_child pm)) = Inr m \<and>
    get_spm (kube E) (key_of (pm_meta pm)) (world s) = (Inl err, w) \<and> IsNotFound err"
  using assms by (auto simp: ensure_child_def create_child_def effects_def Let_def
      split: prod.splits sum.splits if_splits)

text \<open>
  C39 (safety): the watcher's only effect is to create one child, for a live PaymentMethod whose class
  is this provider's, when no StripePaymentMethod of its name exists: the child carries the parent's
  namespace and name, refers to the parent by that name, starts with an empty status, and has the
  parent as its controller.
\<close>

theorem watcher_creates_only_the_child:
  assumes "e \<in> set (effects (Reconcile_PaymentMethod E provider req) s)"
  shows "\<exists>child ok pm w. e = SPMCreate child ok \<and>
    effects (Reconcile_PaymentMethod E provider req) s = [SPMCreate child ok] \<and>
    get_pm (kube E) req (world s) = (Inr pm, w) \<and> DeletionTimestamp (pm_meta pm) = None \<and>
    (\<exists>cls pmc w'. pm_ClassRef pm = Some cls \<and> cls \<noteq> '''' \<and>
       get_pmc (kube E) cls w = (Inr pmc, w') \<and> pmc_Provider pmc = provider \<and>
       (\<exists>err w''. get_spm (kube E) (key_of (pm_meta pm)) w' = (Inl err, w'') \<and> IsNotFound err)) \<and>
    spm_PaymentMethodRef child = Name (pm_meta pm) \<and> spm_status child = empty_spm_status \<and>
    SetControllerReference (lib E) KindPaymentMethod (pm_meta pm)
      (new_object_meta (Namespace (pm_meta pm)) (Name (pm_meta pm))) = Inr (spm_meta child)"
proof -
  obtain pm w where pm: "get_pm (kube E) req (world s) = (Inr pm, w)"
    and e1: "e \<in> set (effects (watch_pm E provider pm) (s\<lparr>world := w\<rparr>))"
    and eff1: "effects (Reconcile_PaymentMethod E provider req) s = effects (watch_pm E provider pm) (s\<lparr>world := w\<rparr>)"
    using assms by (auto simp: Reconcile_PaymentMethod_def effects_def split: prod.splits sum.splits if_splits)
  obtain cls pmc w' where cls: "DeletionTimestamp (pm_meta pm) = None" "pm_ClassRef pm = Some cls"
      "cls \<noteq> ''''" "get_pmc (kube E) cls w = (Inr pmc, w')" "pmc_Provider pmc = provider"
    and e2: "e \<in> set (effects (ensure_child E pm) (s\<lparr>world := w'\<rparr>))"
    and eff2: "effects (watch_pm E provider pm) (s\<lparr>world := w\<rparr>) = effects (ensure_child E pm) (s\<lparr>world := w'\<rparr>)"
    using e1 by (auto simp: watch_pm_def effects_def split: prod.splits sum.splits if_splits option.splits)
  from ensure_child_effects [OF e2] pm cls eff1 eff2 show ?thesis
    by (fastforce simp: new_child_def)
qed

text \<open>
  Losing the race to create the child, or a namespace that is being terminated, is no
  error: the reconcile is not retried; any other refusal is reported.
\<close>

lemma watcher_create_errors:
  assumes "get_spm (kube E) (key_of (pm_meta pm)) (world s) = (Inl err, w)" and "IsNotFound err"
    and "SetControllerReference (lib E) KindPaymentMethod (pm_meta pm) (spm_meta (new_child pm)) = Inr m"
    and "create_spm (kube E) ((new_child pm)\<lparr>spm_meta := m\<rparr>) w = (Inl e, w')"
  shows "isl (fst (run_state (ensure_child E pm) s)) \<longleftrightarrow>
    \<not> (IsAlreadyExists e \<or> isNamespaceTerminatingForbidden e)"
  using assms by (simp add: ensure_child_def create_child_def Let_def)

section \<open>Witnesses\<close>

definition watch_env :: "unit env" where
  "watch_env = sample_env\<lparr>kube := sample_kube\<lparr>get_pm := \<lambda>_. answer sample_pm,
     get_pmc := \<lambda>_. answer \<lparr>pmc_Name = ''stripe-default'', pmc_Provider = ''stripe''\<rparr>\<rparr>\<rparr>"

theorem watcher_creates_only_the_child_witness:
  "\<exists>child. effects (Reconcile_PaymentMethod watch_env ''stripe'' (''org'', ''card-1'')) (st0 ())
     = [SPMCreate child True] \<and> spm_PaymentMethodRef child = ''card-1''"
proof -
  obtain child where "SPMCreate child True
      \<in> set (effects (Reconcile_PaymentMethod watch_env ''stripe'' (''org'', ''card-1'')) (st0 ()))"
    by (simp add: effects_def Reconcile_PaymentMethod_def watch_pm_def ensure_child_def create_child_def
        Let_def watch_env_def sample_env_def sample_kube_def sample_lib_def answer_def missing_def
        sample_pm_def new_object_meta_def st0_def)
  from watcher_creates_only_the_child [OF this] show ?thesis
    by (auto simp: watch_env_def answer_def sample_pm_def new_object_meta_def)
qed

definition racing_env :: "unit env" where
  "racing_env = watch_env\<lparr>kube := (kube watch_env)\<lparr>create_spm := \<lambda>_ w. (Inl (ApiError AlreadyExists ''exists''), w)\<rparr>\<rparr>"

lemma watcher_create_errors_witness:
  "\<not> isl (fst (run_state (ensure_child racing_env sample_pm) (st0 ())))"
proof -
  let ?m = "(spm_meta (new_child sample_pm))\<lparr>OwnerReferences :=
    [owner_reference KindPaymentMethod (pm_meta sample_pm)]\<rparr>"
  have "get_spm (kube racing_env) (key_of (pm_meta sample_pm)) (world (st0 ())) =
      (Inl (ApiError NotFound ''not found''), ())"
    and "SetControllerReference (lib racing_env) KindPaymentMethod (pm_meta sample_pm)
      (spm_meta (new_child sample_pm)) = Inr ?m"
    and "create_spm (kube racing_env) ((new_child sample_pm)\<lparr>spm_meta := ?m\<rparr>) () =
      (Inl (ApiError AlreadyExists ''exists''), ())"
    by (simp_all add: racing_env_def watch_env_def sample_env_def sample_kube_def sample_lib_def missing_def)
  from watcher_create_errors [OF this(1) _ this(2,3)] show ?thesis by simp
qed

end
