(* ===== verification/BillingAccounts.thy ===== *)
theory BillingAccounts
  imports PaymentMethods
begin

text \<open>
  \<open>internal/controller/billingaccount_controller.go\<close>: the reconciler that keeps an account's
  Stripe customer in step with the account, the filter on account updates, and the functions that map
  bindings and payment methods to accounts. The customers object is \<open>Ensure\<close> of
  \<open>StripeCustomers\<close>, and the client is whatever \<open>stripeCustomerEnsurer\<close> the reconciler builds: the
  Stripe client in production, where the factory is nil.
\<close>

section \<open>Operations\<close>

record 'w account_reconciler =
  ar_ProviderConfigName :: string
  stripeClientFactory :: "(resolved_config option \<Rightarrow> 'w ensurer) option"

definition needsStripeCustomer :: "'w env \<Rightarrow> billing_account \<Rightarrow> ('w, go_error + bool) prog" where
  "needsStripeCustomer E ba =
     (if hasInvoiceArrangement ba then ret (Inr True)
      else do {
        r \<leftarrow> ask (get_sc (kube E) (key_of (ba_meta ba)));
        case r of
          Inr _ \<Rightarrow> ret (Inr True)
        | Inl e \<Rightarrow>
            (if \<not> IsNotFound e
             then ret (Inl (WrapError (''getting StripeCustomer '' @ quoted (Name (ba_meta ba))) e))
             else do {
               l \<leftarrow> accountStripePaymentMethods (kube E) (Namespace (ba_meta ba)) (Name (ba_meta ba));
               case l of
                 Inl e \<Rightarrow> ret (Inl (WrapError (''listing StripePaymentMethods for BillingAccount ''
                   @ quoted (Name (ba_meta ba))) e))
               | Inr spms \<Rightarrow> ret (Inr (spms \<noteq> []))
             })
      })"

definition buildStripeClient :: "'w env \<Rightarrow> 'w account_reconciler \<Rightarrow> ('w, go_error + 'w ensurer) prog" where
  "buildStripeClient E rc =
     (case stripeClientFactory rc of
        Some factory \<Rightarrow> ret (Inr (factory None))
      | None \<Rightarrow> do {
          g \<leftarrow> ResolveConfig E (ar_ProviderConfigName rc);
          case g of
            Inl e \<Rightarrow> ret (Inl (WrapError ''resolving StripeProviderConfig'' e))
          | Inr cfg \<Rightarrow> ret (Inr (EnsureCustomer (NewClient E cfg) (os E)))
        })"

text \<open>How the reconciler answers what \<open>Ensure\<close> returned.\<close>

definition ensure_outcome :: "billing_account \<Rightarrow> go_error option \<Rightarrow> result" where
  "ensure_outcome ba err =
     (case err of
        None \<Rightarrow> Inr 0
      | Some e \<Rightarrow>
          (if Is_NamespaceTerminating e then Inr 0
           else if As_TaxIDError e \<noteq> None then Inr 0
           else Inl (WrapError (''syncing Stripe customer from BillingAccount ''
             @ quoted (Name (ba_meta ba))) e)))"

definition sync_account :: "'w env \<Rightarrow> 'w account_reconciler \<Rightarrow> billing_account \<Rightarrow> ('w, result) prog" where
  "sync_account E rc ba = do {
     b \<leftarrow> buildStripeClient E rc;
     case b of
       Inl e \<Rightarrow> ret (Inl e)
     | Inr stripe \<Rightarrow> do {
         c \<leftarrow> Ensure E stripe ba;
         ret (ensure_outcome ba (snd c))
       }
   }"

definition Reconcile_BillingAccount :: "'w env \<Rightarrow> 'w account_reconciler \<Rightarrow> object_key \<Rightarrow> ('w, result) prog" where
  "Reconcile_BillingAccount E rc req = do {
     r \<leftarrow> ask (get_ba (kube E) req);
     case r of
       Inl e \<Rightarrow> (if IsNotFound e then ret (Inr 0)
         else ret (Inl (WrapError ''getting BillingAccount'' e)))
     | Inr ba \<Rightarrow>
         (if DeletionTimestamp (ba_meta ba) \<noteq> None then ret (Inr 0)
          else do {
            m \<leftarrow> needsStripeCustomer E ba;
            case m of
              Inl e \<Rightarrow> ret (Inl e)
            | Inr needed \<Rightarrow> (if \<not> needed then ret (Inr 0) else sync_account E rc ba)
          })
   }"

section \<open>What wakes the reconciler\<close>

definition invoiceArrangementChanged :: "billing_account \<Rightarrow> billing_account \<Rightarrow> bool" where
  "invoiceArrangementChanged oldBA newBA \<longleftrightarrow>
     hasInvoiceArrangement oldBA \<noteq> hasInvoiceArrangement newBA \<or>
     invoiceFields oldBA \<noteq> invoiceFields newBA"

definition enqueueBillingAccountForBinding :: "binding \<Rightarrow> object_key list" where
  "enqueueBillingAccountForBinding bab =
     (if bab_BillingAccountRef bab = '''' then []
      else [(Namespace (bab_meta bab), bab_BillingAccountRef bab)])"

definition enqueueBillingAccountForStripePaymentMethod ::
  "'w kube \<Rightarrow> spm \<Rightarrow> ('w, object_key list) prog" where
  "enqueueBillingAccountForStripePaymentMethod K spm =
     (let pmName = spm_PaymentMethodRef spm in
      if pmName = '''' then ret []
      else do {
        r \<leftarrow> ask (get_pm K (Namespace (spm_meta spm), pmName));
        case r of
          Inl e \<Rightarrow> ret []
        | Inr pm \<Rightarrow> (if pm_BillingAccountRef pm = '''' then ret []
            else ret [(Namespace (pm_meta pm), pm_BillingAccountRef pm)])
      })"

section \<open>Facts\<close>

lemma needsStripeCustomer_emits [effect_rules]: "emits P (needsStripeCustomer E ba)"
  unfolding needsStripeCustomer_def by (intro effect_rules)

lemma buildStripeClient_emits [effect_rules]: "emits P (buildStripeClient E rc)"
  unfolding buildStripeClient_def by (intro effect_rules)

text \<open>In production the ensurer that a reconcile builds is the Stripe client.\<close>

lemma production_ensurer:
  assumes "run_state (buildStripeClient E rc) s = (Inr stripe, s')" and "stripeClientFactory rc = None"
  obtains cfg where "stripe = EnsureCustomer (NewClient E cfg) (os E)"
  using assms by (auto simp: buildStripeClient_def split: sum.splits prod.splits)

lemma sync_account_emits:
  "stripeClientFactory rc = None \<Longrightarrow> emits is_ensure_effect (sync_account E rc ba)"
  unfolding sync_account_def
  by (intro emits_bind_run buildStripeClient_emits emits_sum emits_ret) (auto elim!: production_ensurer intro: Ensure_emits)

text \<open>
  C31 (safety): the account reconciler touches the cluster and Stripe only for an account that is not
  being deleted and that needs a customer: it is billed by invoice, or its StripeCustomer exists, or a
  StripePaymentMethod whose parent is bound to it exists; so abandoned sign-ups get no customer. That
  holds whatever ensurer the reconciler is given; with the Stripe client, as in production, what it does is
  what \<open>Ensure\<close> does.
\<close>

theorem only_needed_customers:
  assumes "e \<in> set (effects (Reconcile_BillingAccount E rc req) s)"
  shows "\<exists>ba w. get_ba (kube E) req (world s) = (Inr ba, w) \<and> DeletionTimestamp (ba_meta ba) = None \<and>
    (stripeClientFactory rc = None \<longrightarrow> is_ensure_effect e) \<and>
    (hasInvoiceArrangement ba \<or>
     (\<exists>sc w1. get_sc (kube E) (key_of (ba_meta ba)) w = (Inr sc, w1)) \<or>
     (\<exists>w1 spms w2 spm w3 pm w4. list_spm (kube E) (Some (Namespace (ba_meta ba))) w1 = (Inr spms, w2) \<and>
        spm \<in> set spms \<and>
        get_pm (kube E) (Namespace (spm_meta spm), spm_PaymentMethodRef spm) w3 = (Inr pm, w4) \<and>
        pm_BillingAccountRef pm = Name (ba_meta ba)))"
proof -
  obtain r w where r: "get_ba (kube E) req (world s) = (r, w)" by fastforce
  with assms obtain ba where ba: "r = Inr ba" and live: "DeletionTimestamp (ba_meta ba) = None"
    by (cases r) (auto simp: Reconcile_BillingAccount_def effects_def split: if_splits)
  obtain m s1 where m: "run_state (needsStripeCustomer E ba) (s\<lparr>world := w\<rparr>) = (m, s1)" by fastforce
  have s1: "trace s1 = trace s"
    using emits_none [OF needsStripeCustomer_emits m] by simp
  have needed: "m = Inr True" and e: "e \<in> set (effects (sync_account E rc ba) s1)"
    using assms r ba live m s1
    by (auto simp: Reconcile_BillingAccount_def effects_def split: sum.splits if_splits)
  have "hasInvoiceArrangement ba \<or>
     (\<exists>sc w1. get_sc (kube E) (key_of (ba_meta ba)) w = (Inr sc, w1)) \<or>
     (\<exists>w1 spms w2 spm w3 pm w4. list_spm (kube E) (Some (Namespace (ba_meta ba))) w1 = (Inr spms, w2) \<and>
        spm \<in> set spms \<and>
        get_pm (kube E) (Namespace (spm_meta spm), spm_PaymentMethodRef spm) w3 = (Inr pm, w4) \<and>
        pm_BillingAccountRef pm = Name (ba_meta ba))"
  proof (cases "hasInvoiceArrangement ba \<or>
      (\<exists>sc w1. get_sc (kube E) (key_of (ba_meta ba)) w = (Inr sc, w1))")
    case False
    then obtain e0 w1 where sc: "get_sc (kube E) (key_of (ba_meta ba)) w = (Inl e0, w1)"
      by (metis old.sum.exhaust surj_pair)
    obtain l s2 where l: "run_state (accountStripePaymentMethods (kube E) (Namespace (ba_meta ba))
        (Name (ba_meta ba))) (s\<lparr>world := w1\<rparr>) = (l, s2)" by fastforce
    with False sc m needed obtain spms where "l = Inr spms" "spms \<noteq> []"
      by (cases l) (auto simp: needsStripeCustomer_def split: if_splits)
    with l obtain all w2 s3 where "list_spm (kube E) (Some (Namespace (ba_meta ba))) w1 = (Inr all, w2)"
      and out: "run_state (account_spms (kube E) (Name (ba_meta ba)) all) (s\<lparr>world := w2\<rparr>) = (spms, s3)"
      by (auto simp: accountStripePaymentMethods_def split: prod.splits sum.splits)
    then show ?thesis
      using account_spms_sound [OF out] \<open>spms \<noteq> []\<close> by (metis last_in_set)
  qed auto
  with r ba live e emitsD [OF sync_account_emits] show ?thesis by blast
qed

text \<open>
  The filter on account updates drops nothing that matters: for an update that leaves the
  generation alone (hence the spec) and does not pass \<open>invoiceArrangementChanged\<close>, the details
  computed for Stripe and the billed-by-invoice test are the same before and after.
\<close>

lemma update_filter_complete:
  assumes "Namespace (ba_meta newBA) = Namespace (ba_meta oldBA)"
    and "ba_ContactInfo newBA = ba_ContactInfo oldBA" and "ba_TaxIDs newBA = ba_TaxIDs oldBA"
    and "\<not> invoiceArrangementChanged oldBA newBA"
  shows "customerDetailsFromBillingAccount newBA = customerDetailsFromBillingAccount oldBA \<and>
    hasInvoiceArrangement newBA = hasInvoiceArrangement oldBA"
  using assms by (simp add: invoiceArrangementChanged_def customerDetailsFromBillingAccount_def Let_def)

lemma account_spms_filter:
  assumes "\<forall>k w. get_pm K k w = (parent k, w)" and "\<forall>k pm. parent k = Inr pm \<longrightarrow> Namespace (pm_meta pm) = fst k"
    and "a \<noteq> ''''" and "\<forall>x\<in>set spms. Namespace (spm_meta x) = ns"
  shows "run_state (account_spms K a spms) s =
    (filter (\<lambda>x. fst (run_state (enqueueBillingAccountForStripePaymentMethod K x) s) = [(ns, a)]) spms, s)"
  using assms(4)
proof (induction spms)
  case (Cons x spms)
  then show ?case
    using assms(1-3) by (auto simp: enqueueBillingAccountForStripePaymentMethod_def Let_def split: sum.split)
qed simp

text \<open>
  C32 (equivalence): the events and the scan agree on whose a payment method is: in a cluster with any
  StripePaymentMethods in any namespaces, whose parents answer the same to both, the scan of an account
  lists its namespace and keeps exactly those StripePaymentMethods of the cluster, in order, whose
  events wake this account, by its namespace and name, and nothing else. So no payment method counts for
  an account that its changes do not reach, and none wakes an account that does not count it.
\<close>

theorem scan_equals_events:
  assumes "\<forall>k w. get_pm K k w = (parent k, w)" and "\<forall>k pm. parent k = Inr pm \<longrightarrow> Namespace (pm_meta pm) = fst k"
    and "\<forall>n w. n \<noteq> '''' \<longrightarrow> list_spm K (Some n) w = (Inr (filter (\<lambda>x. Namespace (spm_meta x) = n) cluster), w)"
    and "ns \<noteq> ''''" and "a \<noteq> ''''"
  shows "run_state (accountStripePaymentMethods K ns a) s =
    (Inr (filter (\<lambda>x. fst (run_state (enqueueBillingAccountForStripePaymentMethod K x) s) = [(ns, a)]) cluster), s)"
proof -
  have wakes: "Namespace (spm_meta x) = ns"
    if "fst (run_state (enqueueBillingAccountForStripePaymentMethod K x) s) = [(ns, a)]" for x
    using that assms(1,2)
    by (auto simp: enqueueBillingAccountForStripePaymentMethod_def Let_def split: sum.splits if_splits)
  have "run_state (account_spms K a (filter (\<lambda>x. Namespace (spm_meta x) = ns) cluster)) s =
    (filter (\<lambda>x. fst (run_state (enqueueBillingAccountForStripePaymentMethod K x) s) = [(ns, a)])
      (filter (\<lambda>x. Namespace (spm_meta x) = ns) cluster), s)"
    by (rule account_spms_filter [OF assms(1,2,5)]) simp
  also have "filter (\<lambda>x. fst (run_state (enqueueBillingAccountForStripePaymentMethod K x) s) = [(ns, a)])
      (filter (\<lambda>x. Namespace (spm_meta x) = ns) cluster) =
    filter (\<lambda>x. fst (run_state (enqueueBillingAccountForStripePaymentMethod K x) s) = [(ns, a)]) cluster"
    using wakes by (auto intro: filter_cong simp: conj_commute)
  finally show ?thesis using assms(3,4) by (simp add: accountStripePaymentMethods_def)
qed

text \<open>
  What is retried: with the account live, a customer needed and the client built, the
  reconcile fails exactly when Ensure failed with an error that is neither a terminating namespace nor
  a rejected tax ID; a bad tax ID is not retried forever.
\<close>

lemma account_retry_policy:
  assumes "get_ba (kube E) req (world s) = (Inr ba, w)" and "DeletionTimestamp (ba_meta ba) = None"
    and "run_state (needsStripeCustomer E ba) (s\<lparr>world := w\<rparr>) = (Inr True, s1)"
    and "run_state (buildStripeClient E rc) s1 = (Inr stripe, s2)"
    and "run_state (Ensure E stripe ba) s2 = ((c, err), s3)"
  shows "isl (fst (run_state (Reconcile_BillingAccount E rc req) s)) \<longleftrightarrow>
    (\<exists>e. err = Some e \<and> \<not> Is_NamespaceTerminating e \<and> As_TaxIDError e = None)"
  using assms by (auto simp: Reconcile_BillingAccount_def sync_account_def
      ensure_outcome_def split: option.splits)

section \<open>Witnesses\<close>

definition production :: "unit account_reconciler" where
  "production = \<lparr>ar_ProviderConfigName = ''default'', stripeClientFactory = None\<rparr>"

definition invoice_ba :: billing_account where
  "invoice_ba = sample_ba\<lparr>ba_PaymentArrangement := Some \<lparr>arr_Type = ArrangementInvoice, arr_Invoice = None\<rparr>\<rparr>"

definition invoice_env :: "unit env" where
  "invoice_env = sample_env\<lparr>kube := sample_kube\<lparr>get_cfg := \<lambda>_. answer sample_cfg, get_ba := \<lambda>_. answer invoice_ba\<rparr>\<rparr>"

lemma invoice_env_fields [simp]:
  "get_ba (kube invoice_env) k w = (Inr invoice_ba, w)" "lib invoice_env = sample_lib"
  "os invoice_env = sample_os" "NewClient invoice_env cfg = sample_stripe"
  by (simp_all add: invoice_env_def sample_env_def answer_def NewClient_def)

lemma invoice_needed: "run_state (needsStripeCustomer invoice_env invoice_ba) s = (Inr True, s)"
  by (simp add: needsStripeCustomer_def invoice_ba_def hasInvoiceArrangement_def)

lemma invoice_config: "\<exists>cfg. run_state (ResolveConfig invoice_env n) (st0 ()) = (Inr cfg, st0 ())"
  by (simp add: ResolveConfig_def invoice_env_def sample_defs)

lemma invoice_live: "DeletionTimestamp (ba_meta invoice_ba) = None"
  by (simp add: invoice_ba_def sample_ba_def new_object_meta_def)

text \<open>Its first effect: the StripeCustomer, which the sample cluster stores.\<close>

lemma invoice_created:
  "run_state (getOrCreate invoice_env invoice_ba) (st0 ()) =
     (Inr ((new_stripe_customer invoice_ba)\<lparr>sc_meta := (sc_meta (new_stripe_customer invoice_ba))
         \<lparr>OwnerReferences := [owner_reference KindBillingAccount (ba_meta invoice_ba)]\<rparr>\<rparr>),
      \<lparr>world = (), trace = [SCCreate ((new_stripe_customer invoice_ba)\<lparr>sc_meta :=
        (sc_meta (new_stripe_customer invoice_ba))
         \<lparr>OwnerReferences := [owner_reference KindBillingAccount (ba_meta invoice_ba)]\<rparr>\<rparr>) True]\<rparr>)"
  by (simp add: getOrCreate_def invoice_env_def Let_def sample_env_def sample_kube_def sample_lib_def
      missing_def answer_def st0_def)

theorem only_needed_customers_witness:
  "\<exists>sc. SCCreate sc True \<in> set (effects (Reconcile_BillingAccount invoice_env production (''org'', ''acme'')) (st0 ())) \<and>
    is_ensure_effect (SCCreate sc True)"
proof -
  obtain cfg where cfg: "run_state (ResolveConfig invoice_env ''default'') (st0 ()) = (Inr cfg, st0 ())"
    using invoice_config by blast
  obtain sc t1 where created: "run_state (getOrCreate invoice_env invoice_ba) (st0 ()) = (Inr sc, t1)"
    and t1: "trace t1 = [SCCreate sc True]"
    by (rule that [OF invoice_created]) simp
  let ?rest = "State_Monad.bind (known_customer_id invoice_env invoice_ba sc) (\<lambda>x. case x of
      Inl e \<Rightarrow> ret ('''', Some e)
    | Inr i \<Rightarrow> sync_customer invoice_env (EnsureCustomer sample_stripe sample_os) invoice_ba sc i)"
  have "emits is_ensure_effect ?rest"
    unfolding known_customer_id_def findExistingCustomerID_def sync_customer_def
    by (intro effect_rules EnsureCustomer_emits emits_mono [OF record_failure_emits]
        emits_mono [OF record_synced_emits]) (auto simp: is_ensure_effect_def)
  then have "SCCreate sc True \<in> set (trace (snd (run_state ?rest t1)))"
    using emits_trace [of is_ensure_effect ?rest t1] t1 by simp
  moreover have "effects (Reconcile_BillingAccount invoice_env production (''org'', ''acme'')) (st0 ()) =
      trace (snd (run_state ?rest t1))"
    by (simp add: effects_def Reconcile_BillingAccount_def invoice_needed invoice_live sync_account_def
        buildStripeClient_def production_def cfg Ensure_def created)
      (simp add: st0_def split: prod.split)
  ultimately have "SCCreate sc True \<in> set (effects (Reconcile_BillingAccount invoice_env production (''org'', ''acme'')) (st0 ()))"
    by simp
  with only_needed_customers [OF this] show ?thesis by (auto simp: production_def)
qed


text \<open>The same account, when the StripeCustomer cannot be created.\<close>

definition refusing_env :: "unit env" where
  "refusing_env = invoice_env\<lparr>kube := (kube invoice_env)\<lparr>create_sc := \<lambda>_ w. (Inl (ApiError OtherReason ''quota''), w)\<rparr>\<rparr>"

lemma account_retry_policy_witness:
  "isl (fst (run_state (Reconcile_BillingAccount refusing_env production (''org'', ''acme'')) (st0 ())))"
proof -
  have ba: "get_ba (kube refusing_env) (''org'', ''acme'') (world (st0 ())) = (Inr invoice_ba, ())"
    by (simp add: refusing_env_def)
  have needed: "run_state (needsStripeCustomer refusing_env invoice_ba) ((st0 ())\<lparr>world := ()\<rparr>) = (Inr True, st0 ())"
    by (simp add: needsStripeCustomer_def invoice_ba_def hasInvoiceArrangement_def)
  obtain cfg where "run_state (ResolveConfig refusing_env ''default'') (st0 ()) = (Inr cfg, st0 ())"
    by (simp add: ResolveConfig_def refusing_env_def invoice_env_def sample_defs)
  then have client: "run_state (buildStripeClient refusing_env production) (st0 ()) =
      (Inr (EnsureCustomer (NewClient refusing_env cfg) (os refusing_env)), st0 ())"
    by (simp add: buildStripeClient_def production_def)
  obtain s3 where run: "run_state (Ensure refusing_env (EnsureCustomer (NewClient refusing_env cfg) (os refusing_env))
      invoice_ba) (st0 ()) = (('''', Some (WrapError (''creating StripeCustomer '' @
        quoted (Name (ba_meta invoice_ba))) (ApiError OtherReason ''quota''))), s3)"
    by (simp add: Ensure_def getOrCreate_def refusing_env_def invoice_env_def Let_def sample_env_def
        sample_kube_def sample_lib_def missing_def isNamespaceTerminatingForbidden_def)
  show ?thesis
    unfolding account_retry_policy [OF ba invoice_live needed client run] by simp
qed

lemma update_filter_complete_witness:
  "customerDetailsFromBillingAccount (sample_ba\<lparr>ba_DefaultPaymentMethodRef := Some ''card-1''\<rparr>) =
   customerDetailsFromBillingAccount sample_ba"
  using update_filter_complete [of "sample_ba\<lparr>ba_DefaultPaymentMethodRef := Some ''card-1''\<rparr>" sample_ba]
  by (simp add: invoiceArrangementChanged_def invoiceFields_def hasInvoiceArrangement_def sample_ba_def)

text \<open>Two cards of the same names in two namespaces, each bound to an account of its own namespace.\<close>

definition elsewhere :: "spm \<Rightarrow> spm" where
  "elsewhere x = x\<lparr>spm_meta := (spm_meta x)\<lparr>Namespace := ''other''\<rparr>\<rparr>"

definition two_cards :: "spm list" where
  "two_cards = [live_spm empty_spm_status, elsewhere (live_spm empty_spm_status)]"

definition parent_in :: "object_key \<Rightarrow> go_error + payment_method" where
  "parent_in k = Inr (sample_pm\<lparr>pm_meta := (pm_meta sample_pm)\<lparr>Namespace := fst k\<rparr>\<rparr>)"

definition two_namespaces :: "unit kube" where
  "two_namespaces = sample_kube\<lparr>get_pm := \<lambda>k w. (parent_in k, w),
     list_spm := \<lambda>n w. (Inr (case n of None \<Rightarrow> two_cards
       | Some n \<Rightarrow> filter (\<lambda>x. Namespace (spm_meta x) = n) two_cards), w)\<rparr>"

theorem scan_equals_events_witness:
  "fst (run_state (accountStripePaymentMethods two_namespaces ''other'' ''acme'') (st0 ())) =
     Inr [elsewhere (live_spm empty_spm_status)]"
proof -
  have "run_state (accountStripePaymentMethods two_namespaces ''other'' ''acme'') (st0 ()) =
      (Inr (filter (\<lambda>x. fst (run_state (enqueueBillingAccountForStripePaymentMethod two_namespaces x) (st0 ()))
        = [(''other'', ''acme'')]) two_cards), st0 ())"
    by (rule scan_equals_events [where parent = parent_in]) (simp_all add: two_namespaces_def parent_in_def)
  then show ?thesis
    by (simp add: enqueueBillingAccountForStripePaymentMethod_def Let_def two_cards_def two_namespaces_def
        parent_in_def elsewhere_def live_spm_def sample_spm_def sample_pm_def new_object_meta_def)
qed

end
