(* ===== verification/ProviderConfig.thy ===== *)
theory ProviderConfig
  imports PaymentMethods
begin

text \<open>
  \<open>internal/taxids/taxids.go\<close>, the table of tax ID types, and
  \<open>internal/controller/stripeproviderconfig_controller.go\<close>, which publishes it on the status of
  every \<open>StripeProviderConfig\<close>.
\<close>

section \<open>The table\<close>

record entry =
  en_Type :: string
  en_DisplayName :: string
  en_Example :: string
  en_Country :: string

abbreviation row :: "string \<Rightarrow> string \<Rightarrow> string \<Rightarrow> string \<Rightarrow> entry" where
  "row t d x c \<equiv> \<lparr>en_Type = t, en_DisplayName = d, en_Example = x, en_Country = c\<rparr>"

definition entries :: "entry list" where
  "entries = [
     row ''ad_nrt'' ''Andorra NRT'' ''A-123456-Z'' ''AD'',
     row ''ae_trn'' ''United Arab Emirates TRN'' ''123456789012345'' ''AE'',
     row ''al_tin'' ''Albania TIN'' ''J12345678N'' ''AL'',
     row ''am_tin'' ''Armenia TIN'' ''02538904'' ''AM'',
     row ''ao_tin'' ''Angola TIN'' ''5123456789'' ''AO'',
     row ''ar_cuit'' ''Argentina CUIT'' ''12-3456789-01'' ''AR'',
     row ''au_abn'' ''Australia ABN'' ''12345678912'' ''AU'',
     row ''au_arn'' ''Australia ARN'' ''1234567891234'' ''AU'',
     row ''ba_tin'' ''Bosnia and Herzegovina TIN'' ''123456789012'' ''BA'',
     row ''bb_tin'' ''Barbados TIN'' ''1123456789012'' ''BB'',
     row ''bg_uic'' ''Bulgaria UIC'' ''123456789'' ''BG'',
     row ''bh_vat'' ''Bahrain VAT'' ''123456789012345'' ''BH'',
     row ''bo_tin'' ''Bolivia TIN'' ''1234567899'' ''BO'',
     row ''br_cnpj'' ''Brazil CNPJ'' ''01.234.456/5432-10'' ''BR'',
     row ''br_cpf'' ''Brazil CPF'' ''123.456.789-87'' ''BR'',
     row ''bs_tin'' ''Bahamas TIN'' ''123456789'' ''BS'',
     row ''by_tin'' ''Belarus TIN'' ''123456789'' ''BY'',
     row ''ca_bn'' ''Canada BN'' ''123456789'' ''CA'',
     row ''ca_gst_hst'' ''Canada GST/HST'' ''123456789RT0002'' ''CA'',
     row ''ca_pst_bc'' ''Canada PST (British Columbia)'' ''PST-1234-5678'' ''CA'',
     row ''ca_pst_mb'' ''Canada PST (Manitoba)'' ''123456-7'' ''CA'',
     row ''ca_pst_sk'' ''Canada PST (Saskatchewan)'' ''1234567'' ''CA'',
     row ''ca_qst'' ''Canada QST'' ''1234567890TQ1234'' ''CA'',
     row ''cd_nif'' ''DR Congo NIF'' ''A0123456M'' ''CD'',
     row ''ch_uid'' ''Switzerland UID'' ''CHE-123.456.788'' ''CH'',
     row ''ch_vat'' ''Switzerland VAT'' ''CHE-123.456.789 MWST'' ''CH'',
     row ''cl_tin'' ''Chile TIN'' ''12.345.678-K'' ''CL'',
     row ''cn_tin'' ''China TIN'' ''123456789012345678'' ''CN'',
     row ''co_nit'' ''Colombia NIT'' ''123.456.789-0'' ''CO'',
     row ''cr_tin'' ''Costa Rica TIN'' ''1-234-567890'' ''CR'',
     row ''de_stn'' ''Germany Steuernummer'' ''1234567890'' ''DE'',
     row ''do_rcn'' ''Dominican Republic RCN'' ''123-4567890-1'' ''DO'',
     row ''ec_ruc'' ''Ecuador RUC'' ''1234567890001'' ''EC'',
     row ''eg_tin'' ''Egypt TIN'' ''123456789'' ''EG'',
     row ''es_cif'' ''Spain CIF'' ''A12345678'' ''ES'',
     row ''eu_oss_vat'' ''EU One Stop Shop VAT'' ''EU123456789'' ''EU'',
     row ''eu_vat'' ''EU VAT'' ''DE123456789'' ''EU'',
     row ''gb_vat'' ''United Kingdom VAT'' ''GB123456789'' ''GB'',
     row ''ge_vat'' ''Georgia VAT'' ''123456789'' ''GE'',
     row ''gn_nif'' ''Guinea NIF'' ''123456789'' ''GN'',
     row ''hk_br'' ''Hong Kong BR'' ''12345678'' ''HK'',
     row ''hr_oib'' ''Croatia OIB'' ''12345678901'' ''HR'',
     row ''hu_tin'' ''Hungary TIN'' ''12345678-1-23'' ''HU'',
     row ''id_npwp'' ''Indonesia NPWP'' ''012345678901234'' ''ID'',
     row ''il_vat'' ''Israel VAT'' ''000012345'' ''IL'',
     row ''in_gst'' ''India GST'' ''12ABCDE3456FGZH'' ''IN'',
     row ''is_vat'' ''Iceland VAT'' ''123456'' ''IS'',
     row ''jp_cn'' ''Japan Corporate Number'' ''1234567891234'' ''JP'',
     row ''jp_rn'' ''Japan Registered Number'' ''12345'' ''JP'',
     row ''jp_trn'' ''Japan TRN'' ''T1234567891234'' ''JP'',
     row ''ke_pin'' ''Kenya PIN'' ''P000111111A'' ''KE'',
     row ''kh_tin'' ''Cambodia TIN'' ''1001-123456789'' ''KH'',
     row ''kr_brn'' ''South Korea BRN'' ''123-45-67890'' ''KR'',
     row ''kz_bin'' ''Kazakhstan BIN'' ''123456789012'' ''KZ'',
     row ''li_uid'' ''Liechtenstein UID'' ''CHE123456789'' ''LI'',
     row ''li_vat'' ''Liechtenstein VAT'' ''12345'' ''LI'',
     row ''ma_vat'' ''Morocco VAT'' ''12345678'' ''MA'',
     row ''md_vat'' ''Moldova VAT'' ''1234567'' ''MD'',
     row ''me_pib'' ''Montenegro PIB'' ''12345678'' ''ME'',
     row ''mk_vat'' ''North Macedonia VAT'' ''MK1234567890123'' ''MK'',
     row ''mr_nif'' ''Mauritania NIF'' ''12345678'' ''MR'',
     row ''mx_rfc'' ''Mexico RFC'' ''ABC010203AB9'' ''MX'',
     row ''my_frp'' ''Malaysia FRP'' ''12345678'' ''MY'',
     row ''my_itn'' ''Malaysia ITN'' ''C 1234567890'' ''MY'',
     row ''my_sst'' ''Malaysia SST'' ''A12-3456-78912345'' ''MY'',
     row ''ng_tin'' ''Nigeria TIN'' ''12345678-0001'' ''NG'',
     row ''no_vat'' ''Norway VAT'' ''123456789MVA'' ''NO'',
     row ''no_voec'' ''Norway VOEC'' ''1234567'' ''NO'',
     row ''np_pan'' ''Nepal PAN'' ''123456789'' ''NP'',
     row ''nz_gst'' ''New Zealand GST'' ''123456789'' ''NZ'',
     row ''om_vat'' ''Oman VAT'' ''OM1234567890'' ''OM'',
     row ''pe_ruc'' ''Peru RUC'' ''12345678901'' ''PE'',
     row ''ph_tin'' ''Philippines TIN'' ''123456789'' ''PH'',
     row ''ro_tin'' ''Romania TIN'' ''1234567890123'' ''RO'',
     row ''rs_pib'' ''Serbia PIB'' ''123456789'' ''RS'',
     row ''ru_inn'' ''Russia INN'' ''1234567891'' ''RU'',
     row ''ru_kpp'' ''Russia KPP'' ''123456789'' ''RU'',
     row ''sa_vat'' ''Saudi Arabia VAT'' ''123456789012345'' ''SA'',
     row ''sg_gst'' ''Singapore GST'' ''M12345678X'' ''SG'',
     row ''sg_uen'' ''Singapore UEN'' ''123456789F'' ''SG'',
     row ''si_tin'' ''Slovenia TIN'' ''12345678'' ''SI'',
     row ''sn_ninea'' ''Senegal NINEA'' ''12345672A2'' ''SN'',
     row ''sr_fin'' ''Suriname FIN'' ''1234567890'' ''SR'',
     row ''sv_nit'' ''El Salvador NIT'' ''1234-567890-123-4'' ''SV'',
     row ''th_vat'' ''Thailand VAT'' ''1234567891234'' ''TH'',
     row ''tj_tin'' ''Tajikistan TIN'' ''123456789'' ''TJ'',
     row ''tr_tin'' ''Turkey TIN'' ''0123456789'' ''TR'',
     row ''tw_vat'' ''Taiwan VAT'' ''12345678'' ''TW'',
     row ''tz_vat'' ''Tanzania VAT'' ''12345678A'' ''TZ'',
     row ''ua_vat'' ''Ukraine VAT'' ''123456789'' ''UA'',
     row ''ug_tin'' ''Uganda TIN'' ''1234567890'' ''UG'',
     row ''us_ein'' ''United States EIN'' ''12-3456789'' ''US'',
     row ''uy_ruc'' ''Uruguay RUC'' ''123456789012'' ''UY'',
     row ''uz_tin'' ''Uzbekistan TIN'' ''123456789'' ''UZ'',
     row ''uz_vat'' ''Uzbekistan VAT'' ''123456789012'' ''UZ'',
     row ''ve_rif'' ''Venezuela RIF'' ''A-12345678-9'' ''VE'',
     row ''vn_tin'' ''Vietnam TIN'' ''1234567890'' ''VN'',
     row ''za_vat'' ''South Africa VAT'' ''4123456789'' ''ZA'',
     row ''zm_tin'' ''Zambia TIN'' ''1004751879'' ''ZM'',
     row ''zw_tin'' ''Zimbabwe TIN'' ''1234567890'' ''ZW'']"

definition All :: "entry list" where
  "All = entries"

section \<open>The reconciler\<close>

definition desiredSupportedTaxIDTypes :: "supported_tax_id list" where
  "desiredSupportedTaxIDTypes =
     map (\<lambda>e. \<lparr>ti_Type = en_Type e, ti_DisplayName = en_DisplayName e, ti_Example = en_Example e,
       ti_Country = en_Country e\<rparr>) All"

definition published_condition :: "int \<Rightarrow> condition" where
  "published_condition g = \<lparr>c_Type = ''Ready'', c_Status = ConditionTrue, c_ObservedGeneration = g,
     c_Reason = ''Published'', c_Message = ''Tax-ID metadata published to status.supportedTaxIDTypes.''\<rparr>"

definition config_up_to_date :: "lib \<Rightarrow> provider_config \<Rightarrow> bool" where
  "config_up_to_date L cfg \<longleftrightarrow>
     cfg_SupportedTaxIDTypes (cfg_status cfg) = desiredSupportedTaxIDTypes \<and>
     cfg_ObservedGeneration (cfg_status cfg) = Generation (cfg_meta cfg) \<and>
     IsStatusConditionTrue L (cfg_Conditions (cfg_status cfg)) ''Ready''"

definition published_config :: "lib \<Rightarrow> provider_config \<Rightarrow> provider_config" where
  "published_config L cfg = cfg\<lparr>cfg_status := \<lparr>
     cfg_Conditions = SetStatusCondition L (cfg_Conditions (cfg_status cfg))
       (published_condition (Generation (cfg_meta cfg))),
     cfg_SupportedTaxIDTypes = desiredSupportedTaxIDTypes,
     cfg_ObservedGeneration = Generation (cfg_meta cfg)\<rparr>\<rparr>"

definition Reconcile_StripeProviderConfig :: "'w env \<Rightarrow> string \<Rightarrow> ('w, result) prog" where
  "Reconcile_StripeProviderConfig E n = do {
     r \<leftarrow> ask (get_cfg (kube E) n);
     case r of
       Inl e \<Rightarrow> (if IsNotFound e then ret (Inr 0) else ret (Inl e))
     | Inr cfg \<Rightarrow>
         (if config_up_to_date (lib E) cfg then ret (Inr 0)
          else do {
            let cfg' = published_config (lib E) cfg;
            p \<leftarrow> act (patch_cfg_status (kube E) cfg cfg') (\<lambda>r. CfgStatusPatch cfg' (\<not> isl r));
            case p of Inl e \<Rightarrow> ret (Inl e) | Inr _ \<Rightarrow> ret (Inr 0)
          })
   }"

section \<open>Facts: the table\<close>

text \<open>
  The schema of \<open>status.supportedTaxIDTypes\<close> (the markers on \<open>SupportedTaxIDType\<close>): the
  pattern of a type, and the length limits.
\<close>

definition is_lower :: "char \<Rightarrow> bool" where
  "is_lower c \<longleftrightarrow> 97 \<le> (of_char c :: nat) \<and> (of_char c :: nat) \<le> 122"

fun type_pattern :: "string \<Rightarrow> bool" where
  "type_pattern (a # b # u # c # cs) \<longleftrightarrow> is_lower a \<and> is_lower b \<and> u = CHR ''_'' \<and> is_lower c \<and>
     list_all (\<lambda>x. is_lower x \<or> x = CHR ''_'') cs"
| "type_pattern _ \<longleftrightarrow> False"

definition to_upper :: "char \<Rightarrow> char" where
  "to_upper c = (if is_lower c then char_of (of_char c - 32 :: nat) else c)"

definition schema_ok :: "supported_tax_id \<Rightarrow> bool" where
  "schema_ok t \<longleftrightarrow> type_pattern (ti_Type t) \<and> ti_DisplayName t \<noteq> '''' \<and>
     length (ti_DisplayName t) \<le> 128 \<and> length (ti_Example t) \<le> 64 \<and> length (ti_Country t) \<le> 2"

fun ascending :: "string list \<Rightarrow> bool" where
  "ascending (x # y # ys) \<longleftrightarrow> x < y \<and> ascending (y # ys)"
| "ascending _ \<longleftrightarrow> True"

lemma ascending_sorted: "ascending xs \<Longrightarrow> sorted_wrt (<) xs"
proof (induction xs rule: ascending.induct)
  case (1 x y ys)
  then have "sorted_wrt (<) (y # ys)" "x < y" by simp_all
  then show ?case by (auto intro: less_trans)
qed simp_all

lemma types_ascending: "ascending (map ti_Type desiredSupportedTaxIDTypes)"
  by code_simp

lemma types_schema: "list_all schema_ok desiredSupportedTaxIDTypes"
  by code_simp

lemma types_country:
  "list_all (\<lambda>t. ti_Country t = map to_upper (take 2 (ti_Type t))) desiredSupportedTaxIDTypes"
  by code_simp

lemma types_distinct: "distinct (map ti_Type desiredSupportedTaxIDTypes)"
  using ascending_sorted [OF types_ascending] strict_sorted_iff by blast

text \<open>
  The published list is valid for its schema and its list-map key: the types are
  strictly ascending (so there are no duplicates and the order is the same on every publication), each
  type matches the required pattern, every display name is present and every field is within its
  length limit, and the country is the type's own prefix in capitals.
\<close>

lemma published_types_valid:
  "sorted_wrt (<) (map ti_Type desiredSupportedTaxIDTypes) \<and>
   distinct (map ti_Type desiredSupportedTaxIDTypes) \<and>
   list_all (\<lambda>t. schema_ok t \<and> ti_Country t = map to_upper (take 2 (ti_Type t)))
     desiredSupportedTaxIDTypes"
  using ascending_sorted [OF types_ascending] types_distinct types_schema types_country
  by (simp add: list_all_iff)

text \<open>
  C40 (invariant): publishing converges: what the reconciler patches a config to is up to date, so once
  the patch is stored the next reconcile at that generation changes nothing; and a config that is up to
  date is never patched.
\<close>

theorem config_publication_converges:
  assumes "conditions_ok (lib E)" and "get_cfg (kube E) n (world s) = (Inr cfg, w)"
  shows "effects (Reconcile_StripeProviderConfig E n) s =
      (if config_up_to_date (lib E) cfg then []
       else [CfgStatusPatch (published_config (lib E) cfg)
         (\<not> isl (fst (patch_cfg_status (kube E) cfg (published_config (lib E) cfg) w)))]) \<and>
    config_up_to_date (lib E) (published_config (lib E) cfg)"
proof -
  have "config_up_to_date (lib E) (published_config (lib E) cfg)"
    using assms(1)
    by (simp add: config_up_to_date_def published_config_def published_condition_def conditions_ok_def)
  moreover have "effects (Reconcile_StripeProviderConfig E n) s =
      (if config_up_to_date (lib E) cfg then []
       else [CfgStatusPatch (published_config (lib E) cfg)
         (\<not> isl (fst (patch_cfg_status (kube E) cfg (published_config (lib E) cfg) w)))])"
    using assms(2) by (intro effects_eqI)
      (auto simp: Reconcile_StripeProviderConfig_def Let_def split: prod.split sum.split)
  ultimately show ?thesis by simp
qed

theorem config_publication_converges_witness:
  "\<exists>cfg' ok. effects (Reconcile_StripeProviderConfig
     (sample_env\<lparr>kube := sample_kube\<lparr>get_cfg := \<lambda>_. answer sample_cfg\<rparr>\<rparr>) ''default'') (st0 ())
     = [CfgStatusPatch cfg' ok] \<and> config_up_to_date sample_lib cfg'"
proof -
  let ?E = "sample_env\<lparr>kube := sample_kube\<lparr>get_cfg := \<lambda>_. answer sample_cfg\<rparr>\<rparr>"
  have "desiredSupportedTaxIDTypes \<noteq> []"
    by (simp add: desiredSupportedTaxIDTypes_def All_def entries_def)
  then have "\<not> config_up_to_date (lib ?E) sample_cfg"
    by (auto simp: config_up_to_date_def sample_cfg_def)
  moreover have lib: "lib ?E = sample_lib" by (simp add: sample_env_def)
  have "get_cfg (kube ?E) ''default'' (world (st0 ())) = (Inr sample_cfg, ())"
    by (simp add: answer_def st0_def)
  from config_publication_converges [OF _ this] sample_lib_conditions lib
  have "effects (Reconcile_StripeProviderConfig ?E ''default'') (st0 ()) =
      (if config_up_to_date (lib ?E) sample_cfg then []
       else [CfgStatusPatch (published_config (lib ?E) sample_cfg)
         (\<not> isl (fst (patch_cfg_status (kube ?E) sample_cfg (published_config (lib ?E) sample_cfg) ())))]) \<and>
    config_up_to_date (lib ?E) (published_config (lib ?E) sample_cfg)" by metis
  ultimately show ?thesis unfolding lib by metis
qed

end
