(* ===== verification/Webhook.thy ===== *)
theory Webhook
  imports PaymentMethods Deduper
begin

text \<open>
  \<open>internal/webhook\<close>: the receiver of Stripe's events. \<open>ServeHTTP\<close> is one request: the
  guards, the signature, the deduplicator and the handler, which \<open>dispatch\<close> routes to the two
  handlers of SetupIntent events. The handlers record the outcome on the \<open>StripePaymentMethod\<close> and
  project it onto the parent \<open>PaymentMethod\<close>. The deduplicator is the interface
  \<open>event_deduper\<close>; the facts about redelivery are proved for every implementation of it and then
  hold of \<open>MemoryDeduper\<close>. Logs are left out; the metrics and other handlers than \<open>dispatch\<close> are in
  \<open>WebhookServer\<close>.
\<close>

section \<open>Requests and responses\<close>

datatype outcome = OutcomeSuccess | OutcomeDuplicate | OutcomeInvalidSignature
  | OutcomeMissingSignature | OutcomeMalformed | OutcomeMethodNotAllowed
  | OutcomeProviderConfigErr | OutcomeHandlerError | OutcomeIgnored

record http_request =
  rq_Method :: string
  rq_Body :: string                    \<comment> \<open>what the body delivers\<close>
  rq_BodyError :: "go_error option"    \<comment> \<open>how it ends: an error, or the end of the stream\<close>
  rq_Signature :: string               \<comment> \<open>the header, empty when it is missing\<close>

record reply =
  HttpStatus :: int
  Outcome :: outcome
  EventType :: string

record webhook =
  wh_ProviderConfigName :: string
  wh_Recorder :: bool                  \<comment> \<open>whether a recorder is set\<close>

definition maxBodyBytes :: nat where
  "maxBodyBytes = 2 ^ 18"

text \<open>How old a signature may be.\<close>

definition signatureTolerance :: gotime where
  "signatureTolerance = 5 * 60 * second"

definition OkResponse :: int where "OkResponse = 200"
definition BadRequestResponse :: int where "BadRequestResponse = 400"
definition UnauthorizedResponse :: int where "UnauthorizedResponse = 401"
definition MethodNotAllowedResponse :: int where "MethodNotAllowedResponse = 405"
definition InternalServerErrorResponse :: int where "InternalServerErrorResponse = 500"

text \<open>\<open>io.ReadAll(io.LimitReader(r.Body, maxBodyBytes))\<close>: an error past the limit is not seen.\<close>

definition read_body :: "http_request \<Rightarrow> go_error + string" where
  "read_body rq =
     (if maxBodyBytes \<le> length (rq_Body rq) then Inr (take maxBodyBytes (rq_Body rq))
      else case rq_BodyError rq of Some e \<Rightarrow> Inl e | None \<Rightarrow> Inr (rq_Body rq))"

section \<open>Activity timeline events (\<open>events.go\<close>)\<close>

definition setupDeclineReason :: "string \<Rightarrow> string \<Rightarrow> decline_reason" where
  "setupDeclineReason code declineCode =
     (let is = (\<lambda>codes. list_ex (\<lambda>c. code = c \<or> declineCode = c) codes) in
      if is [''insufficient_funds''] then DeclineInsufficientFunds
      else if is [''expired_card''] then DeclineExpiredCard
      else if is [''authentication_required'', ''setup_intent_authentication_failure'']
      then DeclineAuthenticationRequired
      else if is [''processing_error'', ''issuer_not_available'', ''try_again_later'',
                  ''reenter_transaction'']
      then DeclineProcessingError
      else DeclineDeclined)"

text \<open>\<open>time.Date(y, m, 1, 0, 0, 0, 0, time.UTC)\<close> for a year after 0 and a month of 1 to 12.\<close>

definition is_leap :: "int \<Rightarrow> bool" where
  "is_leap y \<longleftrightarrow> y mod 4 = 0 \<and> (y mod 100 \<noteq> 0 \<or> y mod 400 = 0)"

definition days_before_month :: "int \<Rightarrow> int \<Rightarrow> int" where
  "days_before_month y m =
     [0, 31, 59, 90, 120, 151, 181, 212, 243, 273, 304, 334] ! nat (m - 1)
     + (if 2 < m \<and> is_leap y then 1 else 0)"

definition month_start :: "int \<Rightarrow> int \<Rightarrow> gotime" where
  "month_start y m =
     (let z = y - 1;
          days = 365 * z + z div 4 - z div 100 + z div 400 + days_before_month y m - 719162
      in days * 86400 * second)"

definition attachedEventDetail :: "lib \<Rightarrow> payment_method \<Rightarrow> (string \<rightharpoonup> string)" where
  "attachedEventDetail L pm =
     (let detail = [AnnBillingAccount L \<mapsto> pm_BillingAccountRef pm] in
      case Option.bind (pm_Details pm) pd_Card of
        None \<Rightarrow> detail
      | Some pc \<Rightarrow>
          (let card = pc_Card pc;
               detail = detail(AnnCardBrand L \<mapsto> cd_Brand card);
               detail = detail(AnnCardLast4 L \<mapsto> cd_Last4 card)
           in if cd_ExpiryYear card > 0 \<and> cd_ExpiryMonth card \<ge> 1 \<and> cd_ExpiryMonth card \<le> 12
              then detail(AnnCardExpiry L \<mapsto>
                     EventTime L (month_start (cd_ExpiryYear card) (cd_ExpiryMonth card)))
              else detail))"

definition failedEventDetail ::
  "lib \<Rightarrow> payment_method \<Rightarrow> setup_intent_payload \<Rightarrow> (string \<rightharpoonup> string)" where
  "failedEventDetail L pm si =
     (let detail = [AnnBillingAccount L \<mapsto> pm_BillingAccountRef pm] in
      case sp_LastSetupError si of
        None \<Rightarrow> detail
      | Some le \<Rightarrow> detail(AnnDeclineReason L \<mapsto>
          DeclineReasonText L (setupDeclineReason (le_Code le) (le_DeclineCode le))))"

definition recordPaymentMethodEvent ::
  "'w env \<Rightarrow> webhook \<Rightarrow> payment_method \<Rightarrow> (string \<rightharpoonup> string) \<Rightarrow> event_kind \<Rightarrow> event_reason \<Rightarrow> string
    \<Rightarrow> ('w, unit) prog" where
  "recordPaymentMethodEvent E wh pm detail kind reason message =
     (if \<not> wh_Recorder wh then ret ()
      else act (record_event (kube E) (key_of (pm_meta pm)))
        (\<lambda>_. EventRecorded (key_of (pm_meta pm))
          (OrganizationScopeAnnotations (lib E) (Namespace (pm_meta pm)) ++ detail) kind reason message))"

section \<open>Finding the resource\<close>

definition metadata_value :: "setup_intent_payload \<Rightarrow> string \<Rightarrow> string" where
  "metadata_value si k = (case sp_Metadata si k of None \<Rightarrow> '''' | Some v \<Rightarrow> v)"

definition decodeSetupIntent :: "'w surroundings \<Rightarrow> stripe_event \<Rightarrow> go_error + setup_intent_payload" where
  "decodeSetupIntent rt ev =
     (case ev_Data ev of
        None \<Rightarrow> Inl (NewError ''event has no data'')
      | Some raw \<Rightarrow>
          (if raw = '''' then Inl (NewError ''event has no data'')
           else case unmarshal_setup_intent rt raw of
               Inl e \<Rightarrow> Inl (WrapError ''decoding SetupIntent payload'' e)
             | Inr si \<Rightarrow> (if sp_ID si = '''' then Inl (NewError ''SetupIntent payload missing id'')
                 else Inr si)))"

definition has_setup_intent :: "string \<Rightarrow> spm \<Rightarrow> bool" where
  "has_setup_intent i spm =
     (case SetupIntent (spm_status spm) of None \<Rightarrow> False | Some s \<Rightarrow> si_ID s = i)"

definition findStripePaymentMethod ::
  "'w kube \<Rightarrow> setup_intent_payload \<Rightarrow> ('w, go_error + spm option) prog" where
  "findStripePaymentMethod K si =
     (let ns = metadata_value si ''stripe_payment_method_namespace'';
          n = metadata_value si ''stripe_payment_method_name''
      in if ns \<noteq> '''' \<and> n \<noteq> '''' then do {
           r \<leftarrow> ask (get_spm K (ns, n));
           case r of
             Inl e \<Rightarrow> (if IsNotFound e then ret (Inr None)
               else ret (Inl (WrapError (''getting StripePaymentMethod '' @ ns @ ''/'' @ n) e)))
           | Inr spm \<Rightarrow> ret (Inr (Some spm))
         }
         else do {
           r \<leftarrow> ask (list_spm K None);
           case r of
             Inl e \<Rightarrow> ret (Inl (WrapError ''listing StripePaymentMethods'' e))
           | Inr items \<Rightarrow> ret (Inr (find (has_setup_intent (sp_ID si)) items))
         })"

section \<open>Recording the outcome\<close>

definition card_of_details :: "payment_method_details \<Rightarrow> card_details" where
  "card_of_details pm = \<lparr>cd_Brand = pmd_Brand pm, cd_Last4 = pmd_Last4 pm,
     cd_IssuerIdentificationNumber = pmd_BIN pm, cd_Country = pmd_Country pm,
     cd_ExpiryMonth = pmd_ExpMonth pm, cd_ExpiryYear = pmd_ExpYear pm,
     cd_AVSResult = pmd_AVSResult pm, cd_CVCResult = pmd_CVCResult pm\<rparr>"

definition setup_intent_or_empty :: "spm_status \<Rightarrow> setup_intent_status" where
  "setup_intent_or_empty st = (case SetupIntent st of None \<Rightarrow> empty_setup_intent | Some s \<Rightarrow> s)"

definition confirmed_condition :: "condition_status \<Rightarrow> int \<Rightarrow> string \<Rightarrow> string \<Rightarrow> condition" where
  "confirmed_condition status g reason msg = \<lparr>c_Type = ''Confirmed'', c_Status = status,
     c_ObservedGeneration = g, c_Reason = reason, c_Message = msg\<rparr>"

definition success_status ::
  "lib \<Rightarrow> spm \<Rightarrow> setup_intent_payload \<Rightarrow> payment_method_details \<Rightarrow> gotime \<Rightarrow> spm_status" where
  "success_status L spm si pm now =
     (let st = (spm_status spm)\<lparr>Phase := Active, StripePaymentMethodID := pmd_ID pm,
             ConfirmedAt := Some now\<rparr>;
          st = st\<lparr>SetupIntent := Some ((setup_intent_or_empty st)\<lparr>si_ID := sp_ID si,
             si_Status := sp_Status si, si_ClientSecret := ''''\<rparr>)\<rparr>;
          st = (if pmd_Type pm = ''card'' then st\<lparr>Instrument := Some \<lparr>in_Type = InstrumentCard,
                  in_Card = Some (card_of_details pm), in_USBankAccount = None\<rparr>\<rparr> else st)
      in st\<lparr>Conditions := SetStatusCondition L (Conditions st)
           (confirmed_condition ConditionTrue (Generation (spm_meta spm)) ''SetupIntentSucceeded''
             (''Stripe SetupIntent '' @ sp_ID si @ '' succeeded.''))\<rparr>)"

definition patchStripeSuccess ::
  "'w env \<Rightarrow> spm \<Rightarrow> setup_intent_payload \<Rightarrow> payment_method_details \<Rightarrow> ('w, go_error + spm) prog" where
  "patchStripeSuccess E spm si pm = do {
     now \<leftarrow> ask (clock (os E));
     let spm' = spm\<lparr>spm_status := success_status (lib E) spm si pm now\<rparr>;
     act (patch_spm_status (kube E) spm spm') (\<lambda>r. SPMStatusPatch spm' (\<not> isl r))
   }"

definition failure_text :: "setup_intent_payload \<Rightarrow> string" where
  "failure_text si =
     (let msg = ''Stripe SetupIntent '' @ sp_ID si @ '' failed.'' in
      case sp_LastSetupError si of
        None \<Rightarrow> msg
      | Some le \<Rightarrow> (if le_Message le \<noteq> '''' then le_Message le else msg))"

definition failure_status :: "lib \<Rightarrow> spm \<Rightarrow> setup_intent_payload \<Rightarrow> spm_status" where
  "failure_status L spm si =
     (let st = (spm_status spm)\<lparr>Phase := Failed\<rparr>;
          st = st\<lparr>SetupIntent := Some ((setup_intent_or_empty st)\<lparr>si_ID := sp_ID si,
             si_Status := sp_Status si\<rparr>)\<rparr>;
          st = (case sp_LastSetupError si of
                 None \<Rightarrow> st
               | Some le \<Rightarrow> st\<lparr>FailureReason := le_Code le, FailureMessage := le_Message le\<rparr>)
      in st\<lparr>Conditions := SetStatusCondition L (Conditions st)
           (confirmed_condition ConditionFalse (Generation (spm_meta spm)) ''SetupIntentFailed''
             (failure_text si))\<rparr>)"

definition patchStripeFailure ::
  "'w env \<Rightarrow> spm \<Rightarrow> setup_intent_payload \<Rightarrow> ('w, go_error + spm) prog" where
  "patchStripeFailure E spm si =
     (let spm' = spm\<lparr>spm_status := failure_status (lib E) spm si\<rparr> in
      act (patch_spm_status (kube E) spm spm') (\<lambda>r. SPMStatusPatch spm' (\<not> isl r)))"

section \<open>Projecting it onto the parent PaymentMethod\<close>

definition ready_condition :: "lib \<Rightarrow> condition_status \<Rightarrow> int \<Rightarrow> string \<Rightarrow> string \<Rightarrow> condition" where
  "ready_condition L status g reason msg = \<lparr>c_Type = InstrumentReady L, c_Status = status,
     c_ObservedGeneration = g, c_Reason = reason, c_Message = msg\<rparr>"

definition billing_address_of :: "customer_address \<Rightarrow> address" where
  "billing_address_of a = \<lparr>ad_Country = ca_Country a, ad_Line1 = ca_Line1 a, ad_Line2 = ca_Line2 a,
     ad_City = ca_City a, ad_Region = ca_State a, ad_PostalCode = ca_PostalCode a\<rparr>"

definition active_pm :: "lib \<Rightarrow> payment_method \<Rightarrow> payment_method_details \<Rightarrow> payment_method" where
  "active_pm L bm pm =
     (let bm = bm\<lparr>pm_Phase := PMActive\<rparr>;
          bm = (if pmd_Type pm = ''card'' then bm\<lparr>pm_Details := Some \<lparr>pd_Type = PMInstrumentCard,
                  pd_Card = Some \<lparr>pc_Card = card_of_details pm,
                    pc_BillingAddress = map_option billing_address_of (pmd_BillingAddress pm)\<rparr>\<rparr>\<rparr>
                else bm)
      in bm\<lparr>pm_Conditions := SetStatusCondition L (pm_Conditions bm)
           (ready_condition L ConditionTrue (Generation (pm_meta bm)) ''Active''
             ''Payment method confirmed by stripe-provider.'')\<rparr>)"

definition get_parent :: "'w env \<Rightarrow> spm \<Rightarrow> ('w, go_error + payment_method) prog" where
  "get_parent E spm = do {
     let key = (Namespace (spm_meta spm), spm_PaymentMethodRef spm);
     r \<leftarrow> ask (get_pm (kube E) key);
     case r of
       Inl e \<Rightarrow> ret (Inl (WrapError (''getting PaymentMethod '' @ fst key @ ''/'' @ snd key) e))
     | Inr bm \<Rightarrow> ret (Inr bm)
   }"

definition projectOntoPaymentMethod ::
  "'w env \<Rightarrow> webhook \<Rightarrow> spm \<Rightarrow> payment_method_details \<Rightarrow> ('w, go_error option) prog" where
  "projectOntoPaymentMethod E wh spm pm = do {
     r \<leftarrow> get_parent E spm;
     case r of
       Inl e \<Rightarrow> ret (Some e)
     | Inr bm \<Rightarrow> do {
         let wasActive = (pm_Phase bm = PMActive);
         let bm' = active_pm (lib E) bm pm;
         p \<leftarrow> act (patch_pm_status (kube E) bm bm') (\<lambda>r. PMStatusPatch bm' (\<not> isl r));
         case p of
           Inl e \<Rightarrow> ret (Some e)
         | Inr bm \<Rightarrow> do {
             _ \<leftarrow> (if \<not> wasActive
                   then recordPaymentMethodEvent E wh bm (attachedEventDetail (lib E) bm) EventNormal
                     ReasonPaymentMethodAttached ''Payment method is ready to use.''
                   else ret ());
             ret None
           }
       }
   }"

definition failed_pm :: "lib \<Rightarrow> payment_method \<Rightarrow> setup_intent_payload \<Rightarrow> payment_method" where
  "failed_pm L bm si =
     (let bm = bm\<lparr>pm_Phase := PMFailed\<rparr>;
          reason = (case sp_LastSetupError si of
              None \<Rightarrow> ''SetupIntentFailed''
            | Some le \<Rightarrow> (if le_Code le \<noteq> '''' then le_Code le else ''SetupIntentFailed''));
          bm = (case sp_LastSetupError si of
              None \<Rightarrow> bm
            | Some le \<Rightarrow>
                (let bm = (if le_Code le \<noteq> '''' then bm\<lparr>pm_FailureReason := le_Code le\<rparr> else bm)
                 in if le_Message le \<noteq> '''' then bm\<lparr>pm_FailureMessage := le_Message le\<rparr> else bm))
      in bm\<lparr>pm_Conditions := SetStatusCondition L (pm_Conditions bm)
           (ready_condition L ConditionFalse (Generation (pm_meta bm)) reason (failure_text si))\<rparr>)"

definition projectFailureOntoPaymentMethod ::
  "'w env \<Rightarrow> webhook \<Rightarrow> spm \<Rightarrow> setup_intent_payload \<Rightarrow> ('w, go_error option) prog" where
  "projectFailureOntoPaymentMethod E wh spm si = do {
     r \<leftarrow> get_parent E spm;
     case r of
       Inl e \<Rightarrow> ret (Some e)
     | Inr bm \<Rightarrow> do {
         let wasFailed = (pm_Phase bm = PMFailed);
         let bm' = failed_pm (lib E) bm si;
         p \<leftarrow> act (patch_pm_status (kube E) bm bm') (\<lambda>r. PMStatusPatch bm' (\<not> isl r));
         case p of
           Inl e \<Rightarrow> ret (Some e)
         | Inr bm \<Rightarrow> do {
             _ \<leftarrow> (if \<not> wasFailed
                   then recordPaymentMethodEvent E wh bm (failedEventDetail (lib E) bm si) EventWarning
                     ReasonPaymentMethodFailed ''Payment method could not be added.''
                   else ret ());
             ret None
           }
       }
   }"

section \<open>Handlers\<close>

definition record_success ::
  "'w env \<Rightarrow> webhook \<Rightarrow> spm \<Rightarrow> setup_intent_payload \<Rightarrow> payment_method_details
    \<Rightarrow> ('w, go_error option) prog" where
  "record_success E wh spm si pm = do {
     p \<leftarrow> patchStripeSuccess E spm si pm;
     case p of
       Inl e \<Rightarrow> ret (Some e)
     | Inr spm \<Rightarrow> projectOntoPaymentMethod E wh spm pm
   }"

definition record_setup_failure ::
  "'w env \<Rightarrow> webhook \<Rightarrow> spm \<Rightarrow> setup_intent_payload \<Rightarrow> ('w, go_error option) prog" where
  "record_setup_failure E wh spm si = do {
     p \<leftarrow> patchStripeFailure E spm si;
     case p of
       Inl e \<Rightarrow> ret (Some e)
     | Inr spm \<Rightarrow> projectFailureOntoPaymentMethod E wh spm si
   }"

definition confirm_with_stripe ::
  "'w env \<Rightarrow> webhook \<Rightarrow> spm \<Rightarrow> setup_intent_payload \<Rightarrow> ('w, go_error option) prog" where
  "confirm_with_stripe E wh spm si = do {
     g \<leftarrow> ResolveConfig E (wh_ProviderConfigName wh);
     case g of
       Inl e \<Rightarrow> ret (Some e)
     | Inr cfg \<Rightarrow> do {
         let S = NewClient E cfg;
         d \<leftarrow> RetrievePaymentMethod S (sp_PaymentMethod si);
         case d of
           Inl e \<Rightarrow> ret (Some (WrapError (''retrieving PaymentMethod for SetupIntent ''
             @ quoted (sp_ID si)) e))
         | Inr pm \<Rightarrow> do {
             _ \<leftarrow> (if pmd_Name pm \<noteq> '''' \<and> sp_Customer si \<noteq> ''''
                   then BackfillCustomerName S (sp_Customer si) (pmd_Name pm)
                   else ret None);
             record_success E wh spm si pm
           }
       }
   }"

definition with_resource ::
  "'w env \<Rightarrow> stripe_event \<Rightarrow> (spm \<Rightarrow> setup_intent_payload \<Rightarrow> ('w, go_error option) prog)
    \<Rightarrow> ('w, go_error option) prog" where
  "with_resource E ev k =
     (case decodeSetupIntent (os E) ev of
        Inl e \<Rightarrow> ret (Some e)
      | Inr si \<Rightarrow> do {
          f \<leftarrow> findStripePaymentMethod (kube E) si;
          case f of
            Inl e \<Rightarrow> ret (Some e)
          | Inr None \<Rightarrow> ret None
          | Inr (Some spm) \<Rightarrow> k spm si
        })"

definition handleSetupIntentSucceeded ::
  "'w env \<Rightarrow> webhook \<Rightarrow> stripe_event \<Rightarrow> ('w, go_error option) prog" where
  "handleSetupIntentSucceeded E wh ev = with_resource E ev (confirm_with_stripe E wh)"

definition handleSetupIntentFailed ::
  "'w env \<Rightarrow> webhook \<Rightarrow> stripe_event \<Rightarrow> ('w, go_error option) prog" where
  "handleSetupIntentFailed E wh ev = with_resource E ev (record_setup_failure E wh)"

definition status_of :: "go_error option \<Rightarrow> int" where
  "status_of err = (case err of Some e \<Rightarrow> InternalServerErrorResponse | None \<Rightarrow> OkResponse)"

definition dispatch :: "'w env \<Rightarrow> webhook \<Rightarrow> stripe_event \<Rightarrow> ('w, int) prog" where
  "dispatch E wh ev =
     (if ev_Type ev = ''setup_intent.succeeded'' then do {
        err \<leftarrow> handleSetupIntentSucceeded E wh ev;
        ret (status_of err)
      }
      else if ev_Type ev = ''setup_intent.setup_failed'' \<or> ev_Type ev = ''setup_intent.canceled'' then do {
        err \<leftarrow> handleSetupIntentFailed E wh ev;
        ret (status_of err)
      }
      else ret OkResponse)"

section \<open>ServeHTTP\<close>

definition outcome_of :: "int \<Rightarrow> outcome" where
  "outcome_of status =
     (if 200 \<le> status \<and> status < 300 then OutcomeSuccess
      else if 500 \<le> status then OutcomeHandlerError
      else OutcomeMalformed)"

definition answer_with :: "int \<Rightarrow> outcome \<Rightarrow> string \<Rightarrow> 'd \<Rightarrow> ('w, reply \<times> 'd) prog" where
  "answer_with status oc t d = ret (\<lparr>HttpStatus = status, Outcome = oc, EventType = t\<rparr>, d)"

text \<open>
  The verified event, deduplicated and handled; \<open>seen\<close> is the deduplicator, for a nil one the function that
  has seen nothing.
\<close>

definition deliver ::
  "'w env \<Rightarrow> webhook \<Rightarrow> ('d \<Rightarrow> string \<Rightarrow> bool \<times> 'd) \<Rightarrow> 'd \<Rightarrow> stripe_event \<Rightarrow> ('w, reply \<times> 'd) prog" where
  "deliver E wh seen d ev =
     (case seen d (ev_ID ev) of (dup, d) \<Rightarrow>
        (if dup then answer_with OkResponse OutcomeDuplicate (ev_Type ev) d
         else do {
           status \<leftarrow> dispatch E wh ev;
           answer_with status (outcome_of status) (ev_Type ev) d
         }))"

text \<open>What a request has to pass before its event is looked at; \<open>k\<close> is what follows.\<close>

definition with_verified_event ::
  "'w env \<Rightarrow> webhook \<Rightarrow> 'd \<Rightarrow> http_request \<Rightarrow> (stripe_event \<Rightarrow> ('w, reply \<times> 'd) prog) \<Rightarrow> ('w, reply \<times> 'd) prog" where
  "with_verified_event E wh d rq k =
     (if rq_Method rq \<noteq> ''POST''
      then answer_with MethodNotAllowedResponse OutcomeMethodNotAllowed ''unknown'' d
      else case read_body rq of
          Inl e \<Rightarrow> answer_with BadRequestResponse OutcomeMalformed ''unknown'' d
        | Inr body \<Rightarrow>
            (if rq_Signature rq = ''''
             then answer_with BadRequestResponse OutcomeMissingSignature ''unknown'' d
             else do {
               g \<leftarrow> ResolveConfig E (wh_ProviderConfigName wh);
               case g of
                 Inl e \<Rightarrow> answer_with InternalServerErrorResponse OutcomeProviderConfigErr ''unknown'' d
               | Inr cfg \<Rightarrow> do {
                   v \<leftarrow> ask (construct_event (os E) body (rq_Signature rq) (rc_WebhookSecret cfg)
                     signatureTolerance);
                   case v of
                     Inl e \<Rightarrow> answer_with BadRequestResponse OutcomeInvalidSignature ''unknown'' d
                   | Inr ev \<Rightarrow> k ev
                 }
             }))"

definition ServeHTTP ::
  "'w env \<Rightarrow> webhook \<Rightarrow> ('d \<Rightarrow> string \<Rightarrow> bool \<times> 'd) \<Rightarrow> 'd \<Rightarrow> http_request \<Rightarrow> ('w, reply \<times> 'd) prog" where
  "ServeHTTP E wh seen d rq = with_verified_event E wh d rq (deliver E wh seen d)"

section \<open>Facts: the handlers\<close>

text \<open>The calls a handler makes: a customer's name, the two statuses, and timeline events.\<close>

definition is_webhook_effect :: "effect \<Rightarrow> bool" where
  "is_webhook_effect e \<longleftrightarrow> (\<exists>c n ok. e = CustomersUpdate c (name_params n) ok) \<or>
     (\<exists>x ok. e = SPMStatusPatch x ok) \<or> (\<exists>x ok. e = PMStatusPatch x ok) \<or>
     (\<exists>k a kd r m. e = EventRecorded k a kd r m)"

lemma is_webhook_effect_simps [simp]:
  "is_webhook_effect (SPMStatusPatch x ok)" "is_webhook_effect (PMStatusPatch y ok)"
  "is_webhook_effect (EventRecorded k a kd r m)" "is_webhook_effect (CustomersUpdate c (name_params n) ok)"
  by (auto simp: is_webhook_effect_def)

lemma get_parent_emits [effect_rules]: "emits P (get_parent E spm)"
  unfolding get_parent_def by (intro effect_rules)

lemma findStripePaymentMethod_emits [effect_rules]: "emits P (findStripePaymentMethod K si)"
  unfolding findStripePaymentMethod_def by (intro effect_rules)

abbreviation is_projection :: "effect \<Rightarrow> bool" where
  "is_projection e \<equiv> (\<exists>x ok. e = PMStatusPatch x ok) \<or> (\<exists>k a kd r m. e = EventRecorded k a kd r m)"

lemma recordPaymentMethodEvent_emits [effect_rules]:
  "emits is_projection (recordPaymentMethodEvent E wh pm detail kind reason message)"
  unfolding recordPaymentMethodEvent_def by (intro effect_rules) auto

lemma projectOnto_emits: "emits is_projection (projectOntoPaymentMethod E wh spm pm)"
  unfolding projectOntoPaymentMethod_def by (intro effect_rules) auto

lemma projectFailure_emits: "emits is_projection (projectFailureOntoPaymentMethod E wh spm si)"
  unfolding projectFailureOntoPaymentMethod_def by (intro effect_rules) auto

lemma record_success_emits: "emits is_webhook_effect (record_success E wh spm si pm)"
  unfolding record_success_def patchStripeSuccess_def
  by (intro effect_rules emits_mono [OF projectOnto_emits]) (auto simp: is_webhook_effect_def)

lemma record_setup_failure_emits: "emits is_webhook_effect (record_setup_failure E wh spm si)"
  unfolding record_setup_failure_def patchStripeFailure_def
  by (intro effect_rules emits_mono [OF projectFailure_emits]) (auto simp: is_webhook_effect_def)

lemma backfill_emits: "emits is_webhook_effect (if b then BackfillCustomerName S c n else ret None)"
  by (intro effect_rules emits_mono [OF BackfillCustomerName_emits]) auto

lemma confirm_emits: "emits is_webhook_effect (confirm_with_stripe E wh spm si)"
  unfolding confirm_with_stripe_def by (intro effect_rules backfill_emits record_success_emits)

lemma dispatch_emits: "emits is_webhook_effect (dispatch E wh ev)"
  unfolding dispatch_def handleSetupIntentSucceeded_def handleSetupIntentFailed_def with_resource_def
  by (intro effect_rules confirm_emits record_setup_failure_emits)

lemma deliver_emits: "emits is_webhook_effect (deliver E wh seen d ev)"
  unfolding deliver_def answer_with_def by (intro effect_rules dispatch_emits)

text \<open>What a success and a failure do, in order.\<close>

lemma record_success_effects:
  assumes "clock (os E) (world s) = (now, w)"
  shows "\<exists>ok es. effects (record_success E wh spm si pm) s =
      SPMStatusPatch (spm\<lparr>spm_status := success_status (lib E) spm si pm now\<rparr>) ok # es \<and>
      (\<not> ok \<longrightarrow> es = []) \<and> (\<exists>x t. es = effects (projectOntoPaymentMethod E wh x pm) t \<or> es = [])"
proof -
  let ?x = "spm\<lparr>spm_status := success_status (lib E) spm si pm now\<rparr>"
  obtain r w1 where r: "patch_spm_status (kube E) spm ?x w = (r, w1)" by fastforce
  let ?s1 = "s\<lparr>world := w1, trace := trace s @ [SPMStatusPatch ?x (\<not> isl r)]\<rparr>"
  have patch: "run_state (patchStripeSuccess E spm si pm) s = (r, ?s1)"
    using assms r by (simp add: patchStripeSuccess_def Let_def)
  show ?thesis
  proof (cases r)
    case (Inl e)
    with patch have "effects (record_success E wh spm si pm) s = [SPMStatusPatch ?x False]"
      by (intro effects_eqI) (simp add: record_success_def)
    then show ?thesis by auto
  next
    case (Inr y)
    with patch have "effects (record_success E wh spm si pm) s =
        SPMStatusPatch ?x True # effects (projectOntoPaymentMethod E wh y pm) ?s1"
      using emits_trace [OF projectOnto_emits, of E wh y pm ?s1]
      by (intro effects_eqI) (simp add: record_success_def)
    then show ?thesis by auto
  qed
qed

lemma record_setup_failure_effects:
  "\<exists>ok es. effects (record_setup_failure E wh spm si) s =
      SPMStatusPatch (spm\<lparr>spm_status := failure_status (lib E) spm si\<rparr>) ok # es \<and>
      (\<not> ok \<longrightarrow> es = [])"
proof -
  let ?x = "spm\<lparr>spm_status := failure_status (lib E) spm si\<rparr>"
  obtain r w1 where r: "patch_spm_status (kube E) spm ?x (world s) = (r, w1)" by fastforce
  let ?s1 = "s\<lparr>world := w1, trace := trace s @ [SPMStatusPatch ?x (\<not> isl r)]\<rparr>"
  have patch: "run_state (patchStripeFailure E spm si) s = (r, ?s1)"
    using r by (simp add: patchStripeFailure_def Let_def)
  show ?thesis
  proof (cases r)
    case (Inl e)
    with patch have "effects (record_setup_failure E wh spm si) s = [SPMStatusPatch ?x False]"
      by (intro effects_eqI) (simp add: record_setup_failure_def)
    then show ?thesis by auto
  next
    case (Inr y)
    with patch have "effects (record_setup_failure E wh spm si) s =
        SPMStatusPatch ?x True # effects (projectFailureOntoPaymentMethod E wh y si) ?s1"
      using emits_trace [OF projectFailure_emits, of E wh y si ?s1]
      by (intro effects_eqI) (simp add: record_setup_failure_def)
    then show ?thesis by auto
  qed
qed

lemma projectOnto_patch:
  assumes "PMStatusPatch pm' ok \<in> set (effects (projectOntoPaymentMethod E wh spm pm) s)"
  shows "\<exists>bm. pm' = active_pm (lib E) bm pm"
  using assms by (auto simp: projectOntoPaymentMethod_def get_parent_def recordPaymentMethodEvent_def
      effects_def Let_def split: prod.splits sum.splits if_splits)

lemma success_status_fields:
  "Phase (success_status L spm si pm now) = Active \<and>
   StripePaymentMethodID (success_status L spm si pm now) = pmd_ID pm \<and>
   (\<exists>x. SetupIntent (success_status L spm si pm now) = Some x \<and> si_ClientSecret x = '''' \<and> si_ID x = sp_ID si) \<and>
   (pmd_Type pm = ''card'' \<longrightarrow> (\<exists>x. Instrument (success_status L spm si pm now) = Some x \<and>
      in_Card x = Some (card_of_details pm)))"
  by (simp add: success_status_def Let_def)

lemma active_pm_fields:
  "pm_Phase (active_pm L bm pm) = PMActive \<and> pm_meta (active_pm L bm pm) = pm_meta bm \<and>
   (pmd_Type pm = ''card'' \<longrightarrow> (\<exists>x y. pm_Details (active_pm L bm pm) = Some x \<and>
      pd_Card x = Some y \<and> pc_Card y = card_of_details pm))"
  by (simp add: active_pm_def Let_def)

text \<open>
  C14 (safety): a parent PaymentMethod is made Active by the webhook only after the
  StripePaymentMethod was: the patch of the parent follows a successful patch that records phase
  Active, the ID of the payment method just retrieved from Stripe and a cleared client secret, and for
  a card both records carry the same card details.
\<close>

theorem active_after_confirmation:
  assumes "PMStatusPatch pm' ok \<in> set (effects (record_success E wh spm si pm) s)"
  shows "\<exists>x es. effects (record_success E wh spm si pm) s = SPMStatusPatch x True # es \<and>
    PMStatusPatch pm' ok \<in> set es \<and> spm_meta x = spm_meta spm \<and>
    Phase (spm_status x) = Active \<and> StripePaymentMethodID (spm_status x) = pmd_ID pm \<and>
    (\<exists>i. SetupIntent (spm_status x) = Some i \<and> si_ClientSecret i = '''') \<and>
    pm_Phase pm' = PMActive \<and>
    (pmd_Type pm = ''card'' \<longrightarrow> (\<exists>i c d pc. Instrument (spm_status x) = Some i \<and> in_Card i = Some c \<and>
       pm_Details pm' = Some d \<and> pd_Card d = Some pc \<and> pc_Card pc = c))"
proof -
  obtain now w where "clock (os E) (world s) = (now, w)" by fastforce
  from record_success_effects [OF this, of wh spm si pm] obtain okx es where
    eff: "effects (record_success E wh spm si pm) s =
        SPMStatusPatch (spm\<lparr>spm_status := success_status (lib E) spm si pm now\<rparr>) okx # es"
    and okx: "\<not> okx \<longrightarrow> es = []"
    and es: "\<exists>x t. es = effects (projectOntoPaymentMethod E wh x pm) t \<or> es = []" by blast
  from eff assms have mem: "PMStatusPatch pm' ok \<in> set es" by simp
  with okx have "okx" by auto
  from mem es projectOnto_patch obtain bm where "pm' = active_pm (lib E) bm pm"
    by (metis empty_iff empty_set)
  then show ?thesis
    using eff mem \<open>okx\<close> success_status_fields [of "lib E" spm si pm now] active_pm_fields [of "lib E" bm pm]
    by auto
qed

subsection \<open>Acknowledged confirmations\<close>

lemma projectOnto_done:
  assumes "run_state (projectOntoPaymentMethod E wh x pm) s = (None, s')"
  shows "\<exists>bm w es. get_pm (kube E) (Namespace (spm_meta x), spm_PaymentMethodRef x) (world s) = (Inr bm, w) \<and>
    effects (projectOntoPaymentMethod E wh x pm) s = PMStatusPatch (active_pm (lib E) bm pm) True # es"
proof -
  obtain g w where g: "get_pm (kube E) (Namespace (spm_meta x), spm_PaymentMethodRef x) (world s) = (g, w)" by fastforce
  with assms obtain bm where bm: "g = Inr bm" by (cases g) (auto simp: projectOntoPaymentMethod_def get_parent_def)
  obtain p w1 where p: "patch_pm_status (kube E) bm (active_pm (lib E) bm pm) w = (p, w1)" by fastforce
  with assms g bm obtain bm1 where bm1: "p = Inr bm1"
    by (cases p) (auto simp: projectOntoPaymentMethod_def get_parent_def Let_def)
  let ?e = "PMStatusPatch (active_pm (lib E) bm pm) True"
  let ?s1 = "s\<lparr>world := w1, trace := trace s @ [?e]\<rparr>"
  let ?m = "if pm_Phase bm \<noteq> PMActive then recordPaymentMethodEvent E wh bm1 (attachedEventDetail (lib E) bm1)
    EventNormal ReasonPaymentMethodAttached ''Payment method is ready to use.'' else ret ()"
  have "emits is_projection ?m" by (intro effect_rules)
  note tr = emits_trace [OF this, of ?s1]
  have run: "run_state (projectOntoPaymentMethod E wh x pm) s = (None, snd (run_state ?m ?s1))"
    using g bm p bm1 by (cases "pm_Phase bm = PMActive")
      (simp_all add: projectOntoPaymentMethod_def get_parent_def Let_def split: prod.split)
  then have "effects (projectOntoPaymentMethod E wh x pm) s = ?e # effects ?m ?s1"
    using tr by (intro effects_eqI) (simp only: run snd_conv, simp)
  with g bm show ?thesis by blast
qed

text \<open>
  What is written when the handler of a success reports no error: the resource is patched to Active, then
  the PaymentMethod that the patched resource names in its namespace is read and patched to Active.
\<close>

definition card_recorded ::
  "'w env \<Rightarrow> spm \<Rightarrow> setup_intent_payload \<Rightarrow> payment_method_details \<Rightarrow> effect list \<Rightarrow> bool" where
  "card_recorded E x si pm es \<longleftrightarrow> (\<exists>now y w w' bm w'' es'.
     patch_spm_status (kube E) x (x\<lparr>spm_status := success_status (lib E) x si pm now\<rparr>) w = (Inr y, w') \<and>
     get_pm (kube E) (Namespace (spm_meta y), spm_PaymentMethodRef y) w' = (Inr bm, w'') \<and>
     es = SPMStatusPatch (x\<lparr>spm_status := success_status (lib E) x si pm now\<rparr>) True #
       PMStatusPatch (active_pm (lib E) bm pm) True # es')"

lemma record_success_done:
  assumes "run_state (record_success E wh x si pm) s = (None, s')"
  shows "card_recorded E x si pm (effects (record_success E wh x si pm) s)"
proof -
  obtain now w where now: "clock (os E) (world s) = (now, w)" by fastforce
  let ?x = "x\<lparr>spm_status := success_status (lib E) x si pm now\<rparr>"
  obtain r w1 where r: "patch_spm_status (kube E) x ?x w = (r, w1)" by fastforce
  let ?s1 = "s\<lparr>world := w1, trace := trace s @ [SPMStatusPatch ?x (\<not> isl r)]\<rparr>"
  have patch: "run_state (patchStripeSuccess E x si pm) s = (r, ?s1)"
    using now r by (simp add: patchStripeSuccess_def Let_def)
  with assms obtain y where y: "r = Inr y" by (cases r) (auto simp: record_success_def)
  with assms patch have "run_state (projectOntoPaymentMethod E wh y pm) ?s1 = (None, s')"
    by (simp add: record_success_def)
  from projectOnto_done [OF this] obtain bm w2 es where
    bm: "get_pm (kube E) (Namespace (spm_meta y), spm_PaymentMethodRef y) w1 = (Inr bm, w2)"
    and es: "effects (projectOntoPaymentMethod E wh y pm) ?s1 = PMStatusPatch (active_pm (lib E) bm pm) True # es"
    by auto
  have "effects (record_success E wh x si pm) s = SPMStatusPatch ?x True # effects (projectOntoPaymentMethod E wh y pm) ?s1"
    using patch y emits_trace [OF projectOnto_emits, of E wh y pm ?s1]
    by (intro effects_eqI) (simp add: record_success_def)
  with es r y bm show ?thesis unfolding card_recorded_def by metis
qed

lemma confirm_done:
  assumes "run_state (confirm_with_stripe E wh x si) s = (None, s')"
  shows "\<exists>t cfg t' d w pre es. run_state (ResolveConfig E (wh_ProviderConfigName wh)) t = (Inr cfg, t') \<and>
    payment_methods_get (NewClient E cfg) (sp_PaymentMethod si) (world t') = (Inr d, w) \<and>
    effects (confirm_with_stripe E wh x si) s = pre @ es \<and> card_recorded E x si (payment_method_details_of d) es"
proof -
  obtain g s1 where g: "run_state (ResolveConfig E (wh_ProviderConfigName wh)) s = (g, s1)" by fastforce
  have t1: "trace s1 = trace s" by (rule emits_none [OF ResolveConfig_emits g])
  from assms g obtain cfg where cfg: "g = Inr cfg" by (cases g) (auto simp: confirm_with_stripe_def)
  obtain r w2 where r: "payment_methods_get (NewClient E cfg) (sp_PaymentMethod si) (world s1) = (r, w2)" by fastforce
  let ?s2 = "s1\<lparr>world := w2\<rparr>"
  from assms g cfg r obtain d where d: "r = Inr d"
    by (cases r) (auto simp: confirm_with_stripe_def RetrievePaymentMethod_def Let_def)
  let ?pm = "payment_method_details_of d"
  let ?b = "if pmd_Name ?pm \<noteq> '''' \<and> sp_Customer si \<noteq> ''''
    then BackfillCustomerName (NewClient E cfg) (sp_Customer si) (pmd_Name ?pm) else ret None"
  obtain b s3 where b: "run_state ?b ?s2 = (b, s3)" by fastforce
  have "emits is_webhook_effect ?b" by (rule backfill_emits)
  from emits_trace [OF this, of ?s2, unfolded b snd_conv] have t3: "trace s3 = trace s @ effects ?b ?s2"
    using t1 by (simp del: if_split)
  have run: "run_state (confirm_with_stripe E wh x si) s = run_state (record_success E wh x si ?pm) s3"
    using g cfg r d b by (simp add: confirm_with_stripe_def RetrievePaymentMethod_def Let_def del: if_split)
  with assms have "run_state (record_success E wh x si ?pm) s3 = (None, s')" by simp
  note recorded = record_success_done [OF this]
  have "effects (confirm_with_stripe E wh x si) s = effects ?b ?s2 @ effects (record_success E wh x si ?pm) s3"
    using run t3 emits_trace [OF record_success_emits, of E wh x si ?pm s3] by (intro effects_eqI) simp
  with recorded g cfg r d show ?thesis by blast
qed

lemma succeeded_run:
  assumes "decodeSetupIntent (os E) ev = Inr si" and "ev_Type ev = ''setup_intent.succeeded''"
    and "run_state (findStripePaymentMethod (kube E) si) s = (Inr (Some x), s1)"
  shows "run_state (dispatch E wh ev) s = (case run_state (confirm_with_stripe E wh x si) s1 of (e, s2) \<Rightarrow> (status_of e, s2))"
    and "effects (dispatch E wh ev) s = effects (confirm_with_stripe E wh x si) s1"
proof -
  have tr: "trace s1 = trace s" by (rule emits_none [OF findStripePaymentMethod_emits assms(3)])
  show run: "run_state (dispatch E wh ev) s = (case run_state (confirm_with_stripe E wh x si) s1 of (e, s2) \<Rightarrow> (status_of e, s2))"
    using assms by (simp add: dispatch_def handleSetupIntentSucceeded_def with_resource_def)
  show "effects (dispatch E wh ev) s = effects (confirm_with_stripe E wh x si) s1"
    unfolding effects_def run tr by (simp split: prod.split)
qed

text \<open>
  What Stripe is told is done, is done: when the event of a confirmed SetupIntent is
  answered 200 and its resource exists, the payment method was retrieved from Stripe, the resource was
  patched to Active with it, and after that the PaymentMethod it names was, each patch with success. In
  every other case the answer is 500, so that Stripe delivers the event again.
\<close>

lemma acknowledged_confirmation_recorded:
  assumes "decodeSetupIntent (os E) ev = Inr si" and "ev_Type ev = ''setup_intent.succeeded''"
    and "run_state (findStripePaymentMethod (kube E) si) s = (Inr (Some x), s1)"
  shows "fst (run_state (dispatch E wh ev) s) = InternalServerErrorResponse \<or>
    fst (run_state (dispatch E wh ev) s) = OkResponse \<and>
    (\<exists>t cfg t' d w pre es. run_state (ResolveConfig E (wh_ProviderConfigName wh)) t = (Inr cfg, t') \<and>
      payment_methods_get (NewClient E cfg) (sp_PaymentMethod si) (world t') = (Inr d, w) \<and>
      effects (dispatch E wh ev) s = pre @ es \<and> card_recorded E x si (payment_method_details_of d) es)"
proof -
  obtain e s2 where e: "run_state (confirm_with_stripe E wh x si) s1 = (e, s2)" by fastforce
  note run = succeeded_run [OF assms, of wh, unfolded e]
  show ?thesis
  proof (cases e)
    case None
    from confirm_done [OF e [unfolded None]] show ?thesis using run None by (simp add: status_of_def)
  next
    case (Some err)
    with run show ?thesis by (simp add: status_of_def)
  qed
qed

subsection \<open>Timeline events\<close>

text \<open>
  A timeline event is recorded only at a transition that was stored: PaymentMethodAttached
  when the parent just read was not Active, PaymentMethodFailed when it was not Failed, each after the
  patch of the parent succeeded, and at most one of them.
\<close>

lemma timeline_events_on_transitions:
  assumes "es = effects (projectOntoPaymentMethod E wh spm pm) s \<and> target = PMActive \<or>
      es = effects (projectFailureOntoPaymentMethod E wh spm si) s \<and> target = PMFailed"
    and "EventRecorded key ann kind reason msg \<in> set es"
  shows "wh_Recorder wh \<and> (\<exists>pm'. es = [PMStatusPatch pm' True, EventRecorded key ann kind reason msg]) \<and>
    (\<exists>bm w. get_pm (kube E) (Namespace (spm_meta spm), spm_PaymentMethodRef spm) (world s) = (Inr bm, w) \<and>
       pm_Phase bm \<noteq> target)"
  using assms by (auto simp: projectOntoPaymentMethod_def projectFailureOntoPaymentMethod_def get_parent_def
      recordPaymentMethodEvent_def effects_def Let_def split: prod.splits sum.splits if_splits)

text \<open>
  Stripe's error codes never reach the activity timeline: an annotation of a failure event
  is one of the organization's scope, the account's name, or the text of one of the five normalized
  decline reasons.
\<close>

lemma decline_codes_stay_inside:
  assumes "EventRecorded key ann kind reason msg
      \<in> set (effects (projectFailureOntoPaymentMethod E wh spm si) s)"
    and "ann k = Some v"
  shows "\<exists>bm :: payment_method. key = key_of (pm_meta bm) \<and>
    (OrganizationScopeAnnotations (lib E) (Namespace (pm_meta bm)) k = Some v \<or>
     k = AnnBillingAccount (lib E) \<and> v = pm_BillingAccountRef bm \<or>
     k = AnnDeclineReason (lib E) \<and> (\<exists>r. v = DeclineReasonText (lib E) r))"
proof -
  obtain bm where bm: "key = key_of (pm_meta bm)"
    "ann = OrganizationScopeAnnotations (lib E) (Namespace (pm_meta bm)) ++ failedEventDetail (lib E) bm si"
    using assms(1) by (auto simp: projectFailureOntoPaymentMethod_def get_parent_def
      recordPaymentMethodEvent_def effects_def Let_def split: prod.splits sum.splits if_splits)
  have "OrganizationScopeAnnotations (lib E) (Namespace (pm_meta bm)) k = Some v \<or>
     k = AnnBillingAccount (lib E) \<and> v = pm_BillingAccountRef bm \<or>
     k = AnnDeclineReason (lib E) \<and> (\<exists>r. v = DeclineReasonText (lib E) r)"
    using assms(2) unfolding bm(2)
    by (auto simp: failedEventDetail_def Let_def map_add_def split: option.splits if_splits)
  with bm(1) show ?thesis by blast
qed

text \<open>
  A failure event is applied to the resource its metadata names whatever SetupIntent
  that resource currently has and whatever phase it is in: the resource is patched to Failed and its
  SetupIntent becomes the one of the event. So the cancellation of an expired SetupIntent, which the
  reconciler itself asks for before it creates the next one, fails the resource that waits on the new
  SetupIntent, and a late failure undoes an Active one.
\<close>

lemma failure_event_hits_current_resource:
  assumes "decodeSetupIntent (os E) ev = Inr si"
    and "metadata_value si ''stripe_payment_method_namespace'' = ns" and "ns \<noteq> ''''"
    and "metadata_value si ''stripe_payment_method_name'' = n" and "n \<noteq> ''''"
    and "get_spm (kube E) (ns, n) (world s) = (Inr spm, w)"
  shows "\<exists>x ok es. effects (handleSetupIntentFailed E wh ev) s = SPMStatusPatch x ok # es \<and>
    spm_meta x = spm_meta spm \<and> Phase (spm_status x) = Failed \<and>
    (\<exists>i. SetupIntent (spm_status x) = Some i \<and> si_ID i = sp_ID si)"
proof -
  have "effects (handleSetupIntentFailed E wh ev) s = effects (record_setup_failure E wh spm si) (s\<lparr>world := w\<rparr>)"
    using assms by (simp add: handleSetupIntentFailed_def with_resource_def findStripePaymentMethod_def
        effects_def)
  moreover have "Phase (failure_status (lib E) spm si) = Failed \<and>
      (\<exists>i. SetupIntent (failure_status (lib E) spm si) = Some i \<and> si_ID i = sp_ID si)"
    by (simp add: failure_status_def Let_def split: option.split)
  ultimately show ?thesis
    using record_setup_failure_effects [of E wh spm si "s\<lparr>world := w\<rparr>"] by fastforce
qed

text \<open>
  Every event gets an answer that Stripe understands: 200 or 500; an event of a type
  that the webhook does not handle is acknowledged without any call.
\<close>

lemma dispatch_answers:
  "fst (run_state (dispatch E wh ev) s) \<in> {OkResponse, InternalServerErrorResponse} \<and>
   (run_state (dispatch E wh ev) s = (OkResponse, s) \<or>
    ev_Type ev \<in> {''setup_intent.succeeded'', ''setup_intent.setup_failed'', ''setup_intent.canceled''})"
  by (auto simp: dispatch_def status_of_def split: prod.splits option.splits)

section \<open>Facts: requests\<close>

lemmas reply_defs = OkResponse_def BadRequestResponse_def MethodNotAllowedResponse_def
  InternalServerErrorResponse_def

lemma deliver_run:
  "run_state (deliver E wh seen d ev) s =
     (if fst (seen d (ev_ID ev))
      then ((\<lparr>HttpStatus = OkResponse, Outcome = OutcomeDuplicate, EventType = ev_Type ev\<rparr>,
             snd (seen d (ev_ID ev))), s)
      else (case run_state (dispatch E wh ev) s of (status, s') \<Rightarrow>
        ((\<lparr>HttpStatus = status, Outcome = outcome_of status, EventType = ev_Type ev\<rparr>,
          snd (seen d (ev_ID ev))), s')))"
  by (simp add: deliver_def answer_with_def split: prod.split)

text \<open>
  C25 (safety): an unverified request changes nothing: the deduplicator moves, a call is made, the answer
  is 200 or the metrics get a label that comes from the request only for a POST whose body could be read, that carries a signature, and that the Stripe library verified
  against the configured, non-empty webhook secret.
\<close>

theorem unverified_requests_inert:
  assumes "run_state (ServeHTTP E wh seen d rq) s = ((rp, d'), s')"
    and "d' \<noteq> d \<or> trace s' \<noteq> trace s \<or> HttpStatus rp = OkResponse \<or> EventType rp \<noteq> ''unknown''"
  shows "rq_Method rq = ''POST'' \<and> rq_Signature rq \<noteq> '''' \<and>
    (\<exists>body cfg s1 ev w'. read_body rq = Inr body \<and> length body \<le> maxBodyBytes \<and>
       run_state (ResolveConfig E (wh_ProviderConfigName wh)) s = (Inr cfg, s1) \<and>
       rc_WebhookSecret cfg \<noteq> '''' \<and>
       construct_event (os E) body (rq_Signature rq) (rc_WebhookSecret cfg) signatureTolerance (world s1) = (Inr ev, w'))"
proof -
  have body: "\<exists>body. read_body rq = Inr body \<and> length body \<le> maxBodyBytes" if "\<nexists>e. read_body rq = Inl e"
    using that by (cases "read_body rq") (auto simp: read_body_def split: if_splits option.splits)
  have guards: "rq_Method rq = ''POST''" "\<nexists>e. read_body rq = Inl e" "rq_Signature rq \<noteq> ''''"
    using assms by (auto simp: ServeHTTP_def with_verified_event_def answer_with_def reply_defs split: if_splits sum.splits)
  then obtain body where b: "read_body rq = Inr body" "length body \<le> maxBodyBytes" using body by blast
  obtain g s1 where g: "run_state (ResolveConfig E (wh_ProviderConfigName wh)) s = (g, s1)" by fastforce
  have s1: "trace s1 = trace s" by (rule emits_none [OF ResolveConfig_emits g])
  have run: "run_state (ServeHTTP E wh seen d rq) s = (case g of
       Inl e \<Rightarrow> run_state (answer_with InternalServerErrorResponse OutcomeProviderConfigErr ''unknown'' d) s1
     | Inr cfg \<Rightarrow> (case construct_event (os E) body (rq_Signature rq) (rc_WebhookSecret cfg) signatureTolerance (world s1) of
         (v, w) \<Rightarrow> run_state (case v of
             Inl e \<Rightarrow> answer_with BadRequestResponse OutcomeInvalidSignature ''unknown'' d
           | Inr ev \<Rightarrow> deliver E wh seen d ev) (s1\<lparr>world := w\<rparr>)))"
    using guards b g by (simp add: ServeHTTP_def with_verified_event_def split: sum.split prod.split)
  show ?thesis
  proof (cases g)
    case (Inl e)
    with run assms s1 show ?thesis by (auto simp: answer_with_def reply_defs)
  next
    case (Inr cfg)
    have sec: "rc_WebhookSecret cfg \<noteq> ''''"
      using g Inr by (auto simp: ResolveConfig_def split: prod.splits sum.splits if_splits)
    obtain v w where v: "construct_event (os E) body (rq_Signature rq) (rc_WebhookSecret cfg) signatureTolerance (world s1) = (v, w)"
      by fastforce
    with run assms s1 Inr have "\<nexists>e. v = Inl e" by (auto simp: answer_with_def reply_defs)
    then obtain ev where "v = Inr ev" by (cases v) auto
    with v guards(1,3) b sec g Inr show ?thesis by blast
  qed
qed

text \<open>Redelivery, for every deduplicator.\<close>

context event_deduper
begin

lemma known_event_dropped:
  assumes "wf d" and "known d (ev_ID ev)"
  shows "run_state (deliver E wh seen_or_record d ev) s =
    ((\<lparr>HttpStatus = OkResponse, Outcome = OutcomeDuplicate, EventType = ev_Type ev\<rparr>,
      snd (seen_or_record d (ev_ID ev))), s)"
  using assms by (simp add: deliver_run seen_iff_known)

lemma redelivery_dropped:
  assumes "wf d" and "run_state (deliver E wh seen_or_record d ev) s = ((rp, d1), s1)"
    and "ev_ID ev' = ev_ID ev"
  shows "fst (run_state (deliver E wh seen_or_record d1 ev') s2) =
      (\<lparr>HttpStatus = OkResponse, Outcome = OutcomeDuplicate, EventType = ev_Type ev'\<rparr>,
       snd (seen_or_record d1 (ev_ID ev'))) \<and>
    snd (run_state (deliver E wh seen_or_record d1 ev') s2) = s2"
proof -
  have "d1 = snd (seen_or_record d (ev_ID ev))"
    using assms(2) by (auto simp: deliver_run split: if_splits prod.splits)
  then have "wf d1" "known d1 (ev_ID ev')" using assms(1,3) by (simp_all add: wf_step records)
  then show ?thesis by (simp add: known_event_dropped)
qed

end

text \<open>
  C34 (error): a delivery is recorded before it is handled: when the handling fails and the webhook
  answers 500, which asks Stripe to deliver again, the next delivery of that event is answered 200 as a
  duplicate without any call, so the event is lost.
\<close>

theorem failed_event_not_retried:
  assumes "deduper_inv d" and "run_state (deliver E wh SeenOrRecord d ev) s = ((rp, d1), s1)"
    and "HttpStatus rp = InternalServerErrorResponse"
  shows "HttpStatus (fst (fst (run_state (deliver E wh SeenOrRecord d1 ev) s2))) = OkResponse \<and>
    effects (deliver E wh SeenOrRecord d1 ev) s2 = []"
  using memory.redelivery_dropped [OF assms(1,2) refl, of s2] by (simp add: effects_def)

text \<open>
  C24 (functional): deduplication end to end: with the webhook's in-memory deduplicator after any history
  of deliveries, an event is dropped (200, no call) exactly when its ID is among the last 4096 distinct
  IDs delivered; otherwise it is dispatched and answered with the handler's status.
\<close>

theorem deliver_window:
  "run_state (deliver E wh SeenOrRecord (deliveries (NewMemoryDeduper 0) ids) ev) s =
     (if ev_ID ev \<in> set (last_n 4096 (remdups ids))
      then ((\<lparr>HttpStatus = OkResponse, Outcome = OutcomeDuplicate, EventType = ev_Type ev\<rparr>,
             deliveries (NewMemoryDeduper 0) (ids @ [ev_ID ev])), s)
      else (case run_state (dispatch E wh ev) s of (status, s') \<Rightarrow>
        ((\<lparr>HttpStatus = status, Outcome = outcome_of status, EventType = ev_Type ev\<rparr>,
          deliveries (NewMemoryDeduper 0) (ids @ [ev_ID ev])), s')))"
  using deliveries_state [of 0 ids] memory.seen_iff_known [of "deliveries (NewMemoryDeduper 0) ids" "ev_ID ev"]
  by (simp add: deliver_run deliveries_snoc)


section \<open>Witnesses\<close>

definition sample_pmd :: payment_method_details where
  "sample_pmd = \<lparr>pmd_ID = ''pm_1'', pmd_Type = ''card'', pmd_Name = '''', pmd_Brand = ''visa'',
     pmd_Last4 = ''4242'', pmd_BIN = '''', pmd_Country = ''US'', pmd_ExpMonth = 12, pmd_ExpYear = 2030,
     pmd_AVSResult = '''', pmd_CVCResult = '''', pmd_BillingAddress = None\<rparr>"

definition sample_wh :: webhook where
  "sample_wh = \<lparr>wh_ProviderConfigName = ''default'', wh_Recorder = True\<rparr>"

lemma owned_patches [simp]:
  "patch_spm_status (kube owned_env) x y w = (Inr y, w)"
  "patch_pm_status (kube owned_env) bm bm' w = (Inr bm', w)"
  "record_event (kube owned_env) k w = ((), w)"
  by (simp_all add: owned_env_def sample_kube_def answer_def)

lemma sample_projection:
  "\<exists>ann. effects (projectOntoPaymentMethod owned_env sample_wh x sample_pmd) s =
     [PMStatusPatch (active_pm sample_lib sample_pm sample_pmd) True,
      EventRecorded (''org'', ''card-1'') ann EventNormal ReasonPaymentMethodAttached
        ''Payment method is ready to use.'']"
  by (intro exI, rule effects_eqI) (simp add: projectOntoPaymentMethod_def get_parent_def Let_def
      recordPaymentMethodEvent_def sample_wh_def active_pm_fields sample_pm_def key_of_def
      new_object_meta_def)

theorem active_after_confirmation_witness:
  "\<exists>x es. effects (record_success owned_env sample_wh (live_spm empty_spm_status) sample_payload sample_pmd)
     (st0 ()) = SPMStatusPatch x True # es \<and> StripePaymentMethodID (spm_status x) = ''pm_1''"
proof -
  let ?m = "record_success owned_env sample_wh (live_spm empty_spm_status) sample_payload sample_pmd"
  let ?x = "(live_spm empty_spm_status)\<lparr>spm_status :=
    success_status sample_lib (live_spm empty_spm_status) sample_payload sample_pmd 0\<rparr>"
  let ?s1 = "\<lparr>world = (), trace = [SPMStatusPatch ?x True]\<rparr>"
  have "run_state ?m (st0 ()) = run_state (projectOntoPaymentMethod owned_env sample_wh ?x sample_pmd) ?s1"
    by (simp add: record_success_def patchStripeSuccess_def Let_def st0_def)
  then have "effects ?m (st0 ()) = SPMStatusPatch ?x True #
      effects (projectOntoPaymentMethod owned_env sample_wh ?x sample_pmd) ?s1"
    using emits_trace [OF projectOnto_emits, of owned_env sample_wh ?x sample_pmd ?s1]
    by (intro effects_eqI) (simp add: st0_def)
  then have "PMStatusPatch (active_pm sample_lib sample_pm sample_pmd) True \<in> set (effects ?m (st0 ()))"
    using sample_projection [of ?x ?s1] by auto
  from active_after_confirmation [OF this] show ?thesis by (auto simp: sample_pmd_def)
qed

lemma timeline_events_on_transitions_witness:
  "\<exists>pm' e. effects (projectOntoPaymentMethod owned_env sample_wh (live_spm empty_spm_status) sample_pmd) (st0 ())
     = [PMStatusPatch pm' True, e]"
proof -
  let ?es = "effects (projectOntoPaymentMethod owned_env sample_wh (live_spm empty_spm_status) sample_pmd) (st0 ())"
  obtain ann where "EventRecorded (''org'', ''card-1'') ann EventNormal ReasonPaymentMethodAttached
      ''Payment method is ready to use.'' \<in> set ?es"
    using sample_projection [of "live_spm empty_spm_status" "st0 ()"] by auto
  from timeline_events_on_transitions [OF _ this, of owned_env sample_wh _ sample_pmd _ PMActive sample_payload]
  show ?thesis by blast
qed

definition declined_payload :: setup_intent_payload where
  "declined_payload = sample_payload\<lparr>sp_ID := ''seti_old'', sp_Status := ''canceled'',
     sp_LastSetupError := Some \<lparr>le_Code = ''card_declined'', le_DeclineCode = ''expired_card'', le_Message = ''''\<rparr>,
     sp_Metadata := [''stripe_payment_method_namespace'' \<mapsto> ''org'', ''stripe_payment_method_name'' \<mapsto> ''card-1'']\<rparr>"

lemma decline_codes_stay_inside_witness:
  "\<exists>key ann kind reason msg. EventRecorded key ann kind reason msg
      \<in> set (effects (projectFailureOntoPaymentMethod owned_env sample_wh (live_spm empty_spm_status)
        declined_payload) (st0 ())) \<and>
    (\<exists>r v. ann ''decline-reason'' = Some v \<and> v = DeclineReasonText sample_lib r)"
proof -
  let ?es = "effects (projectFailureOntoPaymentMethod owned_env sample_wh (live_spm empty_spm_status)
        declined_payload) (st0 ())"
  obtain key ann kind reason msg where e: "EventRecorded key ann kind reason msg \<in> set ?es"
    and v: "ann ''decline-reason'' = Some ''declined''"
    by (simp add: effects_def projectFailureOntoPaymentMethod_def get_parent_def Let_def
        recordPaymentMethodEvent_def sample_wh_def failedEventDetail_def declined_payload_def
        sample_payload_def st0_def failed_pm_def sample_pm_def)
      (simp add: sample_lib_def)
  from decline_codes_stay_inside [OF e v] have "\<exists>r. ''declined'' = DeclineReasonText sample_lib r"
    by (auto simp: sample_lib_def split: if_splits)
  with e v show ?thesis by blast
qed

definition event_env :: "setup_intent_payload \<Rightarrow> spm \<Rightarrow> unit env" where
  "event_env si x = sample_env\<lparr>kube := sample_kube\<lparr>get_spm := \<lambda>_. answer x, get_cfg := \<lambda>_. answer sample_cfg\<rparr>,
     os := sample_os\<lparr>unmarshal_setup_intent := \<lambda>_. Inr si\<rparr>\<rparr>"

text \<open>The old SetupIntent's cancellation arrives when the resource is already Active.\<close>

lemma failure_event_hits_current_resource_witness:
  "\<exists>x ok es. effects (handleSetupIntentFailed (event_env declined_payload
       (live_spm (empty_spm_status\<lparr>Phase := Active\<rparr>))) sample_wh sample_event) (st0 ())
     = SPMStatusPatch x ok # es \<and> Phase (spm_status x) = Failed"
proof -
  let ?E = "event_env declined_payload (live_spm (empty_spm_status\<lparr>Phase := Active\<rparr>))"
  have "decodeSetupIntent (os ?E) sample_event = Inr declined_payload"
    by (simp add: decodeSetupIntent_def event_env_def sample_event_def declined_payload_def)
  moreover have "metadata_value declined_payload ''stripe_payment_method_namespace'' = ''org''"
    "metadata_value declined_payload ''stripe_payment_method_name'' = ''card-1''"
    by (simp_all add: metadata_value_def declined_payload_def)
  moreover have "get_spm (kube ?E) (''org'', ''card-1'') (world (st0 ())) =
      (Inr (live_spm (empty_spm_status\<lparr>Phase := Active\<rparr>)), ())"
    by (simp add: event_env_def answer_def)
  ultimately show ?thesis
    using failure_event_hits_current_resource [of ?E sample_event declined_payload "''org''" "''card-1''"
        "st0 ()" "live_spm (empty_spm_status\<lparr>Phase := Active\<rparr>)" "()" sample_wh]
    by fastforce
qed

definition sample_request :: http_request where
  "sample_request = \<lparr>rq_Method = ''POST'', rq_Body = ''payload'', rq_BodyError = None, rq_Signature = ''sig''\<rparr>"

definition ping :: stripe_event where
  "ping = \<lparr>ev_ID = ''evt_2'', ev_Type = ''setup_intent.succeeded'', ev_Data = None\<rparr>"

text \<open>An event without data: its handling fails.\<close>

definition ping_env :: "unit env" where
  "ping_env = sample_env\<lparr>kube := sample_kube\<lparr>get_cfg := \<lambda>_. answer sample_cfg\<rparr>,
     os := sample_os\<lparr>construct_event := \<lambda>_ _ _ _. answer ping\<rparr>\<rparr>"

lemma ping_fails: "run_state (dispatch ping_env sample_wh ping) s = (InternalServerErrorResponse, s)"
  by (simp add: dispatch_def ping_def handleSetupIntentSucceeded_def with_resource_def
      decodeSetupIntent_def status_of_def)

lemma ping_delivered:
  "run_state (deliver ping_env sample_wh SeenOrRecord (NewMemoryDeduper 0) ping) s =
     ((\<lparr>HttpStatus = InternalServerErrorResponse, Outcome = outcome_of InternalServerErrorResponse,
        EventType = ''setup_intent.succeeded''\<rparr>, snd (SeenOrRecord (NewMemoryDeduper 0) ''evt_2'')), s)"
proof -
  have "\<not> fst (SeenOrRecord (NewMemoryDeduper 0) ''evt_2'')"
    using memory.seen_iff_known [OF NewMemoryDeduper_inv, of 0 "''evt_2''"]
    by (simp add: NewMemoryDeduper_empty)
  then show ?thesis
    by (simp add: deliver_run ping_fails) (simp add: ping_def)
qed

theorem failed_event_not_retried_witness:
  "HttpStatus (fst (fst (run_state (deliver ping_env sample_wh SeenOrRecord
     (snd (SeenOrRecord (NewMemoryDeduper 0) ''evt_2'')) ping) (st0 ())))) = OkResponse"
  using failed_event_not_retried [OF NewMemoryDeduper_inv ping_delivered, of "st0 ()"] by simp

theorem unverified_requests_inert_witness:
  "\<exists>cfg s1 ev w'. run_state (ResolveConfig ping_env ''default'') (st0 ()) = (Inr cfg, s1) \<and>
     rc_WebhookSecret cfg \<noteq> '''' \<and>
     construct_event (os ping_env) ''payload'' ''sig'' (rc_WebhookSecret cfg) signatureTolerance (world s1) = (Inr ev, w')"
proof -
  let ?d = "NewMemoryDeduper 0"
  have short: "read_body sample_request = Inr ''payload''"
    by (simp add: read_body_def sample_request_def maxBodyBytes_def)
  obtain cfg where cfg: "run_state (ResolveConfig ping_env ''default'') (st0 ()) = (Inr cfg, st0 ())"
    by (simp add: ResolveConfig_def ping_env_def sample_defs)
  have event: "construct_event (os ping_env) b sig secret tol w = (Inr ping, w)" for b sig secret tol w
    by (simp add: ping_env_def answer_def)
  have wh: "wh_ProviderConfigName sample_wh = ''default''" by (simp add: sample_wh_def)
  have rq: "rq_Method sample_request = ''POST''" "rq_Signature sample_request \<noteq> ''''"
    by (simp_all add: sample_request_def)
  obtain rp s' where run: "run_state (ServeHTTP ping_env sample_wh SeenOrRecord ?d sample_request) (st0 ()) =
      ((rp, snd (SeenOrRecord ?d ''evt_2'')), s')"
    using rq by (simp add: ServeHTTP_def with_verified_event_def short cfg event wh ping_delivered)
  have "remembered (snd (SeenOrRecord ?d ''evt_2'')) \<noteq> remembered ?d"
    using memory.records [OF NewMemoryDeduper_inv, of "''evt_2''" 0] by (auto simp: NewMemoryDeduper_empty)
  then have "snd (SeenOrRecord ?d ''evt_2'') \<noteq> ?d" by auto
  with unverified_requests_inert [OF run] short show ?thesis
    by (auto simp: sample_wh_def sample_request_def)
qed

end
