(* ===== verification/WebhookServer.thy ===== *)
theory WebhookServer
  imports Webhook
begin

text \<open>
  The server side of \<open>internal/webhook\<close>: the \<open>Handler\<close> a webhook is given, of which
  \<open>dispatch\<close> is the one in production, the deferred recovery from its panics, and the metrics that
  every request leaves. A panic of a handler is the answer \<open>None\<close>; what it did before stays on the
  trace. The library of the metrics is not modelled: a measurement is the call made to it.
\<close>

section \<open>Metrics (\<open>metrics.go\<close>)\<close>

definition outcomeLabel :: string where "outcomeLabel = ''outcome''"
definition eventTypeLabel :: string where "eventTypeLabel = ''event_type''"

primrec outcome_text :: "outcome \<Rightarrow> string" where
  "outcome_text OutcomeSuccess = ''success''"
| "outcome_text OutcomeDuplicate = ''duplicate''"
| "outcome_text OutcomeInvalidSignature = ''invalid_signature''"
| "outcome_text OutcomeMissingSignature = ''missing_signature''"
| "outcome_text OutcomeMalformed = ''malformed''"
| "outcome_text OutcomeMethodNotAllowed = ''method_not_allowed''"
| "outcome_text OutcomeProviderConfigErr = ''provider_config_error''"
| "outcome_text OutcomeHandlerError = ''handler_error''"
| "outcome_text OutcomeIgnored = ''ignored''"

text \<open>The outcomes are finitely many, so that counts can be added up over all of them.\<close>

instantiation outcome :: enum
begin

definition enum_outcome :: "outcome list" where
  "enum_outcome = [OutcomeSuccess, OutcomeDuplicate, OutcomeInvalidSignature, OutcomeMissingSignature,
     OutcomeMalformed, OutcomeMethodNotAllowed, OutcomeProviderConfigErr, OutcomeHandlerError, OutcomeIgnored]"

definition enum_all_outcome :: "(outcome \<Rightarrow> bool) \<Rightarrow> bool" where
  "enum_all_outcome P \<longleftrightarrow> list_all P enum_class.enum"

definition enum_ex_outcome :: "(outcome \<Rightarrow> bool) \<Rightarrow> bool" where
  "enum_ex_outcome P \<longleftrightarrow> list_ex P enum_class.enum"

instance
proof
  have all: "oc \<in> set enum_class.enum" for oc :: outcome by (cases oc) (simp_all add: enum_outcome_def)
  then show "(UNIV :: outcome set) = set enum_class.enum" by blast
  show "distinct (enum_class.enum :: outcome list)" by (simp add: enum_outcome_def)
  show "enum_class.enum_all P \<longleftrightarrow> Ball UNIV P" for P :: "outcome \<Rightarrow> bool"
    using all by (auto simp: enum_all_outcome_def list_all_iff)
  show "enum_class.enum_ex P \<longleftrightarrow> Bex UNIV P" for P :: "outcome \<Rightarrow> bool"
    using all by (auto simp: enum_ex_outcome_def list_ex_iff)
qed

end

text \<open>A vector of counters or histograms; the bounds of the buckets are durations.\<close>

record metric_vec =
  mv_Name :: string
  mv_Help :: string
  mv_Buckets :: "gotime list option"
  mv_Labels :: "string list"

definition stripeWebhookRequestsTotal :: metric_vec where
  "stripeWebhookRequestsTotal = \<lparr>mv_Name = ''stripe_webhook_requests_total'',
     mv_Help = ''Total Stripe webhook requests received by event type and outcome.'',
     mv_Buckets = None, mv_Labels = [eventTypeLabel, outcomeLabel]\<rparr>"

definition stripeWebhookRequestDuration :: metric_vec where
  "stripeWebhookRequestDuration = \<lparr>mv_Name = ''stripe_webhook_request_duration_seconds'',
     mv_Help = ''Duration of Stripe webhook request processing in seconds.'',
     mv_Buckets = Some (map (\<lambda>ms. ms * second div 1000) [5, 10, 25, 50, 100, 250, 500, 1000, 2500]),
     mv_Labels = [eventTypeLabel, outcomeLabel]\<rparr>"

definition registered_metrics :: "metric_vec list" where
  "registered_metrics = [stripeWebhookRequestsTotal, stripeWebhookRequestDuration]"

text \<open>One call to the library: the vector, the values of its labels, and what is observed.\<close>

datatype measurement = Inc metric_vec "string list" | Observe metric_vec "string list" gotime

section \<open>Handlers (\<open>webhook.go\<close>)\<close>

type_synonym 'w handler = "stripe_event \<Rightarrow> ('w, int option) prog"

definition HandlerFunc :: "(stripe_event \<Rightarrow> ('w, int) prog) \<Rightarrow> 'w handler" where
  "HandlerFunc f ev = do { status \<leftarrow> f ev; ret (Some status) }"

section \<open>One request\<close>

definition deliver_to ::
  "('d \<Rightarrow> string \<Rightarrow> bool \<times> 'd) \<Rightarrow> 'w handler \<Rightarrow> 'd \<Rightarrow> stripe_event \<Rightarrow> ('w, reply \<times> 'd) prog" where
  "deliver_to seen h d ev =
     (case seen d (ev_ID ev) of (dup, d) \<Rightarrow>
        (if dup then answer_with OkResponse OutcomeDuplicate (ev_Type ev) d
         else do {
           resp \<leftarrow> h ev;
           case resp of
             None \<Rightarrow> answer_with InternalServerErrorResponse OutcomeHandlerError (ev_Type ev) d
           | Some status \<Rightarrow> answer_with status (outcome_of status) (ev_Type ev) d
         }))"

text \<open>The whole of \<open>ServeHTTP\<close>: both deferred functions run after the answer, the recovery first.\<close>

definition serve ::
  "'w env \<Rightarrow> webhook \<Rightarrow> ('d \<Rightarrow> string \<Rightarrow> bool \<times> 'd) \<Rightarrow> 'w handler \<Rightarrow> 'd \<Rightarrow> http_request
    \<Rightarrow> ('w, (reply \<times> measurement list) \<times> 'd) prog" where
  "serve E wh seen h d rq = do {
     start \<leftarrow> ask (clock (os E));
     r \<leftarrow> with_verified_event E wh d rq (deliver_to seen h d);
     now \<leftarrow> ask (clock (os E));
     case r of (rp, d) \<Rightarrow>
       (let labels = [EventType rp, outcome_text (Outcome rp)]
        in ret ((rp, [Inc stripeWebhookRequestsTotal labels,
             Observe stripeWebhookRequestDuration labels (now - start)]), d))
   }"

text \<open>Requests one after the other, as the deduplicator sees them.\<close>

primrec serve_all ::
  "'w env \<Rightarrow> webhook \<Rightarrow> ('d \<Rightarrow> string \<Rightarrow> bool \<times> 'd) \<Rightarrow> 'w handler \<Rightarrow> 'd \<Rightarrow> http_request list
    \<Rightarrow> ('w, (reply list \<times> measurement list) \<times> 'd) prog" where
  "serve_all E wh seen h d [] = ret (([], []), d)"
| "serve_all E wh seen h d (rq # rqs) = do {
     r \<leftarrow> serve E wh seen h d rq;
     case r of ((rp, ms), d) \<Rightarrow> do {
       r' \<leftarrow> serve_all E wh seen h d rqs;
       case r' of ((rps, mss), d) \<Rightarrow> ret ((rp # rps, ms @ mss), d)
     }
   }"

text \<open>How often a request was counted under an outcome.\<close>

definition counted :: "outcome \<Rightarrow> measurement list \<Rightarrow> nat" where
  "counted oc ms = length (filter (\<lambda>m. \<exists>t. m = Inc stripeWebhookRequestsTotal [t, outcome_text oc]) ms)"

section \<open>Facts\<close>

lemma counted_append: "counted oc (ms @ ms') = counted oc ms + counted oc ms'"
  by (simp add: counted_def)

text \<open>The handler of production, which does not panic in the model, makes it the request of \<open>Webhook\<close>.\<close>

lemma deliver_to_dispatch: "deliver_to seen (HandlerFunc (dispatch E wh)) d ev = deliver E wh seen d ev"
  by (intro state.expand ext) (simp add: deliver_to_def deliver_def HandlerFunc_def split: prod.split)

lemma serve_dispatches:
  "with_verified_event E wh d rq (deliver_to seen (HandlerFunc (dispatch E wh)) d) = ServeHTTP E wh seen d rq"
  by (simp add: ServeHTTP_def deliver_to_dispatch [abs_def] cong: sum.case_cong)

lemma deliver_to_run:
  "run_state (deliver_to seen h d ev) s =
     (if fst (seen d (ev_ID ev))
      then ((\<lparr>HttpStatus = OkResponse, Outcome = OutcomeDuplicate, EventType = ev_Type ev\<rparr>,
             snd (seen d (ev_ID ev))), s)
      else (case run_state (h ev) s of (resp, s') \<Rightarrow>
        (case resp of
           None \<Rightarrow> ((\<lparr>HttpStatus = InternalServerErrorResponse, Outcome = OutcomeHandlerError,
             EventType = ev_Type ev\<rparr>, snd (seen d (ev_ID ev))), s')
         | Some status \<Rightarrow> ((\<lparr>HttpStatus = status, Outcome = outcome_of status, EventType = ev_Type ev\<rparr>,
             snd (seen d (ev_ID ev))), s'))))"
  by (simp add: deliver_to_def answer_with_def split: prod.split option.split)

lemma outcome_text_inj: "outcome_text a = outcome_text b \<longleftrightarrow> a = b"
  by (cases a; cases b) simp_all

text \<open>The status that belongs to an outcome.\<close>

primrec status_for :: "outcome \<Rightarrow> int" where
  "status_for OutcomeSuccess = OkResponse"
| "status_for OutcomeDuplicate = OkResponse"
| "status_for OutcomeInvalidSignature = BadRequestResponse"
| "status_for OutcomeMissingSignature = BadRequestResponse"
| "status_for OutcomeMalformed = BadRequestResponse"
| "status_for OutcomeMethodNotAllowed = MethodNotAllowedResponse"
| "status_for OutcomeProviderConfigErr = InternalServerErrorResponse"
| "status_for OutcomeHandlerError = InternalServerErrorResponse"
| "status_for OutcomeIgnored = OkResponse"

definition tells_truth :: "reply \<Rightarrow> bool" where
  "tells_truth rp \<longleftrightarrow> HttpStatus rp = status_for (Outcome rp) \<and> Outcome rp \<noteq> OutcomeIgnored"

text \<open>What \<open>ServeHTTP\<close> relies on in a handler: it answers 200 or 500, or panics.\<close>

locale webhook_handler =
  fixes handle :: "'w handler"
  assumes statuses: "answers (\<lambda>r. r \<in> {None, Some OkResponse, Some InternalServerErrorResponse}) (handle ev)"
begin

lemma request_tells_truth: "answers (tells_truth \<circ> fst) (with_verified_event E wh d rq (deliver_to seen handle d))"
  unfolding with_verified_event_def deliver_to_def answer_with_def
proof (intro answer_rules, simp_all add: tells_truth_def)
  fix ev s r s'
  assume "run_state (handle ev) s = (Some r, s')"
  from answersD [OF statuses this] show "r = status_for (outcome_of r) \<and> outcome_of r \<noteq> OutcomeIgnored"
    by (auto simp: outcome_of_def reply_defs)
qed

lemma serve_accounts:
  assumes "run_state (serve E wh seen handle d rq) s = (((rp, ms), d'), s')"
  shows "tells_truth rp \<and> length ms = 2 \<and> (\<forall>oc. counted oc ms = (if Outcome rp = oc then 1 else 0))"
proof -
  obtain r s1 where r: "run_state (with_verified_event E wh d rq (deliver_to seen handle d))
      (s\<lparr>world := snd (clock (os E) (world s))\<rparr>) = (r, s1)" by fastforce
  from answersD [OF request_tells_truth this] have "tells_truth (fst r)" by simp
  moreover from assms r have "fst r = rp \<and> (\<exists>t u. ms = [Inc stripeWebhookRequestsTotal
      [t, outcome_text (Outcome rp)], Observe stripeWebhookRequestDuration [t, outcome_text (Outcome rp)] u])"
    by (auto simp: serve_def Let_def split: prod.splits)
  ultimately show ?thesis by (auto simp: tells_truth_def counted_def outcome_text_inj)
qed

lemma serve_all_accounts:
  "run_state (serve_all E wh seen handle d rqs) s = (((rps, ms), d'), s') \<Longrightarrow>
   length rps = length rqs \<and> length ms = 2 * length rqs \<and> list_all tells_truth rps \<and>
   (\<forall>oc. counted oc ms = length (filter (\<lambda>rp. Outcome rp = oc) rps))"
proof (induction rqs arbitrary: d s rps ms)
  case Nil
  then show ?case by (simp add: counted_def)
next
  case (Cons rq rqs)
  from Cons.prems obtain rp ms1 d1 s1 rps2 ms2 where
    1: "run_state (serve E wh seen handle d rq) s = (((rp, ms1), d1), s1)" and
    2: "run_state (serve_all E wh seen handle d1 rqs) s1 = (((rps2, ms2), d'), s')" and
    eq: "rps = rp # rps2" "ms = ms1 @ ms2"
    by (auto split: prod.splits)
  from serve_accounts [OF 1] Cons.IH [OF 2] show ?case by (simp add: eq counted_append)
qed

end

lemma dispatch_statuses:
  "answers (\<lambda>r. r \<in> {None, Some OkResponse, Some InternalServerErrorResponse}) (HandlerFunc (dispatch E wh) ev)"
  using dispatch_answers [of E wh ev]
  by (simp add: answers_def HandlerFunc_def split: prod.split) (metis fst_conv)

interpretation dispatching: webhook_handler "HandlerFunc (dispatch E wh)" for E wh
  by unfold_locales (rule dispatch_statuses)

lemma failures_by_outcome:
  "list_all tells_truth rps \<Longrightarrow> length (filter (\<lambda>rp. HttpStatus rp = InternalServerErrorResponse) rps) =
     length (filter (\<lambda>rp. Outcome rp = OutcomeHandlerError) rps) +
     length (filter (\<lambda>rp. Outcome rp = OutcomeProviderConfigErr) rps)"
proof (induction rps)
  case (Cons rp rps)
  then show ?case by (cases "Outcome rp") (simp_all add: tells_truth_def reply_defs)
qed simp

lemma outcomes_partition: "(\<Sum>oc\<in>UNIV. length (filter (\<lambda>rp. Outcome rp = oc) rps)) = length rps"
proof (induction rps)
  case (Cons rp rps)
  have "(\<Sum>oc\<in>UNIV. length (filter (\<lambda>x. Outcome x = oc) (rp # rps))) =
      (\<Sum>oc\<in>UNIV. (if Outcome rp = oc then 1 else 0) + length (filter (\<lambda>x. Outcome x = oc) rps))"
    by (intro sum.cong) auto
  also have "\<dots> = 1 + length rps" by (simp add: sum.distrib Cons.IH)
  finally show ?case by simp
qed simp

lemma never_ignored: "list_all tells_truth rps \<Longrightarrow> filter (\<lambda>rp. Outcome rp = OutcomeIgnored) rps = []"
  by (induction rps) (auto simp: tells_truth_def)

text \<open>
  C26 (invariant): what the metrics show is what Stripe was told. After any sequence of requests, served by
  the handler of production, each was answered and counted once, under the outcome of its answer; the
  answers of 500, after which Stripe delivers again, are exactly those counted as handler or
  configuration errors; and nothing was ever counted as ignored, although the label exists.
\<close>

theorem requests_accounted:
  "case run_state (serve_all E wh seen (HandlerFunc (dispatch E wh)) d rqs) s of (((rps, ms), d'), s') \<Rightarrow>
     length rps = length rqs \<and> (\<Sum>oc\<in>UNIV. counted oc ms) = length rqs \<and>
     counted oc ms = length (filter (\<lambda>rp. Outcome rp = oc) rps) \<and>
     length (filter (\<lambda>rp. HttpStatus rp = InternalServerErrorResponse) rps) =
       counted OutcomeHandlerError ms + counted OutcomeProviderConfigErr ms \<and>
     counted OutcomeIgnored ms = 0"
proof -
  obtain rps ms d' s' where run: "run_state (serve_all E wh seen (HandlerFunc (dispatch E wh)) d rqs) s =
      (((rps, ms), d'), s')" by (metis surj_pair)
  from dispatching.serve_all_accounts [OF this] show ?thesis
    by (simp add: run failures_by_outcome never_ignored outcomes_partition)
qed

text \<open>
  A panic is answered like an error, and with the same loss: the event is recorded before the handler runs, so
  its next delivery is a duplicate.
\<close>

context event_deduper
begin

lemma panicked_event_dropped:
  assumes "wf d" and "\<not> known d (ev_ID ev)" and "run_state (h ev) s = (None, s1)"
  defines "d1 \<equiv> snd (seen_or_record d (ev_ID ev))"
  shows "run_state (deliver_to seen_or_record h d ev) s = ((\<lparr>HttpStatus = InternalServerErrorResponse,
      Outcome = OutcomeHandlerError, EventType = ev_Type ev\<rparr>, d1), s1)"
    and "run_state (deliver_to seen_or_record h d1 ev) s2 = ((\<lparr>HttpStatus = OkResponse,
      Outcome = OutcomeDuplicate, EventType = ev_Type ev\<rparr>, snd (seen_or_record d1 (ev_ID ev))), s2)"
  using assms redelivered [OF assms(1), of "ev_ID ev"] by (simp_all add: deliver_to_run seen_iff_known)

end

end
