(* ===== verification/EnsureProtocol.thy ===== *)
theory EnsureProtocol
  imports StripeCustomers EnsureLocks
begin

text \<open>
  The link between the two models of \<open>StripeCustomers\<close>: what the whole program \<open>Ensure\<close> does
  between \<open>l.Lock()\<close> and the deferred \<open>l.Unlock()\<close>, read off its trace, is what the step
  relation of \<open>EnsureLocks\<close> lets a caller do inside its critical section. The bound on the customers
  created therefore holds of the program, for any sequence of its calls.
\<close>

section \<open>A trace, as the shared data sees it\<close>

fun created_id :: "effect \<Rightarrow> string list" where
  "created_id (CustomersNew p (Some c)) = [c]"
| "created_id _ = []"

definition created_ids :: "effect list \<Rightarrow> string list" where
  "created_ids es = concat (map created_id es)"

fun publish_effect :: "string \<Rightarrow> effect \<Rightarrow> string" where
  "publish_effect i (SCStatusPatch sc True) = sc_StripeCustomerID (sc_status sc)"
| "publish_effect i _ = i"

abbreviation publish_effects :: "string \<Rightarrow> effect list \<Rightarrow> string" where
  "publish_effects \<equiv> foldl publish_effect"

text \<open>A publication is lost when the status patch that carries an ID fails.\<close>

fun lost_publication :: "effect \<Rightarrow> bool" where
  "lost_publication (SCStatusPatch sc False) = (sc_StripeCustomerID (sc_status sc) \<noteq> '''')"
| "lost_publication _ = False"

definition lost_publications :: "effect list \<Rightarrow> nat" where
  "lost_publications es = length (filter lost_publication es)"

definition replay :: "'k \<Rightarrow> effect list \<Rightarrow> 'k sys \<Rightarrow> 'k sys" where
  "replay k es y = y\<lparr>created := (created y)(k := created y k + length (created_ids es)),
     publishedID := (publishedID y)(k := publish_effects (publishedID y k) es),
     lost := (lost y)(k := lost y k + lost_publications es)\<rparr>"

lemma created_ids_simps [simp]:
  "created_ids [] = []" "created_ids (e # es) = created_id e @ created_ids es"
  "created_ids (es @ es') = created_ids es @ created_ids es'"
  by (simp_all add: created_ids_def)

lemma lost_publications_simps [simp]:
  "lost_publications [] = 0"
  "lost_publications (e # es) = (if lost_publication e then Suc (lost_publications es) else lost_publications es)"
  "lost_publications (es @ es') = lost_publications es + lost_publications es'"
  by (simp_all add: lost_publications_def)

text \<open>Calls that are no status patch leave the published ID alone.\<close>

lemma unpublished:
  "list_all (\<lambda>e. \<forall>sc ok. e \<noteq> SCStatusPatch sc ok) es \<Longrightarrow> publish_effects i es = i \<and> lost_publications es = 0"
proof (induction es arbitrary: i)
  case (Cons e es)
  then show ?case by (cases "(i, e)" rule: publish_effect.cases) auto
qed simp

lemma uncreated: "list_all (\<lambda>e. \<not> creates_customer e) es \<Longrightarrow> created_ids es = []"
proof (induction es)
  case (Cons e es)
  then show ?case by (cases e rule: created_id.cases) auto
qed simp

section \<open>The critical section in steps\<close>

abbreviation steps :: "caller \<Rightarrow> 'k sys \<Rightarrow> 'k sys \<Rightarrow> bool" where
  "steps p \<equiv> (step p)\<^sup>*\<^sup>*"

lemma critical_quiet:
  assumes "pcs y p = Reading k l"
  shows "steps p y (goto p (Leaving k l) y)"
  by (rule r_into_rtranclp) (rule read_fails [OF assms])

text \<open>Working on the ID \<open>c\<close>: the known one, an adopted one, or one just created (\<open>n = 1\<close>).\<close>

lemma critical_publishing:
  assumes "pcs y p = Reading k l" and "c \<noteq> ''''" and "publishedID y k \<noteq> '''' \<Longrightarrow> c = publishedID y k"
    and "n = 0 \<or> n = 1 \<and> publishedID y k = ''''"
  shows "steps p y (goto p (Publishing k l c) (y\<lparr>created := (created y)(k := created y k + n)\<rparr>))"
proof -
  let ?i = "publishedID y k"
  let ?w = "goto p (Working k l ?i) y"
  have "step p y ?w" by (rule read [OF assms(1)])
  moreover have "step p ?w (goto p (Publishing k l c) (y\<lparr>created := (created y)(k := created y k + n)\<rparr>))"
  proof (cases "n = 1")
    case True
    with assms have "?i = ''''" by auto
    from create [of ?w p k l ?i c, OF _ this assms(2)] True show ?thesis by simp
  next
    case False
    with assms have n: "n = 0" by auto
    show ?thesis
    proof (cases "?i = ''''")
      case True
      from adopt [of ?w p k l ?i c, OF _ True assms(2)] n show ?thesis by simp
    next
      case known: False
      with assms(3) have "c = ?i" by simp
      with update [of ?w p k l ?i, OF _ known] n show ?thesis by simp
    qed
  qed
  ultimately show ?thesis by (metis (no_types) converse_rtranclp_into_rtranclp r_into_rtranclp)
qed

lemma critical_published:
  assumes "pcs y p = Reading k l" and "c \<noteq> ''''" and "publishedID y k \<noteq> '''' \<Longrightarrow> c = publishedID y k"
    and "n = 0 \<or> n = 1 \<and> publishedID y k = ''''"
  shows "steps p y (goto p (Leaving k l) (y\<lparr>created := (created y)(k := created y k + n),
      publishedID := (publishedID y)(k := c)\<rparr>))"
    and "steps p y (goto p (Leaving k l) (y\<lparr>created := (created y)(k := created y k + n),
      lost := (lost y)(k := lost y k + 1)\<rparr>))"
proof -
  let ?x = "goto p (Publishing k l c) (y\<lparr>created := (created y)(k := created y k + n)\<rparr>)"
  have x: "steps p y ?x" by (rule critical_publishing [OF assms])
  have "step p ?x (goto p (Leaving k l) (?x\<lparr>publishedID := (publishedID ?x)(k := c)\<rparr>))"
    by (rule publish) simp
  with x show "steps p y (goto p (Leaving k l) (y\<lparr>created := (created y)(k := created y k + n),
      publishedID := (publishedID y)(k := c)\<rparr>))"
    by (simp add: rtranclp.rtrancl_into_rtrancl)
  have "step p ?x (goto p (Leaving k l) (?x\<lparr>lost := (lost ?x)(k := lost ?x k + 1)\<rparr>))"
    by (rule publish_fails) simp
  with x show "steps p y (goto p (Leaving k l) (y\<lparr>created := (created y)(k := created y k + n),
      lost := (lost y)(k := lost y k + 1)\<rparr>))"
    by (simp add: rtranclp.rtrancl_into_rtrancl)
qed

section \<open>What the ensurer creates\<close>

text \<open>An ensurer whose creations show in its answer, as \<open>Ensure\<close> needs it to publish them.\<close>

locale tracked_ensurer = customer_ensurer +
  assumes creations: "run_state (ensure existing a d) s = ((c, err), s') \<Longrightarrow>
    created_ids (effects (ensure existing a d) s) = [] \<or>
    existing = '''' \<and> created_ids (effects (ensure existing a d) s) = [c] \<and> usable err"

definition creates_as_given :: "'w kube \<Rightarrow> bool" where
  "creates_as_given K \<longleftrightarrow> (\<forall>sc w sc' w'. create_sc K sc w = (Inr sc', w') \<longrightarrow> sc_status sc' = sc_status sc)"

text \<open>The uncached read shows the published ID \<open>i\<close>; no object means that none is published.\<close>

definition cluster_shows :: "'w env \<Rightarrow> billing_account \<Rightarrow> 'w \<Rightarrow> string \<Rightarrow> bool" where
  "cluster_shows E ba w i \<longleftrightarrow>
     (case fst (read_sc (kube E) (key_of (ba_meta ba)) w) of
        Inr sc \<Rightarrow> sc_StripeCustomerID (sc_status sc) = i
      | Inl e \<Rightarrow> IsNotFound e \<longrightarrow> i = '''')"

definition status_write :: "stripe_customer \<Rightarrow> string \<Rightarrow> effect list \<Rightarrow> bool" where
  "status_write sc c es \<longleftrightarrow> es = [] \<and> sc_StripeCustomerID (sc_status sc) = c \<or>
     (\<exists>sc' ok. es = [SCStatusPatch sc' ok] \<and> sc_StripeCustomerID (sc_status sc') = c)"

lemma synced_status_id [simp]: "sc_StripeCustomerID (synced_status L sc c r t) = c"
  by (simp add: synced_status_def Let_def split: option.split)

lemma patchStatus_write: "status_write sc c (effects (patchStatus E sc c r t) s)"
proof -
  have "sc_StripeCustomerID (sc_status sc) = c" if "sc_status sc = synced_status (lib E) sc c r t"
    using that by (metis synced_status_id)
  then show ?thesis
    by (auto simp: status_write_def patchStatus_def effects_def Let_def split: prod.split sum.split)
qed

lemma record_write:
  "status_write sc c (effects (record_synced E sc c e t) s)"
  "status_write sc c (effects (record_failure E sc c e') s)"
proof -
  have bind: "effects (State_Monad.bind (patchStatus E sc c r t') f) s = effects (patchStatus E sc c r t') s"
    if "\<And>x. \<exists>y. f x = ret y" for r t' and f :: "go_error option \<Rightarrow> ('a, 'b) prog"
  proof -
    have "emits (\<lambda>_. False) (f x)" for x using that [of x] by (auto intro: emits_ret)
    then have "effects (f x) s' = []" for x s' using emits_effects [of "\<lambda>_. False" "f x" s']
      by (cases "effects (f x) s'") auto
    with effects_bind [OF patchStatus_emits \<open>\<And>x. emits (\<lambda>_. False) (f x)\<close>] show ?thesis by simp
  qed
  show "status_write sc c (effects (record_synced E sc c e t) s)"
    unfolding record_synced_def by (subst bind) (auto split: option.split intro: patchStatus_write)
  show "status_write sc c (effects (record_failure E sc c e') s)"
    unfolding record_failure_def by (subst bind) (auto split: option.split intro: patchStatus_write)
qed

lemma getOrCreate_shows:
  assumes "cluster_shows E ba (world s) i" and "creates_as_given (kube E)"
    and "run_state (getOrCreate E ba) s = (Inr sc, s1)"
  shows "sc_StripeCustomerID (sc_status sc) = i"
proof -
  have "sc_status sc' = sc_status sc0" if "create_sc (kube E) sc0 w = (Inr sc', w')" for sc0 w sc' w'
    using assms(2) that by (auto simp: creates_as_given_def)
  with assms(1,3) show ?thesis
    by (fastforce simp: getOrCreate_def cluster_shows_def new_stripe_customer_def empty_sc_status_def
        Let_def split: prod.splits sum.splits option.splits if_splits)
qed

text \<open>What is appended to a trace before the ensurer is called, and after.\<close>

lemma known_customer_id_emits: "emits P (known_customer_id E ba sc)"
  unfolding known_customer_id_def by (intro effect_rules)

context customer_ensurer
begin

lemma sync_emits: "emits (\<lambda>_. True) (sync_customer E ensure ba sc x)"
  unfolding sync_customer_def
  by (intro effect_rules buildCustomerDetails_emits emits_mono [OF stripe_only]
      emits_mono [OF record_synced_emits] emits_mono [OF record_failure_emits] TrueI)

end

context tracked_ensurer
begin

lemma sync_effects:
  "effects (sync_customer E ensure ba sc x) s = [] \<or>
   (\<exists>d s1 c err s2 ws. run_state (buildCustomerDetails (kube E) ba) s = (Inr d, s1) \<and>
      run_state (ensure x (account_key_of ba) d) s1 = ((c, err), s2) \<and>
      effects (sync_customer E ensure ba sc x) s = effects (ensure x (account_key_of ba) d) s1 @ ws \<and>
      status_write sc (if usable err then c else x) ws)"
proof -
  obtain b s1 where b: "run_state (buildCustomerDetails (kube E) ba) s = (b, s1)" by fastforce
  have tr1: "trace s1 = trace s" by (rule silent [OF _ b]) (rule buildCustomerDetails_emits)
  show ?thesis
  proof (cases b)
    case (Inl e)
    with b tr1 show ?thesis by (simp add: sync_customer_def effects_def)
  next
    case (Inr d)
    obtain c err s2 where c: "run_state (ensure x (account_key_of ba) d) s1 = ((c, err), s2)"
      by (metis prod.exhaust)
    have tr2: "trace s2 = trace s1 @ effects (ensure x (account_key_of ba) d) s1"
      using emits_trace [OF stripe_only, of x "account_key_of ba" d s1] c by simp
    define rest where "rest = (case err of None \<Rightarrow> record_synced E sc c None None
      | Some e \<Rightarrow> (case As_TaxIDError e of None \<Rightarrow> record_failure E sc x e
          | Some u \<Rightarrow> record_synced E sc c (Some e) (Some u)))"
    have run: "run_state (sync_customer E ensure ba sc x) s = run_state rest s2"
      using b Inr c by (simp add: sync_customer_def rest_def)
    have "emits (\<lambda>e. \<exists>sc ok. e = SCStatusPatch sc ok) rest"
      unfolding rest_def by (intro effect_rules record_synced_emits record_failure_emits)
    from emits_trace [OF this, of s2]
    have "effects (sync_customer E ensure ba sc x) s =
        effects (ensure x (account_key_of ba) d) s1 @ effects rest s2"
      by (intro effects_eqI) (simp add: run tr1 tr2)
    moreover have "status_write sc (if usable err then c else x) (effects rest s2)"
      by (auto simp: rest_def record_write split: option.split)
    ultimately show ?thesis using b Inr c by blast
  qed
qed

text \<open>The two lookups, then the call of the ensurer.\<close>

lemma Ensure_parts:
  "list_all (\<lambda>e. \<exists>sc ok. e = SCCreate sc ok) (effects (Ensure E ensure ba) s) \<or>
   (\<exists>pre sc s1 x s2. list_all (\<lambda>e. \<exists>sc ok. e = SCCreate sc ok) pre \<and>
      run_state (getOrCreate E ba) s = (Inr sc, s1) \<and> run_state (known_customer_id E ba sc) s1 = (Inr x, s2) \<and>
      effects (Ensure E ensure ba) s = pre @ effects (sync_customer E ensure ba sc x) s2)"
proof -
  obtain g s1 where g: "run_state (getOrCreate E ba) s = (g, s1)" by fastforce
  let ?pre = "effects (getOrCreate E ba) s"
  have tr: "trace s1 = trace s @ ?pre"
    using emits_trace [OF getOrCreate_emits, of E ba s] g by simp
  have pre: "list_all (\<lambda>e. \<exists>sc ok. e = SCCreate sc ok) ?pre"
    by (rule emits_effects [OF getOrCreate_emits])
  show ?thesis
  proof (cases g)
    case (Inl e)
    with g tr have "effects (Ensure E ensure ba) s = ?pre" by (intro effects_eqI) (simp add: Ensure_def)
    with pre show ?thesis by simp
  next
    case (Inr sc)
    obtain k s2 where k: "run_state (known_customer_id E ba sc) s1 = (k, s2)" by fastforce
    have tr2: "trace s2 = trace s1" by (rule silent [OF known_customer_id_emits k])
    show ?thesis
    proof (cases k)
      case (Inl e)
      with g \<open>g = Inr sc\<close> k tr tr2 have "effects (Ensure E ensure ba) s = ?pre"
        by (intro effects_eqI) (simp add: Ensure_def)
      with pre show ?thesis by simp
    next
      case known: (Inr x)
      have "trace (snd (run_state (Ensure E ensure ba) s)) =
          trace s2 @ effects (sync_customer E ensure ba sc x) s2"
        using emits_trace [OF sync_emits, of E ba sc x s2] g Inr k known by (simp add: Ensure_def)
      then have "effects (Ensure E ensure ba) s = ?pre @ effects (sync_customer E ensure ba sc x) s2"
        by (intro effects_eqI) (simp add: tr tr2)
      with pre g k Inr known show ?thesis by blast
    qed
  qed
qed

lemma Ensure_effects:
  assumes "cluster_shows E ba (world s) i" and "creates_as_given (kube E)"
  shows "list_all (\<lambda>e. \<exists>sc ok. e = SCCreate sc ok) (effects (Ensure E ensure ba) s) \<or>
   (\<exists>pre sc x d s1 c err s2 ws. list_all (\<lambda>e. \<exists>sc ok. e = SCCreate sc ok) pre \<and>
      sc_StripeCustomerID (sc_status sc) = i \<and> (i \<noteq> '''' \<longrightarrow> x = i) \<and>
      run_state (ensure x (account_key_of ba) d) s1 = ((c, err), s2) \<and>
      effects (Ensure E ensure ba) s = pre @ effects (ensure x (account_key_of ba) d) s1 @ ws \<and>
      status_write sc (if usable err then c else x) ws)"
  using Ensure_parts [of E ba s]
proof (elim disjE exE conjE)
  fix pre sc s1 x s2
  assume pre: "list_all (\<lambda>e. \<exists>sc ok. e = SCCreate sc ok) pre"
    and g: "run_state (getOrCreate E ba) s = (Inr sc, s1)"
    and k: "run_state (known_customer_id E ba sc) s1 = (Inr x, s2)"
    and es: "effects (Ensure E ensure ba) s = pre @ effects (sync_customer E ensure ba sc x) s2"
  have i: "sc_StripeCustomerID (sc_status sc) = i" by (rule getOrCreate_shows [OF assms g])
  have x: "i \<noteq> '''' \<longrightarrow> x = i" using k i by (auto simp: known_customer_id_def)
  from sync_effects [of E ba sc x s2] show ?thesis
  proof (elim disjE exE conjE)
    assume "effects (sync_customer E ensure ba sc x) s2 = []"
    with pre es show ?thesis by simp
  next
    fix d s3 c err s4 ws
    assume call: "run_state (ensure x (account_key_of ba) d) s3 = ((c, err), s4)"
      and rest: "effects (sync_customer E ensure ba sc x) s2 = effects (ensure x (account_key_of ba) d) s3 @ ws"
      and ws: "status_write sc (if usable err then c else x) ws"
    show ?thesis
      by (rule disjI2, intro exI conjI, rule pre, rule i, rule x, rule call, rule es [unfolded rest],
          rule ws)
  qed
qed simp

end

lemma replay_quiet:
  "created_ids es = [] \<Longrightarrow> publish_effects (publishedID y k) es = publishedID y k \<Longrightarrow> lost_publications es = 0 \<Longrightarrow>
   replay k es y = y"
  by (simp add: replay_def)

lemma creates_only: "list_all (\<lambda>e. \<exists>sc ok. e = SCCreate sc ok) es \<Longrightarrow>
    created_ids es = [] \<and> publish_effects i es = i \<and> lost_publications es = 0"
  by (induction es) auto

text \<open>Inside the critical section: what the ensurer made, and one patch of the status at most.\<close>

lemma critical_replayed:
  assumes y: "pcs y p = Reading k l"
    and pre: "list_all (\<lambda>e. \<exists>sc ok. e = SCCreate sc ok) pre"
    and call: "publish_effects (publishedID y k) es = publishedID y k \<and> lost_publications es = 0"
    and ws: "status_write sc v ws" and sc: "sc_StripeCustomerID (sc_status sc) = publishedID y k"
    and known: "publishedID y k \<noteq> '''' \<Longrightarrow> v = publishedID y k"
    and made: "created_ids es = [] \<or> publishedID y k = '''' \<and> length (created_ids es) = 1 \<and> v \<noteq> ''''"
  shows "steps p y (goto p (Leaving k l) (replay k (pre @ es @ ws) y))"
proof -
  have replayed: "replay k (pre @ es @ ws) y =
      y\<lparr>created := (created y)(k := created y k + length (created_ids es @ created_ids ws)),
        publishedID := (publishedID y)(k := publish_effects (publishedID y k) ws),
        lost := (lost y)(k := lost y k + lost_publications ws)\<rparr>"
    using creates_only [OF pre] call by (simp add: replay_def)
  from ws consider (same) "ws = []" "v = publishedID y k"
    | (patched) sc' ok where "ws = [SCStatusPatch sc' ok]" "sc_StripeCustomerID (sc_status sc') = v"
    unfolding status_write_def sc by metis
  then show ?thesis
  proof cases
    case same
    with made have "created_ids es = []" by auto
    with same critical_quiet [OF y] replayed show ?thesis by simp
  next
    case patched
    show ?thesis
    proof (cases "v = ''''")
      case True
      with known made have "publishedID y k = ''''" "created_ids es = []" by auto
      then have "replay k (pre @ es @ ws) y = y"
        unfolding replayed using patched True by (cases ok) (simp_all add: fun_upd_idem)
      with critical_quiet [OF y] show ?thesis by simp
    next
      case False
      have "length (created_ids es) = 0 \<or> length (created_ids es) = 1 \<and> publishedID y k = ''''"
        using made by auto
      note moves = critical_published [OF y False known this]
      show ?thesis unfolding replayed using patched False moves by (cases ok) simp_all
    qed
  qed
qed

context tracked_ensurer
begin

lemma ensure_unpublished:
  "publish_effects i (effects (ensure x a d) s) = i \<and> lost_publications (effects (ensure x a d) s) = 0"
  using emits_effects [OF stripe_only, of x a d s]
  by (intro unpublished) (auto simp: list_all_iff)

lemma Ensure_critical:
  assumes y: "pcs y p = Reading k l"
    and sees: "cluster_shows E ba (world s) (publishedID y k)" and given: "creates_as_given (kube E)"
    and ids: "\<forall>x a d s c err s'. run_state (ensure x a d) s = ((c, err), s') \<and> usable err \<longrightarrow> c \<noteq> ''''"
  shows "steps p y (goto p (Leaving k l) (replay k (effects (Ensure E ensure ba) s) y))"
  using Ensure_effects [OF sees given]
proof (elim disjE exE conjE)
  assume "list_all (\<lambda>e. \<exists>sc ok. e = SCCreate sc ok) (effects (Ensure E ensure ba) s)"
  from creates_only [OF this] critical_quiet [OF y] show ?thesis by (simp add: replay_quiet)
next
  fix pre sc d s1 err s2 ws and c x :: string
  let ?i = "publishedID y k" and ?v = "if usable err then c else x"
  assume pre: "list_all (\<lambda>e. \<exists>sc ok. e = SCCreate sc ok) pre"
    and sc: "sc_StripeCustomerID (sc_status sc) = ?i" and x: "?i \<noteq> '''' \<longrightarrow> x = ?i"
    and call: "run_state (ensure x (account_key_of ba) d) s1 = ((c, err), s2)"
    and es: "effects (Ensure E ensure ba) s = pre @ effects (ensure x (account_key_of ba) d) s1 @ ws"
    and ws: "status_write sc ?v ws"
  have used: "usable err \<Longrightarrow> c \<noteq> ''''" using ids call by blast
  have "?v = ?i" if "?i \<noteq> ''''"
    using that x call known_id [of x "account_key_of ba" d s1] by auto
  moreover have "created_ids (effects (ensure x (account_key_of ba) d) s1) = [] \<or>
      ?i = '''' \<and> length (created_ids (effects (ensure x (account_key_of ba) d) s1)) = 1 \<and> ?v \<noteq> ''''"
    using creations [OF call] x used by auto
  ultimately show ?thesis
    unfolding es by (intro critical_replayed [OF y pre ensure_unpublished ws sc])
qed

end

section \<open>The Stripe client\<close>

lemma tax_uncreated: "list_all (is_tax_effect c) es \<Longrightarrow> created_ids es = []"
  by (rule uncreated) (auto simp: list_all_iff)

lemma EnsureCustomer_created_usable:
  assumes empty: "existing = ''''"
    and t: "ak_Name a = '''' \<and> t = s \<or> ak_Name a \<noteq> '''' \<and>
      run_state (findCustomerByBillingAccount S a) s = (Inr '''', t)"
    and run: "run_state (EnsureCustomer S rt existing a d) s = ((c, err), s')"
    and "CustomersNew p (Some i) \<in> set (effects (EnsureCustomer S rt existing a d) s)"
  shows "usable err"
proof -
  let ?p = "applyCustomerDetails (account_params a) d"
  obtain n w where n: "customers_new S ?p (world t) = (n, w)" by fastforce
  have tr: "trace t = trace s" using t find_trace by auto
  note run' = EnsureCustomer_unfound [OF empty t n, of rt, unfolded Let_def]
  show ?thesis
  proof (cases n)
    case (Inl e)
    with assms(4) show ?thesis by (simp add: effects_def run' tr ok_id_def)
  next
    case (Inr cu)
    with run run' show ?thesis
      by (cases err) (auto dest: with_tax_ids_error)
  qed
qed

lemma EnsureCustomer_creations:
  assumes run: "run_state (EnsureCustomer S rt existing a d) s = ((c, err), s')"
  shows "created_ids (effects (EnsureCustomer S rt existing a d) s) = [] \<or>
    existing = '''' \<and> created_ids (effects (EnsureCustomer S rt existing a d) s) = [c] \<and> usable err"
proof (cases rule: EnsureCustomer_cases [of s S rt existing a d])
  case (updates c t)
  then have "effects (EnsureCustomer S rt existing a d) s = effects (EnsureCustomer S rt c a d) t"
    by (simp add: effects_def)
  with emits_effects [OF EnsureCustomer_known_calls [OF updates(1)], of S rt a d t] show ?thesis
    by (simp add: uncreated)
next
  case failed
  then show ?thesis by simp
next
  case (creates t)
  obtain p r es where es: "effects (EnsureCustomer S rt existing a d) s = CustomersNew p r # es"
    "\<forall>p r. CustomersNew p r \<notin> set es"
    "fst (fst (run_state (EnsureCustomer S rt existing a d) s)) = (case r of None \<Rightarrow> '''' | Some c \<Rightarrow> c)"
    using EnsureCustomer_creation [OF creates, of rt d] by blast
  then have none: "created_ids es = []" by (intro uncreated) (auto simp: list_all_iff creates_customer_def)
  show ?thesis
  proof (cases r)
    case None
    with es none show ?thesis by simp
  next
    case (Some i)
    with es(1) have "usable err" by (intro EnsureCustomer_created_usable [OF creates run, of p i]) simp
    with Some es none creates(1) run show ?thesis by simp
  qed
qed
interpretation tracked_client: tracked_ensurer "EnsureCustomer S rt" for S rt
  by unfold_locales (rule EnsureCustomer_creations)

text \<open>Stripe never answers a created customer without an ID, and its errors are its own.\<close>

definition stripe_answers_ok :: "'w stripe_api \<Rightarrow> bool" where
  "stripe_answers_ok S \<longleftrightarrow>
     (\<forall>p w cu w'. customers_new S p w = (Inr cu, w') \<longrightarrow> cus_ID cu \<noteq> '''') \<and>
     (\<forall>p w e w'. customers_new S p w = (Inl e, w') \<longrightarrow> foreign e) \<and>
     (\<forall>q w items e w'. customers_search S q w = ((items, Some e), w') \<longrightarrow> foreign e)"

lemma stripe_answersD:
  assumes "stripe_answers_ok S"
  shows "customers_new S p w = (Inr cu, w') \<Longrightarrow> cus_ID cu \<noteq> ''''"
    and "customers_new S p w = (Inl e, w') \<Longrightarrow> As_TaxIDError e = None"
    and "customers_search S q w = ((items, Some e), w') \<Longrightarrow> As_TaxIDError e = None"
  using assms unfolding stripe_answers_ok_def by (metis foreign_plain(1))+

lemma search_plain:
  "stripe_answers_ok S \<Longrightarrow> run_state (searchCustomer S q m) s = (Inl e, s') \<Longrightarrow> As_TaxIDError e = None"
  by (auto simp: searchCustomer_def dest: stripe_answersD(3) split: prod.splits option.splits)

lemma find_plain:
  "stripe_answers_ok S \<Longrightarrow> run_state (findCustomerByBillingAccount S a) s = (Inl e, s') \<Longrightarrow>
   As_TaxIDError e = None"
  by (auto simp: findCustomerByBillingAccount_def dest: search_plain split: prod.splits if_splits)

lemma EnsureCustomer_usable_id:
  assumes ok: "stripe_answers_ok S" and run: "run_state (EnsureCustomer S rt x a d) s = ((c, err), s')"
    and usable: "usable err"
  shows "c \<noteq> ''''"
proof (cases "x = ''''")
  case False
  with EnsureCustomer_existing_calls [OF False, of S rt a d s] run show ?thesis by simp
next
  case empty: True
  obtain f t where f: "run_state (findCustomerByBillingAccount S a) s = (f, t)" by fastforce
  consider (err) e where "ak_Name a \<noteq> ''''" "f = Inl e" | (found) i where "ak_Name a \<noteq> ''''" "f = Inr i" "i \<noteq> ''''"
    | (none) "ak_Name a = '''' \<or> f = Inr ''''" by (cases f) auto
  then show ?thesis
  proof cases
    case err
    with f run empty usable find_plain [OF ok] show ?thesis by (auto simp: EnsureCustomer_def)
  next
    case found
    with f run empty EnsureCustomer_found [of a i S s t rt d] have "run_state (EnsureCustomer S rt i a d) t = ((c, err), s')"
      by simp
    with EnsureCustomer_existing_calls [OF found(3), of S rt a d t] found(3) show ?thesis by simp
  next
    case none
    then obtain t where t: "ak_Name a = '''' \<and> t = s \<or> ak_Name a \<noteq> '''' \<and>
        run_state (findCustomerByBillingAccount S a) s = (Inr '''', t)"
      using f by (cases "ak_Name a = ''''") auto
    obtain n w where n: "customers_new S (applyCustomerDetails (account_params a) d) (world t) = (n, w)"
      by fastforce
    note run' = run [unfolded EnsureCustomer_unfound [OF empty t n] Let_def]
    show ?thesis
    proof (cases n)
      case (Inl e)
      with n stripe_answersD(2) [OF ok] have "As_TaxIDError e = None" by blast
      with Inl run' usable show ?thesis by auto
    next
      case (Inr cu)
      with n stripe_answersD(1) [OF ok] have "cus_ID cu \<noteq> ''''" by blast
      moreover from Inr run' have "c = cus_ID cu" by simp (metis fst_conv with_tax_ids_id)
      ultimately show ?thesis by simp
    qed
  qed
qed

section \<open>Properties\<close>

text \<open>
  C3 (refinement): between taking and releasing the account's lock, the program Ensure over the Stripe
  client does what the protocol of EnsureLocks does: from a caller that has just taken the lock, with
  the published ID that the uncached read shows, the protocol reaches the release with exactly the
  customers created, the ID published and the publications lost that the run's calls say, whatever the
  calls answer.
\<close>

theorem Ensure_refines_protocol:
  assumes "pcs y p = Reading (key_of (ba_meta ba)) l"
    and "cluster_shows E ba (world s) (publishedID y (key_of (ba_meta ba)))"
    and "creates_as_given (kube E)" and "stripe_answers_ok S"
  shows "steps p y (goto p (Leaving (key_of (ba_meta ba)) l)
    (replay (key_of (ba_meta ba)) (effects (Ensure E (EnsureCustomer S rt) ba) s) y))"
proof -
  have "\<forall>x a d s c err s'. run_state (EnsureCustomer S rt x a d) s = ((c, err), s') \<and> usable err \<longrightarrow> c \<noteq> ''''"
    using EnsureCustomer_usable_id [OF assms(4)] by blast
  from tracked_client.Ensure_critical [OF assms(1-3) this] show ?thesis by assumption
qed

section \<open>Sequences of calls\<close>

text \<open>
  Calls one after the other, as the lock lets them happen: each from a world of its own, in which
  anything may have changed since the call before, with the effects of all.
\<close>

fun ensure_calls :: "'w env \<Rightarrow> 'w stripe_api \<Rightarrow> 'w surroundings \<Rightarrow> ('w \<times> billing_account) list \<Rightarrow>
    effect list \<Rightarrow> effect list" where
  "ensure_calls E S rt [] es = es"
| "ensure_calls E S rt ((w, ba) # calls) es =
     ensure_calls E S rt calls (es @ effects (Ensure E (EnsureCustomer S rt) ba) \<lparr>world = w, trace = es\<rparr>)"

text \<open>Each call's uncached read shows the ID published by the calls before it.\<close>

fun reads_published :: "'w env \<Rightarrow> 'w stripe_api \<Rightarrow> 'w surroundings \<Rightarrow> ('w \<times> billing_account) list \<Rightarrow>
    effect list \<Rightarrow> bool" where
  "reads_published E S rt [] es \<longleftrightarrow> True"
| "reads_published E S rt ((w, ba) # calls) es \<longleftrightarrow>
     cluster_shows E ba w (publish_effects '''' es) \<and>
     reads_published E S rt calls (es @ effects (Ensure E (EnsureCustomer S rt) ba) \<lparr>world = w, trace = es\<rparr>)"

definition quiescent :: "'k sys \<Rightarrow> bool" where
  "quiescent y \<longleftrightarrow> mu y = None \<and> (\<forall>q. pcs y q = Idle) \<and> (\<forall>l. held y l = None)"

text \<open>The protocol state that stands for the calls made so far.\<close>

definition stands_for :: "'k sys \<Rightarrow> 'k \<Rightarrow> effect list \<Rightarrow> bool" where
  "stands_for y k es \<longleftrightarrow> publishedID y k = publish_effects '''' es \<and>
     created y k = length (created_ids es) \<and> lost y k = lost_publications es"

lemma steps_reachable: "steps p y y' \<Longrightarrow> reachable ids y \<Longrightarrow> reachable ids y'"
  by (induction rule: rtranclp_induct) (auto intro: reachable.more)

lemma enter:
  assumes "quiescent y"
  obtains l y' where "steps p y y'" and "pcs y' p = Reading k l"
    and "quiescent (goto p Idle (y'\<lparr>held := (held y')(l := None)\<rparr>))"
    and "publishedID y' = publishedID y" and "created y' = created y" and "lost y' = lost y"
proof -
  have q: "mu y = None" "pcs y q = Idle" "held y l = None" for q l
    using assms by (simp_all add: quiescent_def)
  let ?s1 = "goto p (WantMu k) y"
  let ?s2 = "goto p (InMu k) (?s1\<lparr>mu := Some p\<rparr>)"
  have s1: "step p y ?s1" by (rule call) (rule q)
  have s2: "step p ?s1 ?s2" by (rule mu_lock) (simp_all add: q)
  obtain l ls f where s3: "steps p ?s2 (goto p (LeaveMu k l) (?s2\<lparr>fresh := f, locks := ls\<rparr>))"
  proof (cases "locks y k")
    case None
    let ?m = "goto p (Missing k) ?s2"
    let ?a = "goto p (Storing k (fresh ?m)) (?m\<lparr>fresh := fresh ?m + 1\<rparr>)"
    let ?f = "goto p (LeaveMu k (fresh ?m)) (?a\<lparr>locks := (locks ?a)(k \<mapsto> fresh ?m)\<rparr>)"
    have m: "step p ?s2 ?m" by (rule lookup_miss) (simp_all add: None)
    have a: "step p ?m ?a" by (rule allocate) simp
    have f: "step p ?a ?f" by (rule store) simp
    have "steps p ?s2 ?f"
      by (rule converse_rtranclp_into_rtranclp, rule m, rule converse_rtranclp_into_rtranclp, rule a,
          rule r_into_rtranclp, rule f)
    then show thesis by (intro that [where l = "fresh ?m" and ls = "(locks y)(k \<mapsto> fresh ?m)" and f = "fresh ?m + 1"]) simp
  next
    case (Some l)
    have "step p ?s2 (goto p (LeaveMu k l) ?s2)" by (rule lookup_hit) (simp_all add: Some)
    then have "steps p ?s2 (goto p (LeaveMu k l) (?s2\<lparr>fresh := fresh ?s2, locks := locks ?s2\<rparr>))"
      by (simp add: r_into_rtranclp)
    then show thesis by (rule that)
  qed
  let ?s3 = "goto p (LeaveMu k l) (?s2\<lparr>fresh := f, locks := ls\<rparr>)"
  let ?s4 = "goto p (WantLock k l) (?s3\<lparr>mu := None\<rparr>)"
  let ?s5 = "goto p (Reading k l) (?s4\<lparr>held := (held ?s4)(l := Some p)\<rparr>)"
  have s4: "step p ?s3 ?s4" by (rule mu_unlock) simp
  have s5: "step p ?s4 ?s5" by (rule acquire) (simp_all add: q)
  have "steps p y ?s2" by (rule converse_rtranclp_into_rtranclp, rule s1, rule r_into_rtranclp, rule s2)
  then have "steps p y ?s3" using s3 by (rule rtranclp_trans)
  moreover have "steps p ?s3 ?s5"
    by (rule converse_rtranclp_into_rtranclp, rule s4, rule r_into_rtranclp, rule s5)
  ultimately have "steps p y ?s5" by (rule rtranclp_trans)
  then show thesis by (rule that) (simp_all add: quiescent_def q)
qed

lemma Ensure_call_simulated:
  assumes "reachable ids y" and "quiescent y" and "stands_for y k es"
    and "cluster_shows E ba w (publish_effects '''' es)" and "creates_as_given (kube E)"
    and ok: "stripe_answers_ok S"
  obtains y' where "reachable ids y'" and "quiescent y'"
    and "stands_for y' k (es @ effects (Ensure E (EnsureCustomer S rt) ba) \<lparr>world = w, trace = es\<rparr>)"
proof -
  let ?es = "effects (Ensure E (EnsureCustomer S rt) ba) \<lparr>world = w, trace = es\<rparr>"
  obtain l y1 where y1: "steps 0 y y1" "pcs y1 0 = Reading k l"
      "quiescent (goto 0 Idle (y1\<lparr>held := (held y1)(l := None)\<rparr>))"
      "publishedID y1 = publishedID y" "created y1 = created y" "lost y1 = lost y"
    by (rule enter [OF assms(2), of 0 k])
  let ?y2 = "goto 0 (Leaving k l) (replay k ?es y1)"
  let ?y3 = "goto 0 Idle (?y2\<lparr>held := (held ?y2)(l := None)\<rparr>)"
  have "cluster_shows E ba (world \<lparr>world = w, trace = es\<rparr>) (publishedID y1 k)"
    using assms(3,4) by (simp add: y1 stands_for_def)
  moreover have "\<forall>x a d s c err s'. run_state (EnsureCustomer S rt x a d) s = ((c, err), s') \<and> usable err \<longrightarrow> c \<noteq> ''''"
    using EnsureCustomer_usable_id [OF ok] by blast
  ultimately have "steps 0 y1 ?y2" by (rule tracked_client.Ensure_critical [OF y1(2) _ assms(5)])
  then have "reachable ids ?y2" using steps_reachable steps_reachable [OF y1(1) assms(1)] by blast
  moreover have "step 0 ?y2 ?y3" by (rule release) simp
  ultimately have "reachable ids ?y3" by (rule reachable.more)
  moreover have "quiescent ?y3" using y1(3) by (simp add: quiescent_def replay_def)
  moreover have "stands_for ?y3 k (es @ ?es)"
    using assms(3) by (simp add: stands_for_def replay_def y1)
  ultimately show thesis by (rule that)
qed

lemma ensure_calls_simulated:
  assumes "reachable ids y" and "quiescent y" and "stands_for y k es"
    and "reads_published E S rt calls es" and "creates_as_given (kube E)" and "stripe_answers_ok S"
  shows "\<exists>y'. reachable ids y' \<and> stands_for y' k (ensure_calls E S rt calls es)"
  using assms
proof (induction calls arbitrary: y es)
  case (Cons c calls)
  obtain w ba where c: "c = (w, ba)" by fastforce
  with Cons.prems(4) have sees: "cluster_shows E ba w (publish_effects '''' es)"
    and rest: "reads_published E S rt calls (es @ effects (Ensure E (EnsureCustomer S rt) ba) \<lparr>world = w, trace = es\<rparr>)"
    by simp_all
  obtain y' where y': "reachable ids y'" "quiescent y'"
    "stands_for y' k (es @ effects (Ensure E (EnsureCustomer S rt) ba) \<lparr>world = w, trace = es\<rparr>)"
    by (rule Ensure_call_simulated [OF Cons.prems(1-3) sees Cons.prems(5,6)])
  from Cons.IH [OF y' rest Cons.prems(5,6)] show ?case by (simp add: c)
qed auto

text \<open>
  C2 (safety): over any number of Ensure calls for an account, made by any reconcilers as the lock
  orders them, with anything changing in the cluster and in Stripe in between and any call failing, the
  program creates at most one customer more than it loses publications: as long as no status patch that
  carries an ID fails, an account has one customer. What it needs is that its uncached read shows the
  ID published last.
\<close>

theorem Ensure_calls_create_once:
  assumes "reads_published E S rt calls []" and "creates_as_given (kube E)" and "stripe_answers_ok S"
  shows "length (created_ids (ensure_calls E S rt calls [])) \<le>
    lost_publications (ensure_calls E S rt calls []) + 1"
proof -
  let ?y = "NewStripeCustomers (\<lambda>_. '''') :: unit sys"
  have "quiescent ?y" "stands_for ?y () []"
    by (simp_all add: quiescent_def stands_for_def NewStripeCustomers_def)
  from ensure_calls_simulated [OF reachable.start this assms] obtain y'
    where y': "reachable (\<lambda>_. '''') y'" "stands_for y' () (ensure_calls E S rt calls [])" by blast
  from sys_inv_reachable [OF y'(1)] have "created y' () \<le> lost y' () + 1"
    by (auto simp: sys_inv_def count_inv_def dest!: spec [of _ "()"] split: if_splits)
  with y'(2) show ?thesis by (simp add: stands_for_def)
qed

section \<open>Witnesses\<close>

text \<open>An account before and after its customer is published: the world says which.\<close>

definition growing_stripe :: "bool stripe_api" where
  "growing_stripe = sample_stripe\<lparr>customers_new := \<lambda>_. answer sample_customer,
     customers_update := \<lambda>_ _. answer sample_customer\<rparr>"

definition growing_env :: "bool env" where
  "growing_env = sample_env\<lparr>kube := sample_kube\<lparr>
     read_sc := \<lambda>_ w. if w then answer owned_sc w else missing w\<rparr>, sdk := \<lambda>_. growing_stripe\<rparr>"

lemmas growing_defs = growing_env_def growing_stripe_def owned_sc_def new_stripe_customer_def
  empty_sc_status_def

lemma growing_ok: "creates_as_given (kube growing_env)" "stripe_answers_ok growing_stripe"
  by (simp_all add: creates_as_given_def stripe_answers_ok_def growing_defs sample_defs)

abbreviation growing_details :: customer_details where
  "growing_details \<equiv> customerDetailsFromBillingAccount sample_ba"

lemma growing_run:
  "run_state (buildCustomerDetails (kube growing_env) sample_ba) s = (Inr growing_details, s)"
  "run_state (findExistingCustomerID (kube growing_env) ns n) s = (Inr '''', s)"
  by (simp_all add: buildCustomerDetails_def findDefaultStripePaymentMethodID_def
      listBoundProjectNames_def findExistingCustomerID_def accountStripePaymentMethods_def
      customerDetailsFromBillingAccount_def empty_details_def first_customer_id_def
      growing_env_def sample_defs)

lemma growing_EnsureCustomer:
  "run_state (EnsureCustomer growing_stripe sample_os '''' (account_key_of sample_ba) growing_details) s =
    ((''cus_1'', None), s\<lparr>trace := trace s @ [CustomersNew (applyCustomerDetails
        (account_params (account_key_of sample_ba)) growing_details) (Some ''cus_1'')]\<rparr>)"
  by (simp add: EnsureCustomer_def findCustomerByBillingAccount_def searchCustomer_def with_tax_ids_def
      reconcileTaxIDs_def existing_tax_ids_def ok_id_def growing_stripe_def account_key_of_def Let_def
      customerDetailsFromBillingAccount_def empty_details_def sample_defs)

lemma growing_created:
  "created_ids (effects (Ensure growing_env (EnsureCustomer growing_stripe sample_os) sample_ba)
     \<lparr>world = False, trace = es\<rparr>) = [''cus_1''] \<and>
   publish_effects i (effects (Ensure growing_env (EnsureCustomer growing_stripe sample_os) sample_ba)
     \<lparr>world = False, trace = es\<rparr>) = ''cus_1''"
proof -
  have get: "run_state (getOrCreate growing_env sample_ba) \<lparr>world = False, trace = es\<rparr> =
    (Inr ((new_stripe_customer sample_ba)\<lparr>sc_meta := sc_meta owned_sc\<rparr>), \<lparr>world = False, trace = es @
      [SCCreate ((new_stripe_customer sample_ba)\<lparr>sc_meta := sc_meta owned_sc\<rparr>) True]\<rparr>)"
    by (simp add: getOrCreate_def growing_defs sample_defs Let_def)
  show ?thesis
    by (simp add: effects_def Ensure_def get known_customer_id_def new_stripe_customer_def empty_sc_status_def growing_run
      sync_customer_def growing_EnsureCustomer record_synced_def patchStatus_def Let_def)
       (simp add: growing_env_def synced_status_def Let_def sample_defs)
qed


theorem Ensure_calls_create_once_witness:
  "length (created_ids (ensure_calls growing_env growing_stripe sample_os
     [(False, sample_ba), (True, sample_ba)] [])) \<le> lost_publications (ensure_calls growing_env growing_stripe
     sample_os [(False, sample_ba), (True, sample_ba)] []) + 1"
proof (rule Ensure_calls_create_once [OF _ growing_ok])
  show "reads_published growing_env growing_stripe sample_os [(False, sample_ba), (True, sample_ba)] []"
    using growing_created [of "[]" "''''"]
    by (simp add: cluster_shows_def) (simp add: growing_env_def owned_sc_def sample_defs)
qed

text \<open>A caller that has just taken the account's lock, when nothing is published.\<close>

definition locked :: "object_key sys" where
  "locked = goto 1 (Reading (key_of (ba_meta sample_ba)) 0) (NewStripeCustomers (\<lambda>_. ''''))"

theorem Ensure_refines_protocol_witness:
  "\<exists>y. steps 1 locked y \<and> publishedID y (''org'', ''acme'') = ''cus_1'' \<and> created y (''org'', ''acme'') = 1"
proof -
  let ?s = "\<lparr>world = False, trace = []\<rparr>"
  have key: "key_of (ba_meta sample_ba) = (''org'', ''acme'')" by (simp add: key_of_def sample_defs)
  have "pcs locked 1 = Reading (key_of (ba_meta sample_ba)) 0" by (simp add: locked_def)
  moreover have "cluster_shows growing_env sample_ba (world ?s) (publishedID locked (key_of (ba_meta sample_ba)))"
    by (simp add: cluster_shows_def locked_def NewStripeCustomers_def growing_env_def sample_defs)
  ultimately have "steps 1 locked (goto 1 (Leaving (key_of (ba_meta sample_ba)) 0) (replay
      (key_of (ba_meta sample_ba)) (effects (Ensure growing_env (EnsureCustomer growing_stripe sample_os)
        sample_ba) ?s) locked))"
    by (rule Ensure_refines_protocol) (rule growing_ok)+
  then show ?thesis
    by - (rule exI, rule conjI, assumption,
      simp add: replay_def key growing_created locked_def NewStripeCustomers_def)
qed

end
