(* ===== verification/Lifecycle.thy ===== *)
theory Lifecycle
  imports Webhook
begin

text \<open>
  The life of a \<open>StripePaymentMethod\<close>'s status across the two processes that write it: the
  reconciler (\<open>stripepaymentmethod_controller.go\<close>) and the webhook (\<open>internal/webhook/http.go\<close>).
  \<open>phase_step\<close> is the state machine the phases promise (\<open>stripepaymentmethod_types.go\<close>);
  \<open>writes\<close> is what the two programs really write to a resource they read. Every write is a step of
  the machine, and computes a well-formed status from a well-formed one. What becomes of the status when
  writes from older readings land is in \<open>StaleWrites\<close>.
\<close>

section \<open>The phases\<close>

datatype writer = Reconciler | StripeEvent

inductive phase_step :: "writer \<Rightarrow> spm_phase \<Rightarrow> spm_phase \<Rightarrow> bool" where
  issue: "p \<noteq> Active \<Longrightarrow> p \<noteq> Failed \<Longrightarrow> phase_step Reconciler p AwaitingConfirmation"
| note_cleanup: "phase_step Reconciler p p"
| confirm: "phase_step StripeEvent p Active"
| decline: "phase_step StripeEvent p Failed"

inductive_simps phase_step_from_terminal [simp]:
  "phase_step Reconciler Active q" "phase_step Reconciler Failed q"

inductive_cases phase_stepE: "phase_step a p q"

section \<open>Well-formed statuses\<close>

definition has_condition :: "condition list \<Rightarrow> string \<Rightarrow> condition_status \<Rightarrow> bool" where
  "has_condition cs t v \<longleftrightarrow> (case find_condition cs t of None \<Rightarrow> False | Some c \<Rightarrow> c_Status c = v)"

definition is_int32 :: "int \<Rightarrow> bool" where
  "is_int32 i \<longleftrightarrow> - (2 ^ 31) \<le> i \<and> i < 2 ^ 31"

definition instrument_wf :: "instrument_details \<Rightarrow> bool" where
  "instrument_wf i \<longleftrightarrow> in_Type i = InstrumentCard \<and> in_USBankAccount i = None \<and>
     (case in_Card i of None \<Rightarrow> False
      | Some c \<Rightarrow> is_int32 (cd_ExpiryMonth c) \<and> is_int32 (cd_ExpiryYear c))"

definition phase_wf :: "spm_status \<Rightarrow> bool" where
  "phase_wf st \<longleftrightarrow>
     (case Phase st of
        PhaseUnset \<Rightarrow> SetupIntent st = None \<and> ConfirmedAt st = None
      | Initializing \<Rightarrow> False
      | AwaitingConfirmation \<Rightarrow> StripeCustomerID st \<noteq> '''' \<and>
          (\<exists>i. SetupIntent st = Some i \<and> si_ExpiresAt i \<noteq> None) \<and>
          has_condition (Conditions st) ''SetupIntentReady'' ConditionTrue
      | Active \<Rightarrow> ConfirmedAt st \<noteq> None \<and> (\<exists>i. SetupIntent st = Some i \<and> si_ClientSecret i = '''') \<and>
          has_condition (Conditions st) ''Confirmed'' ConditionTrue
      | Failed \<Rightarrow> SetupIntent st \<noteq> None \<and> has_condition (Conditions st) ''Confirmed'' ConditionFalse)"

definition status_wf :: "spm_status \<Rightarrow> bool" where
  "status_wf st \<longleftrightarrow> phase_wf st \<and> (\<forall>i. Instrument st = Some i \<longrightarrow> instrument_wf i)"

section \<open>What the programs write\<close>

inductive writes :: "'w env \<Rightarrow> spm_reconciler \<Rightarrow> webhook \<Rightarrow> writer \<Rightarrow> spm \<Rightarrow> spm \<Rightarrow> bool" for E rc wh where
  reconcile: "get_spm (kube E) req (world s) = (Inr x, w) \<Longrightarrow>
    SPMStatusPatch y True \<in> set (effects (Reconcile_StripePaymentMethod E rc req) s) \<Longrightarrow>
    writes E rc wh Reconciler x y"
| event: "decodeSetupIntent (os E) ev = Inr si \<Longrightarrow>
    run_state (findStripePaymentMethod (kube E) si) s = (Inr (Some x), t) \<Longrightarrow>
    SPMStatusPatch y True \<in> set (effects (dispatch E wh ev) s) \<Longrightarrow>
    writes E rc wh StripeEvent x y"

section \<open>Facts: the reconciler's writes\<close>

definition issued :: "'w env \<Rightarrow> spm \<Rightarrow> spm \<Rightarrow> bool" where
  "issued E x y \<longleftrightarrow> Phase (spm_status x) \<noteq> Active \<and> Phase (spm_status x) \<noteq> Failed \<and>
     (\<exists>c si t taxErr. c \<noteq> '''' \<and> spm_status y = awaiting_status E x c si t taxErr)"

definition noted :: "'w env \<Rightarrow> spm \<Rightarrow> spm \<Rightarrow> bool" where
  "noted E x y \<longleftrightarrow> (\<exists>c. c_Type c = ''CleanupIncomplete'' \<and> spm_status y =
     (spm_status x)\<lparr>Conditions := SetStatusCondition (lib E) (Conditions (spm_status x)) c\<rparr>)"

abbreviation status_writes :: "(spm \<Rightarrow> bool) \<Rightarrow> effect \<Rightarrow> bool" where
  "status_writes P e \<equiv> (\<forall>y ok. e = SPMStatusPatch y ok \<longrightarrow> P y)"

lemma publish_writes:
  assumes "Phase (spm_status x) \<noteq> Active" and "Phase (spm_status x) \<noteq> Failed"
  shows "emits (status_writes (issued E x)) (publishSetupIntent E rc S x c taxErr)"
proof (cases "c = ''''")
  case True
  then show ?thesis unfolding publishSetupIntent_def CreateSetupIntent_def by (simp add: effect_rules)
next
  case False
  have "emits (status_writes (issued E x)) (ensurePaymentMethodAwaiting E z)" for z
    by (rule emits_mono [OF ensurePaymentMethodAwaiting_emits]) auto
  moreover have "emits (status_writes (issued E x)) (CreateSetupIntent S c ns n)" for ns n
    by (rule emits_mono [OF CreateSetupIntent_emits]) auto
  ultimately show ?thesis
    unfolding publishSetupIntent_def publish_status_def
    by (intro effect_rules) (use assms False in \<open>auto simp: issued_def\<close>)
qed

lemma reconcileSetupIntent_writes:
  assumes "Phase (spm_status x) \<noteq> Active" and "Phase (spm_status x) \<noteq> Failed"
  shows "emits (status_writes (issued E x)) (reconcileSetupIntent E rc x)"
proof -
  have "emits (status_writes (issued E x)) (Ensure E (EnsureCustomer S rt) ba)" for S rt ba
    by (rule emits_mono [OF Ensure_emits])
      (auto simp: is_ensure_effect_def is_sc_effect_def creates_customer_def is_tax_effect_def)
  then show ?thesis
    unfolding reconcileSetupIntent_def by (intro effect_rules publish_writes assms)
qed

lemma noted_cleanup:
  "noted E x (x\<lparr>spm_status := (spm_status x)\<lparr>Conditions := SetStatusCondition (lib E)
     (Conditions (spm_status x)) (cleanup_incomplete x n e)\<rparr>\<rparr>)"
  unfolding noted_def by (intro exI [of _ "cleanup_incomplete x n e"]) (simp add: cleanup_incomplete_def)

lemma reconcileDelete_writes: "emits (status_writes (noted E x)) (reconcileDelete E rc x)"
proof -
  have "emits (status_writes (noted E x)) (detach_upstream E rc x)"
    by (rule emits_mono [OF detach_upstream_emits]) auto
  then show ?thesis
    unfolding reconcileDelete_def surrender_def
    by (intro effect_rules) (auto intro: noted_cleanup)
qed

lemma reconcile_writes: "emits (status_writes (\<lambda>y. issued E x y \<or> noted E x y)) (reconcile_spm E rc x)"
proof -
  let ?P = "status_writes (\<lambda>y. issued E x y \<or> noted E x y)"
  have "emits ?P (cancel_expired E rc i)" "emits ?P (ensurePaymentMethodAwaiting E x)" for i
    unfolding cancel_expired_def
    by (intro effect_rules emits_mono [OF CancelSetupIntent_emits] emits_mono [OF ensurePaymentMethodAwaiting_emits];
        auto)+
  moreover have "emits ?P (reconcileDelete E rc x)" by (rule emits_mono [OF reconcileDelete_writes]) simp
  moreover have "emits ?P (reconcileSetupIntent E rc x)"
    if "\<not> (Phase (spm_status x) = Active \<or> Phase (spm_status x) = Failed)"
    using that by (intro emits_mono [OF reconcileSetupIntent_writes]) simp_all
  ultimately show ?thesis unfolding reconcile_spm_def by (intro effect_rules) simp_all
qed

section \<open>Facts: the webhook's writes\<close>

definition confirmed :: "'w env \<Rightarrow> spm \<Rightarrow> spm \<Rightarrow> bool" where
  "confirmed E x y \<longleftrightarrow> (\<exists>si d now. spm_status y = success_status (lib E) x si (payment_method_details_of d) now)"

definition declined :: "'w env \<Rightarrow> spm \<Rightarrow> spm \<Rightarrow> bool" where
  "declined E x y \<longleftrightarrow> (\<exists>si. spm_status y = failure_status (lib E) x si)"

lemma record_success_writes:
  "emits (status_writes (confirmed E x)) (record_success E wh x si (payment_method_details_of d))"
  unfolding record_success_def patchStripeSuccess_def
  by (intro effect_rules emits_mono [OF projectOnto_emits]) (auto simp: confirmed_def)

lemma confirm_writes: "emits (status_writes (confirmed E x)) (confirm_with_stripe E wh x si)"
proof -
  have "emits (status_writes (confirmed E x)) (record_success E wh x si pm)"
    if "run_state (RetrievePaymentMethod S i) s = (d, s')" "d = Inr pm" for S i s d s' pm
    using that record_success_writes
    by (auto simp: RetrievePaymentMethod_def split: prod.splits sum.splits)
  moreover have "emits (status_writes (confirmed E x)) (RetrievePaymentMethod S i)" for S i
    unfolding RetrievePaymentMethod_def by (intro effect_rules)
  moreover have "emits (status_writes (confirmed E x)) (if b then BackfillCustomerName S c n else ret None)" for b S c n
    by (intro effect_rules emits_mono [OF BackfillCustomerName_emits]) auto
  ultimately show ?thesis
    unfolding confirm_with_stripe_def
    by (intro emits_bind_run ResolveConfig_emits emits_sum emits_ret emits_Let)
qed

lemma record_setup_failure_writes: "emits (status_writes (declined E x)) (record_setup_failure E wh x si)"
  unfolding record_setup_failure_def patchStripeFailure_def
  by (intro effect_rules emits_mono [OF projectFailure_emits]) (auto simp: declined_def)

lemma dispatch_writes:
  assumes "decodeSetupIntent (os E) ev = Inr si"
    and find: "run_state (findStripePaymentMethod (kube E) si) s = (Inr (Some x), t)"
    and "SPMStatusPatch y ok \<in> set (effects (dispatch E wh ev) s)"
  shows "confirmed E x y \<or> declined E x y"
proof -
  have tr: "trace t = trace s" by (rule emits_none [OF findStripePaymentMethod_emits find])
  have "effects (dispatch E wh ev) s = effects (confirm_with_stripe E wh x si) t \<or>
    effects (dispatch E wh ev) s = effects (record_setup_failure E wh x si) t \<or>
    effects (dispatch E wh ev) s = []"
    using assms(1) find
    by (simp add: dispatch_def handleSetupIntentSucceeded_def handleSetupIntentFailed_def
        with_resource_def effects_def tr split: prod.split)
  with assms(3) emitsD [OF confirm_writes] emitsD [OF record_setup_failure_writes] show ?thesis by fastforce
qed

lemma writes_cases:
  assumes "writes E rc wh a x y"
  obtains (issued) "a = Reconciler" "issued E x y" | (noted) "a = Reconciler" "noted E x y"
    | (confirmed) "a = StripeEvent" "confirmed E x y" | (declined) "a = StripeEvent" "declined E x y"
  using assms
proof (cases rule: writes.cases)
  case (reconcile req s w)
  from emitsD [OF reconcile_writes this(3) [unfolded Reconcile_read [OF this(2)]]] reconcile(1)
  show thesis using issued noted by blast
next
  case (event ev si s t)
  from dispatch_writes [OF event(2-4)] event(1) show thesis using confirmed declined by blast
qed

section \<open>Facts: the states written\<close>

lemma has_condition_set:
  "conditions_ok L \<Longrightarrow> has_condition (SetStatusCondition L cs c) t v \<longleftrightarrow>
     (if t = c_Type c then c_Status c = v else has_condition cs t v)"
  by (simp add: has_condition_def find_SetStatusCondition)

lemma int32_bounds [simp]: "is_int32 (int32_of i)" "is_int32 0"
  using int32_of_bounds by (simp_all add: is_int32_def)

lemma retrieved_int32:
  "is_int32 (pmd_ExpMonth (payment_method_details_of d)) \<and> is_int32 (pmd_ExpYear (payment_method_details_of d))"
  by (simp add: payment_method_details_of_def Let_def split: option.split)

lemma awaiting_wf:
  assumes "conditions_ok (lib E)" and "c \<noteq> ''''" and "status_wf (spm_status x)"
  shows "status_wf (awaiting_status E x c si t taxErr)"
  using assms
  by (simp add: status_wf_def phase_wf_def awaiting_status_def Let_def has_condition_set
      setup_intent_condition_def StripeCustomerConditionTaxIDsApplied_def)

lemma noted_wf:
  assumes "conditions_ok (lib E)" and "noted E x y" and "status_wf (spm_status x)"
  shows "status_wf (spm_status y)"
  using assms
  by (cases "Phase (spm_status x)")
    (auto simp: noted_def status_wf_def phase_wf_def has_condition_set)

lemma success_wf:
  assumes "conditions_ok L" and "status_wf (spm_status x)"
  shows "status_wf (success_status L x si (payment_method_details_of d) now)"
  using assms
  by (simp add: status_wf_def phase_wf_def success_status_def Let_def has_condition_set
      confirmed_condition_def instrument_wf_def card_of_details_def retrieved_int32)

lemma failure_wf:
  assumes "conditions_ok L" and "status_wf (spm_status x)"
  shows "status_wf (failure_status L x si)"
  using assms
  by (simp add: status_wf_def phase_wf_def failure_status_def Let_def has_condition_set
      confirmed_condition_def split: option.split)

lemma written_wf:
  assumes "conditions_ok (lib E)" and "writes E rc wh a x y" and "status_wf (spm_status x)"
  shows "status_wf (spm_status y)"
  using assms(2)
proof (cases rule: writes_cases)
  case issued
  then show ?thesis using awaiting_wf [OF assms(1) _ assms(3)] by (auto simp: issued_def)
next
  case noted
  then show ?thesis using noted_wf [OF assms(1) _ assms(3)] by blast
next
  case confirmed
  then show ?thesis using success_wf [OF assms(1,3)] by (auto simp: confirmed_def)
next
  case declined
  then show ?thesis using failure_wf [OF assms(1,3)] by (auto simp: declined_def)
qed

section \<open>Properties\<close>

text \<open>
  C15 (refinement): the phases are the state machine they promise: every status that the reconciler or
  the webhook writes to the resource it read is a step of it. Only the reconciler issues a SetupIntent,
  and never for a resource that is Active or Failed; only an event of Stripe makes one Active or Failed;
  nothing returns to the initial phase.
\<close>

theorem writes_refine_phases:
  assumes "writes E rc wh a x y"
  shows "phase_step a (Phase (spm_status x)) (Phase (spm_status y))"
  using assms
proof (cases rule: writes_cases)
  case issued
  then show ?thesis by (auto simp: issued_def awaiting_status_def Let_def intro: phase_step.issue)
next
  case noted
  then show ?thesis by (auto simp: noted_def intro: phase_step.note_cleanup)
next
  case confirmed
  then show ?thesis by (auto simp: confirmed_def success_status_def Let_def intro: phase_step.confirm)
next
  case declined
  then show ?thesis
    by (auto simp: declined_def failure_status_def Let_def intro: phase_step.decline split: option.split)
qed

section \<open>Witnesses\<close>

definition declined_event :: stripe_event where
  "declined_event = sample_event\<lparr>ev_Type := ''setup_intent.setup_failed''\<rparr>"

definition new_spm :: spm where
  "new_spm = live_spm empty_spm_status"

abbreviation new_env :: "unit env" where
  "new_env \<equiv> event_env declined_payload new_spm"

lemma new_env_conditions: "conditions_ok (lib new_env)"
  by (simp add: event_env_def owned_env_def sample_env_def sample_lib_conditions)

lemma declined_write:
  "writes new_env rc sample_wh StripeEvent new_spm
     (new_spm\<lparr>spm_status := failure_status (lib new_env) new_spm declined_payload\<rparr>)"
proof -
  let ?y = "new_spm\<lparr>spm_status := failure_status (lib new_env) new_spm declined_payload\<rparr>"
  have decode: "decodeSetupIntent (os new_env) declined_event = Inr declined_payload"
    by (simp add: decodeSetupIntent_def event_env_def sample_event_def declined_event_def
        declined_payload_def)
  have kind: "ev_Type declined_event = ''setup_intent.setup_failed''" by (simp add: declined_event_def)
  have find: "run_state (findStripePaymentMethod (kube new_env) declined_payload) (st0 ()) =
      (Inr (Some new_spm), st0 ())"
    by (simp add: findStripePaymentMethod_def metadata_value_def declined_payload_def event_env_def
        answer_def st0_def)
  have patch: "patch_spm_status (kube new_env) x y w = (Inr y, w)" for x y w
    by (simp add: event_env_def owned_env_def sample_kube_def answer_def)
  have "run_state (patchStripeFailure new_env new_spm declined_payload) (st0 ()) =
      (Inr ?y, (st0 ())\<lparr>trace := [SPMStatusPatch ?y True]\<rparr>)"
    by (simp add: patchStripeFailure_def patch Let_def st0_def)
  then have "effects (record_setup_failure new_env sample_wh new_spm declined_payload) (st0 ()) =
      SPMStatusPatch ?y True # effects (projectFailureOntoPaymentMethod new_env sample_wh ?y declined_payload)
        ((st0 ())\<lparr>trace := [SPMStatusPatch ?y True]\<rparr>)"
    using emits_trace [OF projectFailure_emits, of new_env sample_wh ?y declined_payload
        "(st0 ())\<lparr>trace := [SPMStatusPatch ?y True]\<rparr>"]
    by (intro effects_eqI) (simp add: record_setup_failure_def st0_def)
  moreover have "effects (dispatch new_env sample_wh declined_event) (st0 ()) =
      effects (record_setup_failure new_env sample_wh new_spm declined_payload) (st0 ())"
    by (simp add: dispatch_def handleSetupIntentFailed_def with_resource_def decode find effects_def
        kind split: prod.split)
  ultimately have "SPMStatusPatch ?y True \<in> set (effects (dispatch new_env sample_wh declined_event) (st0 ()))"
    by simp
  with decode find show ?thesis by (rule writes.event)
qed

theorem writes_refine_phases_witness: "phase_step StripeEvent PhaseUnset Failed"
  using writes_refine_phases [OF declined_write]
  by (simp add: new_spm_def live_spm_def empty_spm_status_def failure_status_def Let_def
      declined_payload_def split: option.splits)

end
