(* ===== verification/StaleWrites.thy ===== *)
theory StaleWrites
  imports Lifecycle
begin

text \<open>
  The reconciler and the webhook write one status without excluding each other: each reads the
  resource, the reconciler from a cache, talks to Stripe, and sends a patch, which the API server
  applies to the status it has by then. A patch is a JSON merge patch, the difference of the object as
  read and as changed (\<open>client.MergeFrom\<close>), without the check of the version that would refuse an
  outdated one. \<open>history\<close> has all interleavings of such writes, with reads as old as one likes. What
  the API server stores is a parameter \<open>mg base new current\<close> with the rules of RFC 7386 on the
  fields of the status (\<open>api/v1alpha1/stripepaymentmethod_types.go\<close>; all are left out of the JSON when
  empty).
\<close>

section \<open>Merge patches\<close>

definition merged_field :: "'a \<Rightarrow> 'a \<Rightarrow> 'a \<Rightarrow> 'a" where
  "merged_field x y c = (if x = y then c else y)"

definition merged_setup_intent ::
  "setup_intent_status option \<Rightarrow> setup_intent_status option \<Rightarrow> setup_intent_status option \<Rightarrow> setup_intent_status option" where
  "merged_setup_intent x y c =
     (if x = y then c
      else case y of None \<Rightarrow> None
      | Some y \<Rightarrow>
          (let x = (case x of None \<Rightarrow> empty_setup_intent | Some x \<Rightarrow> x);
               c = (case c of None \<Rightarrow> empty_setup_intent | Some c \<Rightarrow> c)
           in Some \<lparr>si_ID = merged_field (si_ID x) (si_ID y) (si_ID c),
                si_ClientSecret = merged_field (si_ClientSecret x) (si_ClientSecret y) (si_ClientSecret c),
                si_Status = merged_field (si_Status x) (si_Status y) (si_Status c),
                si_ExpiresAt = merged_field (si_ExpiresAt x) (si_ExpiresAt y) (si_ExpiresAt c)\<rparr>))"

type_synonym merge = "spm_status \<Rightarrow> spm_status \<Rightarrow> spm_status \<Rightarrow> spm_status"

text \<open>Nothing is said of an instrument that changed: it is merged field by field, too.\<close>

definition merge_patch_ok :: "merge \<Rightarrow> bool" where
  "merge_patch_ok mg \<longleftrightarrow> (\<forall>x y c.
     Phase (mg x y c) = merged_field (Phase x) (Phase y) (Phase c) \<and>
     StripeCustomerID (mg x y c) = merged_field (StripeCustomerID x) (StripeCustomerID y) (StripeCustomerID c) \<and>
     StripePaymentMethodID (mg x y c) =
       merged_field (StripePaymentMethodID x) (StripePaymentMethodID y) (StripePaymentMethodID c) \<and>
     SetupIntent (mg x y c) = merged_setup_intent (SetupIntent x) (SetupIntent y) (SetupIntent c) \<and>
     ConfirmedAt (mg x y c) = merged_field (ConfirmedAt x) (ConfirmedAt y) (ConfirmedAt c) \<and>
     (Instrument x = Instrument y \<longrightarrow> Instrument (mg x y c) = Instrument c) \<and>
     FailureReason (mg x y c) = merged_field (FailureReason x) (FailureReason y) (FailureReason c) \<and>
     FailureMessage (mg x y c) = merged_field (FailureMessage x) (FailureMessage y) (FailureMessage c) \<and>
     Conditions (mg x y c) = merged_field (Conditions x) (Conditions y) (Conditions c) \<and>
     ObservedGeneration (mg x y c) =
       merged_field (ObservedGeneration x) (ObservedGeneration y) (ObservedGeneration c) \<and>
     mg x y x = y)"

lemma merge_fields:
  assumes "merge_patch_ok mg"
  shows "Phase (mg x y c) = merged_field (Phase x) (Phase y) (Phase c)"
    and "StripeCustomerID (mg x y c) = merged_field (StripeCustomerID x) (StripeCustomerID y) (StripeCustomerID c)"
    and "StripePaymentMethodID (mg x y c) =
       merged_field (StripePaymentMethodID x) (StripePaymentMethodID y) (StripePaymentMethodID c)"
    and "SetupIntent (mg x y c) = merged_setup_intent (SetupIntent x) (SetupIntent y) (SetupIntent c)"
    and "ConfirmedAt (mg x y c) = merged_field (ConfirmedAt x) (ConfirmedAt y) (ConfirmedAt c)"
    and "Instrument x = Instrument y \<Longrightarrow> Instrument (mg x y c) = Instrument c"
    and "FailureReason (mg x y c) = merged_field (FailureReason x) (FailureReason y) (FailureReason c)"
    and "FailureMessage (mg x y c) = merged_field (FailureMessage x) (FailureMessage y) (FailureMessage c)"
    and "Conditions (mg x y c) = merged_field (Conditions x) (Conditions y) (Conditions c)"
    and "ObservedGeneration (mg x y c) =
       merged_field (ObservedGeneration x) (ObservedGeneration y) (ObservedGeneration c)"
    and "mg x y x = y"
  using assms unfolding merge_patch_ok_def by blast+

section \<open>All interleavings\<close>

text \<open>The statuses the API server has had, the last first; a write starts from any of them.\<close>

inductive history :: "merge \<Rightarrow> 'w env \<Rightarrow> spm_reconciler \<Rightarrow> webhook \<Rightarrow> spm_status list \<Rightarrow> bool" for mg E rc wh where
  created: "history mg E rc wh [empty_spm_status]"
| lands: "history mg E rc wh (c # cs) \<Longrightarrow> spm_status x \<in> set (c # cs) \<Longrightarrow> writes E rc wh a x y \<Longrightarrow>
    history mg E rc wh (mg (spm_status x) (spm_status y) c # c # cs)"

inductive_cases historyE: "history mg E rc wh cs"

text \<open>A write from the current status lands as it is.\<close>

lemma current_write: "merge_patch_ok mg \<Longrightarrow> mg (spm_status x) (spm_status y) (spm_status x) = spm_status y"
  by (rule merge_fields(11))

section \<open>Facts: the fields of a written status\<close>

lemma success_fields:
  "Phase (success_status L x si pm now) = Active"
  "StripeCustomerID (success_status L x si pm now) = StripeCustomerID (spm_status x)"
  "StripePaymentMethodID (success_status L x si pm now) = pmd_ID pm"
  "ConfirmedAt (success_status L x si pm now) = Some now"
  "SetupIntent (success_status L x si pm now) = Some ((setup_intent_or_empty (spm_status x))\<lparr>si_ID := sp_ID si,
     si_Status := sp_Status si, si_ClientSecret := ''''\<rparr>)"
  "ObservedGeneration (success_status L x si pm now) = ObservedGeneration (spm_status x)"
  by (simp_all add: success_status_def Let_def setup_intent_or_empty_def)

lemma failure_fields:
  "Phase (failure_status L x si) = Failed"
  "StripeCustomerID (failure_status L x si) = StripeCustomerID (spm_status x)"
  "ConfirmedAt (failure_status L x si) = ConfirmedAt (spm_status x)"
  "SetupIntent (failure_status L x si) = Some ((setup_intent_or_empty (spm_status x))\<lparr>si_ID := sp_ID si,
     si_Status := sp_Status si\<rparr>)"
  "ObservedGeneration (failure_status L x si) = ObservedGeneration (spm_status x)"
  by (simp_all add: failure_status_def Let_def setup_intent_or_empty_def split: option.split)

lemma awaiting_fields:
  "Phase (awaiting_status E x c si t taxErr) = AwaitingConfirmation"
  "StripeCustomerID (awaiting_status E x c si t taxErr) = c"
  "StripePaymentMethodID (awaiting_status E x c si t taxErr) = StripePaymentMethodID (spm_status x)"
  "SetupIntent (awaiting_status E x c si t taxErr) = Some \<lparr>si_ID = sir_ID si, si_ClientSecret = sir_ClientSecret si,
     si_Status = sir_Status si, si_ExpiresAt = Some t\<rparr>"
  "ConfirmedAt (awaiting_status E x c si t taxErr) = ConfirmedAt (spm_status x)"
  "Instrument (awaiting_status E x c si t taxErr) = Instrument (spm_status x)"
  "FailureReason (awaiting_status E x c si t taxErr) = FailureReason (spm_status x)"
  "FailureMessage (awaiting_status E x c si t taxErr) = FailureMessage (spm_status x)"
  by (simp_all add: awaiting_status_def Let_def)

lemmas written_fields = success_fields failure_fields awaiting_fields

section \<open>Facts: what a stale write keeps\<close>

text \<open>The reconciler leaves alone what events record, and a phase unless it read the resource before its first SetupIntent.\<close>

lemma stale_reconcile:
  assumes "merge_patch_ok mg" and "writes E rc wh Reconciler x y" and z: "z = mg (spm_status x) (spm_status y) c"
  shows "StripePaymentMethodID z = StripePaymentMethodID c" and "ConfirmedAt z = ConfirmedAt c"
    and "Instrument z = Instrument c" and "FailureReason z = FailureReason c"
    and "FailureMessage z = FailureMessage c"
    and "Phase (spm_status x) = AwaitingConfirmation \<Longrightarrow> Phase z = Phase c"
  using assms(2) unfolding z
  by (cases rule: writes_cases;
      auto simp: merge_fields [OF assms(1)] merged_field_def issued_def noted_def written_fields)+

text \<open>An event leaves alone the customer and the generation that the reconciler records.\<close>

lemma stale_event:
  assumes "merge_patch_ok mg" and "writes E rc wh StripeEvent x y" and z: "z = mg (spm_status x) (spm_status y) c"
  shows "StripeCustomerID z = StripeCustomerID c" and "ObservedGeneration z = ObservedGeneration c"
  using assms(2) unfolding z
  by (cases rule: writes_cases;
      auto simp: merge_fields [OF assms(1)] merged_field_def confirmed_def declined_def written_fields)+

text \<open>What no write takes back.\<close>

definition reached :: "spm_status \<Rightarrow> spm_status \<Rightarrow> bool" where
  "reached d c \<longleftrightarrow> (Phase d \<noteq> PhaseUnset \<longrightarrow> Phase c \<noteq> PhaseUnset) \<and>
     (StripeCustomerID d \<noteq> '''' \<longrightarrow> StripeCustomerID c \<noteq> '''') \<and>
     (SetupIntent d \<noteq> None \<longrightarrow> SetupIntent c \<noteq> None) \<and>
     (ConfirmedAt d \<noteq> None \<longrightarrow> ConfirmedAt c \<noteq> None)"

lemma reached_trans: "reached d c \<Longrightarrow> reached c z \<Longrightarrow> reached d z"
  by (auto simp: reached_def)

lemma reached_refl: "reached c c"
  by (simp add: reached_def)

lemma write_reaches:
  assumes "merge_patch_ok mg" and "writes E rc wh a x y"
  shows "reached c (mg (spm_status x) (spm_status y) c)"
  using assms(2)
proof (cases rule: writes_cases)
  case issued
  then show ?thesis
    by (auto simp: reached_def merge_fields [OF assms(1)] merged_field_def merged_setup_intent_def Let_def
        issued_def written_fields)
next
  case noted
  then show ?thesis
    by (auto simp: reached_def merge_fields [OF assms(1)] merged_field_def merged_setup_intent_def noted_def)
next
  case confirmed
  then show ?thesis
    by (auto simp: reached_def merge_fields [OF assms(1)] merged_field_def merged_setup_intent_def Let_def
        confirmed_def written_fields)
next
  case declined
  then show ?thesis
    by (auto simp: reached_def merge_fields [OF assms(1)] merged_field_def merged_setup_intent_def Let_def
        declined_def written_fields)
qed

text \<open>However old what a write started from, what any earlier status had reached is there in the last one.\<close>

lemma history_reached:
  assumes "merge_patch_ok mg" and "history mg E rc wh (c # cs)" and "d \<in> set (c # cs)"
  shows "reached d c"
proof -
  have "reached d (hd hs)" if "history mg E rc wh hs" "d \<in> set hs" for hs
    using that
  proof (induction rule: history.induct)
    case (lands b bs x a y)
    with write_reaches [OF assms(1) lands.hyps(3), of b] reached_refl reached_trans show ?case by fastforce
  qed (simp add: reached_refl)
  from this [OF assms(2,3)] show ?thesis by simp
qed

section \<open>Facts: what every stored status says\<close>

definition condition_types :: "string set" where
  "condition_types = {''SetupIntentReady'', StripeCustomerConditionTaxIDsApplied, ''Confirmed'', ''CleanupIncomplete''}"

text \<open>
  What holds of a status however its writes overlapped: each phase with what it cannot do without, a time
  of confirmation for whatever a confirmation records, and no condition of a foreign type.
\<close>

definition phase_consistent :: "spm_status \<Rightarrow> bool" where
  "phase_consistent st \<longleftrightarrow>
     (case Phase st of
        PhaseUnset \<Rightarrow> st = empty_spm_status\<lparr>Conditions := Conditions st\<rparr>
      | Initializing \<Rightarrow> False
      | AwaitingConfirmation \<Rightarrow> StripeCustomerID st \<noteq> '''' \<and> (\<exists>i. SetupIntent st = Some i \<and> si_ExpiresAt i \<noteq> None)
      | Active \<Rightarrow> ConfirmedAt st \<noteq> None \<and> SetupIntent st \<noteq> None
      | Failed \<Rightarrow> SetupIntent st \<noteq> None)"

definition confirmation_consistent :: "spm_status \<Rightarrow> bool" where
  "confirmation_consistent st \<longleftrightarrow>
     (Instrument st \<noteq> None \<or> StripePaymentMethodID st \<noteq> '''' \<longrightarrow> ConfirmedAt st \<noteq> None) \<and>
     (ConfirmedAt st \<noteq> None \<or> FailureReason st \<noteq> '''' \<or> FailureMessage st \<noteq> '''' \<longrightarrow> SetupIntent st \<noteq> None)"

definition conditions_known :: "spm_status \<Rightarrow> bool" where
  "conditions_known st \<longleftrightarrow> (\<forall>t. t \<notin> condition_types \<longrightarrow> find_condition (Conditions st) t = None)"

definition stored_ok :: "spm_status \<Rightarrow> bool" where
  "stored_ok st \<longleftrightarrow> phase_consistent st \<and> confirmation_consistent st \<and> conditions_known st"

lemma written_conditions:
  assumes "conditions_ok (lib E)" and "writes E rc wh a x y" and "conditions_known (spm_status x)"
  shows "conditions_known (spm_status y)"
  using assms(2)
proof (cases rule: writes_cases)
  case issued
  with assms(1,3) show ?thesis
    by (auto simp: conditions_known_def condition_types_def issued_def awaiting_status_def Let_def
        find_SetStatusCondition setup_intent_condition_def tax_ids_condition_def split: option.split)
next
  case noted
  with assms(1,3) show ?thesis
    by (auto simp: conditions_known_def condition_types_def noted_def find_SetStatusCondition)
next
  case confirmed
  with assms(1,3) show ?thesis
    by (auto simp: conditions_known_def condition_types_def confirmed_def success_status_def Let_def
        find_SetStatusCondition confirmed_condition_def)
next
  case declined
  with assms(1,3) show ?thesis
    by (auto simp: conditions_known_def condition_types_def declined_def failure_status_def Let_def
        find_SetStatusCondition confirmed_condition_def split: option.split)
qed

lemma merged_conditions:
  "merge_patch_ok mg \<Longrightarrow> conditions_known y \<Longrightarrow> conditions_known c \<Longrightarrow> conditions_known (mg x y c)"
  by (simp add: conditions_known_def merge_fields merged_field_def)

text \<open>An expiry, once there, stays.\<close>

definition expires :: "spm_status \<Rightarrow> bool" where
  "expires st \<longleftrightarrow> (\<exists>i. SetupIntent st = Some i \<and> si_ExpiresAt i \<noteq> None)"

lemma write_expires:
  assumes "merge_patch_ok mg" and "writes E rc wh a x y" and "expires c"
  shows "expires (mg (spm_status x) (spm_status y) c)"
  using assms(2)
proof (cases rule: writes_cases)
  case issued
  with assms(3) show ?thesis
    by (auto simp: expires_def merge_fields [OF assms(1)] merged_field_def merged_setup_intent_def Let_def
        issued_def written_fields)
next
  case noted
  with assms(3) show ?thesis
    by (auto simp: expires_def merge_fields [OF assms(1)] merged_setup_intent_def noted_def)
next
  case confirmed
  with assms(3) show ?thesis
    by (auto simp: expires_def merge_fields [OF assms(1)] merged_field_def merged_setup_intent_def Let_def
        confirmed_def written_fields setup_intent_or_empty_def split: option.split)
next
  case declined
  with assms(3) show ?thesis
    by (auto simp: expires_def merge_fields [OF assms(1)] merged_field_def merged_setup_intent_def Let_def
        declined_def written_fields setup_intent_or_empty_def split: option.split)
qed

text \<open>A phase that stays keeps what it needs.\<close>

lemma same_phase_consistent:
  assumes "phase_consistent c" and "reached c z" and "expires c \<Longrightarrow> expires z"
    and "Phase z = Phase c" and "Phase c \<noteq> PhaseUnset"
  shows "phase_consistent z"
  using assms by (cases "Phase c") (auto simp: phase_consistent_def reached_def expires_def)

lemma phase_consistent_conditions: "phase_consistent c \<Longrightarrow> phase_consistent (c\<lparr>Conditions := cs\<rparr>)"
  by (cases c) (simp add: phase_consistent_def empty_spm_status_def split: spm_phase.splits)

lemma unset_phase_empty:
  "phase_consistent c \<Longrightarrow> Phase c = PhaseUnset \<Longrightarrow> SetupIntent c = None \<and> StripeCustomerID c = ''''"
  by (cases c) (simp add: phase_consistent_def empty_spm_status_def)

lemma write_phase_consistent:
  assumes mg: "merge_patch_ok mg" and w: "writes E rc wh a x y" and x: "phase_consistent (spm_status x)"
    and c: "phase_consistent c" and xc: "reached (spm_status x) c"
  shows "phase_consistent (mg (spm_status x) (spm_status y) c)"
proof -
  let ?z = "mg (spm_status x) (spm_status y) c"
  have same: "phase_consistent ?z" if "Phase ?z = Phase c" "Phase c \<noteq> PhaseUnset"
    using same_phase_consistent [OF c write_reaches [OF mg w] _ that] write_expires [OF mg w] by blast
  from w show ?thesis
  proof (cases rule: writes_cases)
    case issued
    then obtain cu si t u where y: "cu \<noteq> ''''" "spm_status y = awaiting_status E x cu si t u"
      and open_phase: "Phase (spm_status x) \<noteq> Active" "Phase (spm_status x) \<noteq> Failed" by (auto simp: issued_def)
    show ?thesis
    proof (cases "Phase (spm_status x) = PhaseUnset")
      case True
      note unset_phase_empty [OF x True]
      with True y show ?thesis
        by (auto simp: phase_consistent_def merge_fields [OF mg] merged_field_def merged_setup_intent_def
            written_fields empty_setup_intent_def Let_def)
    next
      case False
      with x open_phase have "Phase (spm_status x) = AwaitingConfirmation"
        by (cases "Phase (spm_status x)") (simp_all add: phase_consistent_def)
      with y have "Phase ?z = Phase c" by (simp add: merge_fields [OF mg] merged_field_def written_fields)
      moreover have "Phase c \<noteq> PhaseUnset" using xc False by (simp add: reached_def)
      ultimately show ?thesis by (rule same)
    qed
  next
    case noted
    then obtain cs where y: "spm_status y = (spm_status x)\<lparr>Conditions := cs\<rparr>" by (auto simp: noted_def)
    have "?z = c\<lparr>Conditions := Conditions ?z\<rparr>"
      by (simp add: y merge_fields [OF mg] merged_field_def merged_setup_intent_def spm_status.equality)
    with c show ?thesis by (metis phase_consistent_conditions)
  next
    case confirmed
    then obtain si d now where y: "spm_status y = success_status (lib E) x si (payment_method_details_of d) now"
      by (auto simp: confirmed_def)
    show ?thesis
    proof (cases "Phase (spm_status x) = Active")
      case True
      with y xc show ?thesis by (intro same) (auto simp: merge_fields [OF mg] merged_field_def written_fields reached_def)
    next
      case False
      with y xc show ?thesis
        by (auto simp: phase_consistent_def merge_fields [OF mg] merged_field_def merged_setup_intent_def
            written_fields reached_def Let_def)
    qed
  next
    case declined
    then obtain si where y: "spm_status y = failure_status (lib E) x si" by (auto simp: declined_def)
    show ?thesis
    proof (cases "Phase (spm_status x) = Failed")
      case True
      with y xc show ?thesis by (intro same) (auto simp: merge_fields [OF mg] merged_field_def written_fields reached_def)
    next
      case False
      with y xc show ?thesis
        by (auto simp: phase_consistent_def merge_fields [OF mg] merged_field_def merged_setup_intent_def
            written_fields reached_def Let_def)
    qed
  qed
qed

lemma write_confirmation_consistent:
  assumes mg: "merge_patch_ok mg" and w: "writes E rc wh a x y" and c: "confirmation_consistent c"
    and xc: "reached (spm_status x) c"
  shows "confirmation_consistent (mg (spm_status x) (spm_status y) c)"
  using w
proof (cases rule: writes_cases)
  case issued
  then show ?thesis using c stale_reconcile [OF mg w [unfolded issued(1)] refl, of c] write_reaches [OF mg w, of c]
    by (auto simp: confirmation_consistent_def reached_def)
next
  case noted
  then show ?thesis using c stale_reconcile [OF mg w [unfolded noted(1)] refl, of c] write_reaches [OF mg w, of c]
    by (auto simp: confirmation_consistent_def reached_def)
next
  case confirmed
  then have "ConfirmedAt (mg (spm_status x) (spm_status y) c) \<noteq> None"
    using xc by (auto simp: confirmed_def merge_fields [OF mg] merged_field_def written_fields reached_def)
  moreover from confirmed have "SetupIntent (mg (spm_status x) (spm_status y) c) \<noteq> None"
    using xc by (auto simp: confirmed_def merge_fields [OF mg] merged_setup_intent_def written_fields reached_def Let_def)
  ultimately show ?thesis by (simp add: confirmation_consistent_def)
next
  case declined
  then obtain si where y: "spm_status y = failure_status (lib E) x si" by (auto simp: declined_def)
  have "SetupIntent (mg (spm_status x) (spm_status y) c) \<noteq> None"
    using xc by (auto simp: y merge_fields [OF mg] merged_setup_intent_def written_fields reached_def Let_def)
  moreover have "Instrument (spm_status y) = Instrument (spm_status x)"
    "StripePaymentMethodID (spm_status y) = StripePaymentMethodID (spm_status x)"
    by (simp_all add: y failure_status_def Let_def split: option.split)
  ultimately show ?thesis
    using c by (simp add: confirmation_consistent_def merge_fields [OF mg] merged_field_def y written_fields)
qed

lemma history_stored_ok:
  assumes mg: "merge_patch_ok mg" and "conditions_ok (lib E)"
  shows "history mg E rc wh cs \<Longrightarrow> st \<in> set cs \<Longrightarrow> stored_ok st"
proof (induction arbitrary: st rule: history.induct)
  case created
  then show ?case
    by (simp add: stored_ok_def phase_consistent_def confirmation_consistent_def conditions_known_def
        empty_spm_status_def find_condition_def)
next
  case (lands c cs x a y)
  have x: "stored_ok (spm_status x)" and c: "stored_ok c" using lands.IH lands.hyps(2) by simp_all
  have xc: "reached (spm_status x) c" by (rule history_reached [OF mg lands.hyps(1,2)])
  have "stored_ok (mg (spm_status x) (spm_status y) c)"
    using x c write_phase_consistent [OF mg lands.hyps(3) _ _ xc] write_confirmation_consistent [OF mg lands.hyps(3) _ xc]
      merged_conditions [OF mg written_conditions [OF assms(2) lands.hyps(3)]]
    by (simp add: stored_ok_def)
  with lands.IH lands.prems show ?case by auto
qed

section \<open>Properties\<close>

text \<open>
  C16 (type): what every stored status is like, in every interleaving of the writes of the reconciler and
  the webhook, however old what they read and whatever the calls answer. Before its first SetupIntent a resource
  has nothing but conditions; while it awaits confirmation it has a customer and a SetupIntent with an
  expiry; Active, it has a time of confirmation and a SetupIntent; Failed, a SetupIntent; the
  phase Initializing is never stored. An instrument or a payment method is recorded only with a time of confirmation, that and a failure
  only with a SetupIntent, and no condition is of any but the four types. Moreover a write that starts from
  what is stored, with no other in between, leaves a status that is well-formed in full, if it was so
  before: with the condition that belongs to the phase, the client secret of an Active one gone, and a
  card whose expiry fits the 32-bit fields of the schema. (Overlapping writes may lose these.)
\<close>

theorem statuses_well_formed:
  assumes "merge_patch_ok mg" and "conditions_ok (lib E)" and "history mg E rc wh (c # cs)"
  shows "phase_consistent c \<and> confirmation_consistent c \<and> conditions_known c \<and>
    (\<forall>a x y. spm_status x = c \<and> writes E rc wh a x y \<and> status_wf c \<longrightarrow>
       status_wf (mg (spm_status x) (spm_status y) c))"
proof -
  have "stored_ok c" using history_stored_ok [OF assms] by simp
  moreover have "status_wf (mg (spm_status x) (spm_status y) c)"
    if "spm_status x = c" "writes E rc wh a x y" "status_wf c" for a x y
    using that written_wf [OF assms(2) that(2)] current_write [OF assms(1), of x y] by simp
  ultimately show ?thesis unfolding stored_ok_def by blast
qed

text \<open>
  C17 (invariant): in every interleaving of the writes of the reconciler and the webhook, however old what
  they read, nothing a status has reached is lost: a resource that has left its initial phase does not
  return to it, and once it has a customer, a SetupIntent or a time of confirmation it has one in every
  later status.
\<close>

theorem progress_survives_stale_writes:
  assumes "merge_patch_ok mg" and "history mg E rc wh (c # cs)" and "d \<in> set cs"
  shows "(Phase d \<noteq> PhaseUnset \<longrightarrow> Phase c \<noteq> PhaseUnset) \<and>
     (StripeCustomerID d \<noteq> '''' \<longrightarrow> StripeCustomerID c \<noteq> '''') \<and>
     (SetupIntent d \<noteq> None \<longrightarrow> SetupIntent c \<noteq> None) \<and>
     (ConfirmedAt d \<noteq> None \<longrightarrow> ConfirmedAt c \<noteq> None)"
  using history_reached [OF assms(1,2), of d] assms(3) by (simp add: reached_def)

text \<open>
  C35 (safety): overlapping writes mix: when the user confirms a SetupIntent while the reconciler, having read the
  resource before, replaces it by a new one, the stored status is Active but carries the new
  SetupIntent with its client secret, and the conditions of the reconciler's reading, without the
  confirmation; no patch is refused, as neither carries the version that was read.
\<close>

theorem overlapping_writes_mix:
  assumes "merge_patch_ok mg" and "conditions_ok (lib E)"
    and "Phase (spm_status x) = AwaitingConfirmation" and "SetupIntent (spm_status x) = Some old"
    and "sir_ID new \<noteq> si_ID old" and "sir_ClientSecret new \<notin> {'''', si_ClientSecret old}"
    and "find_condition (Conditions (spm_status x)) ''Confirmed'' = None"
    and "Conditions (awaiting_status E x cus new t taxErr) \<noteq> Conditions (spm_status x)"
    and "z = mg (spm_status x) (awaiting_status E x cus new t taxErr) (success_status (lib E) x si pm now)"
  shows "Phase z = Active \<and> StripePaymentMethodID z = pmd_ID pm \<and>
    (\<exists>i. SetupIntent z = Some i \<and> si_ID i = sir_ID new \<and> si_ClientSecret i = sir_ClientSecret new) \<and>
    find_condition (Conditions z) ''Confirmed'' = None \<and> \<not> status_wf z"
proof -
  have conds: "find_condition (Conditions (awaiting_status E x cus new t taxErr)) ''Confirmed'' = None"
    using assms(2,7) by (simp add: awaiting_status_def Let_def find_SetStatusCondition setup_intent_condition_def
        tax_ids_condition_def StripeCustomerConditionTaxIDsApplied_def split: option.split)
  have fields: "Phase z = Active" "StripePaymentMethodID z = pmd_ID pm"
    "Conditions z = Conditions (awaiting_status E x cus new t taxErr)"
    using assms(3,8) by (simp_all add: assms(9) merge_fields [OF assms(1)] merged_field_def written_fields)
  have "\<exists>i. SetupIntent z = Some i \<and> si_ID i = sir_ID new \<and> si_ClientSecret i = sir_ClientSecret new"
    using assms(4-6) by (auto simp: assms(9) merge_fields [OF assms(1)] merged_field_def merged_setup_intent_def
        written_fields Let_def)
  moreover have "\<not> status_wf z"
    using fields conds by (simp add: status_wf_def phase_wf_def has_condition_def)
  ultimately show ?thesis using fields conds by simp
qed

section \<open>Witnesses\<close>

definition merge_by_field :: merge where
  "merge_by_field x y c = \<lparr>Phase = merged_field (Phase x) (Phase y) (Phase c),
     StripeCustomerID = merged_field (StripeCustomerID x) (StripeCustomerID y) (StripeCustomerID c),
     StripePaymentMethodID = merged_field (StripePaymentMethodID x) (StripePaymentMethodID y) (StripePaymentMethodID c),
     SetupIntent = merged_setup_intent (SetupIntent x) (SetupIntent y) (SetupIntent c),
     ConfirmedAt = merged_field (ConfirmedAt x) (ConfirmedAt y) (ConfirmedAt c),
     Instrument = merged_field (Instrument x) (Instrument y) (Instrument c),
     FailureReason = merged_field (FailureReason x) (FailureReason y) (FailureReason c),
     FailureMessage = merged_field (FailureMessage x) (FailureMessage y) (FailureMessage c),
     Conditions = merged_field (Conditions x) (Conditions y) (Conditions c),
     ObservedGeneration = merged_field (ObservedGeneration x) (ObservedGeneration y) (ObservedGeneration c)\<rparr>"

lemma merged_same [simp]: "merged_field x y x = y" "merged_setup_intent s r s = r"
  by (auto simp: merged_field_def merged_setup_intent_def Let_def split: option.split)

lemma merge_by_field_ok: "merge_patch_ok merge_by_field"
  by (simp add: merge_patch_ok_def merge_by_field_def) (simp add: merged_field_def)

text \<open>A declined card, then a second event for the resource as it was at first.\<close>

theorem progress_survives_stale_writes_witness:
  "Phase (merge_by_field (spm_status new_spm) (failure_status (lib new_env) new_spm declined_payload)
     (failure_status (lib new_env) new_spm declined_payload)) \<noteq> PhaseUnset"
proof -
  let ?st = "failure_status (lib new_env) new_spm declined_payload"
  let ?hist = "history merge_by_field new_env sample_rc sample_wh"
  have init: "spm_status new_spm = empty_spm_status" by (simp add: new_spm_def live_spm_def)
  have "?hist [merge_by_field (spm_status new_spm) ?st empty_spm_status, empty_spm_status]"
    using history.lands [OF history.created _ declined_write] by (simp add: init)
  then have 1: "?hist [?st, empty_spm_status]"
    by (simp add: init [symmetric] merge_fields(11) [OF merge_by_field_ok])
  have 2: "?hist [merge_by_field (spm_status new_spm) ?st ?st, ?st, empty_spm_status]"
    using history.lands [OF 1 _ declined_write] by (simp add: init)
  have "Phase ?st \<noteq> PhaseUnset" by (simp add: failure_status_def Let_def split: option.split)
  with progress_survives_stale_writes [OF merge_by_field_ok 2, of ?st] show ?thesis by simp
qed

text \<open>A new resource, and then a declined card.\<close>

theorem statuses_well_formed_witness:
  "phase_consistent (failure_status (lib new_env) new_spm declined_payload) \<and>
   status_wf (failure_status (lib new_env) new_spm declined_payload)"
proof -
  let ?st = "failure_status (lib new_env) new_spm declined_payload" and ?mg = merge_by_field
  let ?hist = "history ?mg new_env sample_rc sample_wh"
  have init: "spm_status new_spm = empty_spm_status" by (simp add: new_spm_def live_spm_def)
  have stored: "?mg (spm_status new_spm) ?st (spm_status new_spm) = ?st" by (rule merge_fields(11) [OF merge_by_field_ok])
  have first: "?hist [spm_status new_spm]" unfolding init by (rule history.created)
  have "?hist [?mg (spm_status new_spm) ?st (spm_status new_spm), spm_status new_spm]"
    using history.lands [OF first _ declined_write] by simp
  then have second: "?hist [?st, spm_status new_spm]" unfolding stored .
  have "status_wf (spm_status new_spm)"
    unfolding init by (simp add: status_wf_def phase_wf_def empty_spm_status_def)
  with statuses_well_formed [OF merge_by_field_ok new_env_conditions first]
  have "status_wf (?mg (spm_status new_spm) (spm_status (new_spm\<lparr>spm_status := ?st\<rparr>)) (spm_status new_spm))"
    using declined_write [of sample_rc] by blast
  then have "status_wf ?st" by (simp add: stored)
  moreover have "phase_consistent ?st"
    using statuses_well_formed [OF merge_by_field_ok new_env_conditions second] by (rule conjunct1)
  ultimately show ?thesis by simp
qed

definition asked_spm :: spm where
  "asked_spm = live_spm (empty_spm_status\<lparr>Phase := AwaitingConfirmation, StripeCustomerID := ''cus_1'',
     SetupIntent := Some \<lparr>si_ID = ''seti_1'', si_ClientSecret = ''secret_1'', si_Status = '''', si_ExpiresAt = Some 0\<rparr>\<rparr>)"

theorem overlapping_writes_mix_witness:
  "\<not> status_wf (merge_by_field (spm_status asked_spm)
     (awaiting_status new_env asked_spm ''cus_1'' \<lparr>sir_ID = ''seti_2'', sir_ClientSecret = ''secret_2'', sir_Status = '''', sir_ExpiresAt = None\<rparr> 1 None)
     (success_status (lib new_env) asked_spm sample_payload sample_pmd 0))"
proof -
  let ?new = "\<lparr>sir_ID = ''seti_2'', sir_ClientSecret = ''secret_2'', sir_Status = '''', sir_ExpiresAt = None\<rparr>"
  have "find_condition (Conditions (awaiting_status new_env asked_spm ''cus_1'' ?new 1 None)) ''SetupIntentReady'' \<noteq> None"
    using new_env_conditions
    by (simp add: awaiting_status_def Let_def find_SetStatusCondition setup_intent_condition_def
        tax_ids_condition_def StripeCustomerConditionTaxIDsApplied_def)
  then have "Conditions (awaiting_status new_env asked_spm ''cus_1'' ?new 1 None) \<noteq> Conditions (spm_status asked_spm)"
    by (auto simp: asked_spm_def live_spm_def empty_spm_status_def find_condition_def)
  then show ?thesis
    using overlapping_writes_mix [OF merge_by_field_ok new_env_conditions, of asked_spm _ ?new "''cus_1''" 1 None]
    by (simp add: asked_spm_def live_spm_def empty_spm_status_def find_condition_def)
qed

end
