(* ===== verification/GoHeap.thy ===== *)
theory GoHeap
  imports Prelude
begin

text \<open>
  Go's memory, as far as pointers and slices matter: a heap of cells, each at an address with a tag
  for the type of what it holds, so that cells of different types are never the same, and a counter
  for allocation. A value with pointers has, in a heap, a view (the value without pointers that the
  other theories work with) and the set of the cells it reaches. The locale \<open>deep_copy\<close> is the
  contract of a \<open>DeepCopyInto\<close>; the rules in the collection \<open>copy_rules\<close> prove it along
  the shape of a struct.
\<close>

section \<open>The heap\<close>

record ('t, 'c) heap =
  next_address :: nat
  cells :: "'t \<times> nat \<Rightarrow> 'c"

type_synonym ('t, 'c, 'a) heap_prog = "(('t, 'c) heap, 'a) state"

definition alloc :: "'t \<Rightarrow> 'c \<Rightarrow> ('t, 'c, nat) heap_prog" where
  "alloc t c = State (\<lambda>h. (next_address h, h\<lparr>next_address := next_address h + 1,
     cells := (cells h)((t, next_address h) := c)\<rparr>))"

definition load :: "'t \<Rightarrow> nat \<Rightarrow> ('t, 'c, 'c) heap_prog" where
  "load t a = State (\<lambda>h. (cells h (t, a), h))"

definition store :: "'t \<Rightarrow> nat \<Rightarrow> 'c \<Rightarrow> ('t, 'c, unit) heap_prog" where
  "store t a c = State (\<lambda>h. ((), h\<lparr>cells := (cells h)((t, a) := c)\<rparr>))"

lemma run_alloc [simp]: "run_state (alloc t c) h = (next_address h,
    h\<lparr>next_address := next_address h + 1, cells := (cells h)((t, next_address h) := c)\<rparr>)"
  by (simp add: alloc_def)

lemma run_load [simp]: "run_state (load t a) h = (cells h (t, a), h)"
  by (simp add: load_def)

lemma run_store [simp]: "run_state (store t a c) h = ((), h\<lparr>cells := (cells h)((t, a) := c)\<rparr>)"
  by (simp add: store_def)

definition allocated :: "('t, 'c) heap \<Rightarrow> ('t \<times> nat) set \<Rightarrow> bool" where
  "allocated h R \<longleftrightarrow> (\<forall>r\<in>R. snd r < next_address h)"

definition new_between :: "('t, 'c) heap \<Rightarrow> ('t, 'c) heap \<Rightarrow> ('t \<times> nat) set \<Rightarrow> bool" where
  "new_between h h' R \<longleftrightarrow> (\<forall>r\<in>R. next_address h \<le> snd r \<and> snd r < next_address h')"

text \<open>\<open>h'\<close> has the cells of \<open>h\<close>, unchanged, and more.\<close>

definition extends :: "('t, 'c) heap \<Rightarrow> ('t, 'c) heap \<Rightarrow> bool" where
  "extends h h' \<longleftrightarrow> next_address h \<le> next_address h' \<and>
     (\<forall>r. snd r < next_address h \<longrightarrow> cells h' r = cells h r)"

lemma extends_refl [simp]: "extends h h"
  by (simp add: extends_def)

lemma extends_trans: "extends h h1 \<Longrightarrow> extends h1 h2 \<Longrightarrow> extends h h2"
  by (auto simp: extends_def)

lemma extends_alloc: "extends h (snd (run_state (alloc t c) h))"
  by (simp add: extends_def)

lemma allocated_Un [simp]: "allocated h (R \<union> S) \<longleftrightarrow> allocated h R \<and> allocated h S"
  by (auto simp: allocated_def)

lemma new_between_Un [simp]: "new_between h h' (R \<union> S) \<longleftrightarrow> new_between h h' R \<and> new_between h h' S"
  by (auto simp: new_between_def)

lemma new_between_empty [simp]: "new_between h h' {}"
  by (simp add: new_between_def)

lemma allocated_empty [simp]: "allocated h {}"
  by (simp add: allocated_def)

lemma new_between_mono:
  "new_between h1 h2 R \<Longrightarrow> extends h h1 \<Longrightarrow> extends h2 h3 \<Longrightarrow> new_between h h3 R"
  by (fastforce simp: new_between_def extends_def)

lemma allocated_extends: "allocated h R \<Longrightarrow> extends h h' \<Longrightarrow> allocated h' R"
  by (fastforce simp: allocated_def extends_def)

lemma new_allocated: "new_between h h' R \<Longrightarrow> allocated h' R"
  by (simp add: allocated_def new_between_def)

section \<open>Deep copies\<close>

locale deep_copy =
  fixes copy :: "'s \<Rightarrow> ('t, 'c, 's) heap_prog"
    and view :: "('t, 'c) heap \<Rightarrow> 's \<Rightarrow> 'v"
    and refs :: "('t, 'c) heap \<Rightarrow> 's \<Rightarrow> ('t \<times> nat) set"
  assumes frame: "(\<And>r. r \<in> refs h x \<Longrightarrow> cells h' r = cells h r) \<Longrightarrow>
      view h' x = view h x \<and> refs h' x = refs h x"
    and copies: "run_state (copy x) h = (y, h') \<Longrightarrow> allocated h (refs h x) \<Longrightarrow>
      extends h h' \<and> view h' y = view h x \<and> new_between h h' (refs h' y)"
begin

lemma view_extends:
  assumes "allocated h (refs h x)" and "extends h h'"
  shows "view h' x = view h x" and "refs h' x = refs h x"
proof -
  have "cells h' r = cells h r" if "r \<in> refs h x" for r
    using assms that unfolding allocated_def extends_def by blast
  from frame [OF this] show "view h' x = view h x" and "refs h' x = refs h x" by simp_all
qed

text \<open>Whatever is done afterwards to the cells that were there before the copy, the copy stays.\<close>

lemma snapshot:
  assumes run: "run_state (copy x) h = (y, h')" and "allocated h (refs h x)"
    and keeps: "\<And>r. next_address h \<le> snd r \<Longrightarrow> snd r < next_address h' \<Longrightarrow> cells g r = cells h' r"
  shows "view g y = view h x"
proof -
  from copies [OF run assms(2)] have "view h' y = view h x" "new_between h h' (refs h' y)" by simp_all
  with frame [of h' y g] keeps show ?thesis by (auto simp: new_between_def)
qed

text \<open>The original is not touched, and shares no cell with its copy.\<close>

lemma original:
  assumes "run_state (copy x) h = (y, h')" and "allocated h (refs h x)"
  shows "view h' x = view h x" and "refs h' x \<inter> refs h' y = {}"
proof -
  note c = copies [OF assms]
  show "view h' x = view h x" by (rule view_extends(1) [OF assms(2)]) (simp add: c)
  have "refs h' x = refs h x" by (rule view_extends(2) [OF assms(2)]) (simp add: c)
  with c assms(2) show "refs h' x \<inter> refs h' y = {}"
    by (fastforce simp: allocated_def new_between_def)
qed

end

named_theorems copy_rules "deep copies along the shape of a struct"

subsection \<open>Values without pointers\<close>

lemma deep_copy_plain [copy_rules]: "deep_copy State_Monad.return (\<lambda>_ x. f x) (\<lambda>_ _. {})"
  by unfold_locales simp_all

subsection \<open>Two fields\<close>

definition copy_pair ::
  "('s \<Rightarrow> ('t, 'c, 's) heap_prog) \<Rightarrow> ('u \<Rightarrow> ('t, 'c, 'u) heap_prog) \<Rightarrow> 's \<times> 'u \<Rightarrow> ('t, 'c, 's \<times> 'u) heap_prog" where
  "copy_pair c d p = do {
     x \<leftarrow> c (fst p);
     y \<leftarrow> d (snd p);
     ret (x, y)
   }"

lemma deep_copy_pair [copy_rules]:
  fixes c :: "'s \<Rightarrow> ('t, 'c, 's) heap_prog"
  assumes "deep_copy c v r" and "deep_copy d w q"
  shows "deep_copy (copy_pair c d) (\<lambda>h p. (v h (fst p), w h (snd p))) (\<lambda>h p. r h (fst p) \<union> q h (snd p))"
proof -
  note cf = deep_copy.frame [OF assms(1)] and cc = deep_copy.copies [OF assms(1)]
    and ce = deep_copy.view_extends [OF assms(1)] and df = deep_copy.frame [OF assms(2)]
    and dc = deep_copy.copies [OF assms(2)] and de = deep_copy.view_extends [OF assms(2)]
  show ?thesis
  proof
    fix h h' :: "('t, 'c) heap" and p
    assume "\<And>a. a \<in> r h (fst p) \<union> q h (snd p) \<Longrightarrow> cells h' a = cells h a"
    then show "(v h' (fst p), w h' (snd p)) = (v h (fst p), w h (snd p)) \<and>
        r h' (fst p) \<union> q h' (snd p) = r h (fst p) \<union> q h (snd p)"
      using cf [of h "fst p" h'] df [of h "snd p" h'] by simp
  next
    fix p y and h h' :: "('t, 'c) heap"
    assume run: "run_state (copy_pair c d p) h = (y, h')"
      and al: "allocated h (r h (fst p) \<union> q h (snd p))"
    obtain x1 h1 where 1: "run_state (c (fst p)) h = (x1, h1)" by fastforce
    obtain x2 h2 where 2: "run_state (d (snd p)) h1 = (x2, h2)" by fastforce
    from run 1 2 have y: "y = (x1, x2)" "h' = h2" by (simp_all add: copy_pair_def)
    from cc [OF 1] al have c1: "extends h h1" "v h1 x1 = v h (fst p)" "new_between h h1 (r h1 x1)"
      by simp_all
    from de [OF _ c1(1)] al have same: "w h1 (snd p) = w h (snd p)" "q h1 (snd p) = q h (snd p)"
      by simp_all
    with dc [OF 2] allocated_extends [OF _ c1(1)] al
    have d2: "extends h1 h2" "w h2 x2 = w h (snd p)" "new_between h1 h2 (q h2 x2)" by simp_all
    from ce [OF new_allocated [OF c1(3)] d2(1)] c1(2,3)
    have "v h2 x1 = v h (fst p)" "new_between h h1 (r h2 x1)" by simp_all
    with y d2 new_between_mono [OF _ extends_refl d2(1)] new_between_mono [OF _ c1(1) extends_refl]
    show "extends h h' \<and> (v h' (fst y), w h' (snd y)) = (v h (fst p), w h (snd p)) \<and>
        new_between h h' (r h' (fst y) \<union> q h' (snd y))"
      using extends_trans [OF c1(1) d2(1)] by simp
  qed
qed

subsection \<open>Structs\<close>

text \<open>
  \<open>get\<close> takes the fields with pointers out of the struct, \<open>put\<close> puts their copies in, and
  \<open>V\<close> makes the struct's view of its other fields and their views.
\<close>

lemma deep_copy_struct:
  fixes c :: "'p \<Rightarrow> ('t, 'c, 'p) heap_prog"
  assumes "deep_copy c v r" and "\<And>s p. get (put s p) = p" and "\<And>s p a. V (put s p) a = V s a"
    and "\<And>s. D s = do { p \<leftarrow> c (get s); ret (put s p) }"
    and "\<And>h s. W h s = V s (v h (get s))" and "\<And>h s. R h s = r h (get s)"
  shows "deep_copy D W R"
proof
  fix h h' :: "('t, 'c) heap" and s
  assume "\<And>a. a \<in> R h s \<Longrightarrow> cells h' a = cells h a"
  with deep_copy.frame [OF assms(1), of h "get s" h'] show "W h' s = W h s \<and> R h' s = R h s"
    by (simp add: assms(5,6))
next
  fix s y and h h' :: "('t, 'c) heap"
  assume run: "run_state (D s) h = (y, h')" and al: "allocated h (R h s)"
  obtain p h1 where 1: "run_state (c (get s)) h = (p, h1)" by fastforce
  with run have "y = put s p" "h' = h1" by (simp_all add: assms(4))
  with deep_copy.copies [OF assms(1) 1] al
  show "extends h h' \<and> W h' y = W h s \<and> new_between h h' (R h' y)" by (simp add: assms(2,3,5,6))
qed

subsection \<open>Pointers\<close>

text \<open>
  The copy of what a pointer points to: \<open>if in != nil { out = new(T); in.DeepCopyInto(out) }\<close>,
  which is also the whole of each \<open>DeepCopy\<close>. \<open>mk\<close> makes a cell of a \<open>T\<close> and
  \<open>the_T\<close> reads it.
\<close>

definition copy_pointer ::
  "'t \<Rightarrow> ('s \<Rightarrow> 'c) \<Rightarrow> ('c \<Rightarrow> 's) \<Rightarrow> ('s \<Rightarrow> ('t, 'c, 's) heap_prog) \<Rightarrow> nat option \<Rightarrow> ('t, 'c, nat option) heap_prog" where
  "copy_pointer t mk the_T c p =
     (case p of None \<Rightarrow> ret None
      | Some a \<Rightarrow> do {
          x \<leftarrow> load t a;
          y \<leftarrow> c (the_T x);
          b \<leftarrow> alloc t (mk y);
          ret (Some b)
        })"

definition view_pointer ::
  "'t \<Rightarrow> ('c \<Rightarrow> 's) \<Rightarrow> (('t, 'c) heap \<Rightarrow> 's \<Rightarrow> 'v) \<Rightarrow> ('t, 'c) heap \<Rightarrow> nat option \<Rightarrow> 'v option" where
  "view_pointer t the_T v h p = map_option (\<lambda>a. v h (the_T (cells h (t, a)))) p"

definition refs_pointer ::
  "'t \<Rightarrow> ('c \<Rightarrow> 's) \<Rightarrow> (('t, 'c) heap \<Rightarrow> 's \<Rightarrow> ('t \<times> nat) set) \<Rightarrow> ('t, 'c) heap \<Rightarrow> nat option \<Rightarrow> ('t \<times> nat) set" where
  "refs_pointer t the_T r h p =
     (case p of None \<Rightarrow> {} | Some a \<Rightarrow> insert (t, a) (r h (the_T (cells h (t, a)))))"

lemma copy_pointer_copies:
  fixes c :: "'s \<Rightarrow> ('t, 'c, 's) heap_prog"
  assumes "deep_copy c v r" and "\<And>x. the_T (mk x) = x"
    and run: "run_state (copy_pointer t mk the_T c (Some a)) h = (y, h')"
    and al: "allocated h (refs_pointer t the_T r h (Some a))"
  shows "extends h h' \<and> view_pointer t the_T v h' y = view_pointer t the_T v h (Some a) \<and>
    new_between h h' (refs_pointer t the_T r h' y)"
proof -
  let ?x = "the_T (cells h (t, a))"
  obtain x h1 where 1: "run_state (c ?x) h = (x, h1)" by fastforce
  have y: "y = Some (next_address h1)" and h': "h' = snd (run_state (alloc t (mk x)) h1)"
    using run 1 by (simp_all add: copy_pointer_def)
  have "allocated h (r h ?x)" using al by (simp add: refs_pointer_def allocated_def)
  from deep_copy.copies [OF assms(1) 1 this]
  have c1: "extends h h1" "v h1 x = v h ?x" "new_between h h1 (r h1 x)" by simp_all
  have ext: "extends h1 h'" using h' extends_alloc by simp
  from deep_copy.view_extends [OF assms(1) new_allocated [OF c1(3)] ext] c1(2,3)
  have "v h' x = v h ?x" "new_between h h1 (r h' x)" by simp_all
  moreover have "the_T (cells h' (t, next_address h1)) = x" by (simp add: h' assms(2))
  moreover have "new_between h h' {(t, next_address h1)}"
    using c1(1) by (simp add: h' new_between_def extends_def)
  ultimately show ?thesis
    using extends_trans [OF c1(1) ext] new_between_mono [OF _ extends_refl ext] y
    by (simp add: view_pointer_def refs_pointer_def new_between_def)
qed

lemma deep_copy_pointer [copy_rules]:
  fixes c :: "'s \<Rightarrow> ('t, 'c, 's) heap_prog"
  assumes "deep_copy c v r" and "\<And>x. the_T (mk x) = x"
  shows "deep_copy (copy_pointer t mk the_T c) (view_pointer t the_T v) (refs_pointer t the_T r)"
proof
  fix h h' :: "('t, 'c) heap" and p
  assume same: "\<And>a. a \<in> refs_pointer t the_T r h p \<Longrightarrow> cells h' a = cells h a"
  show "view_pointer t the_T v h' p = view_pointer t the_T v h p \<and>
      refs_pointer t the_T r h' p = refs_pointer t the_T r h p"
  proof (cases p)
    case (Some a)
    with same deep_copy.frame [OF assms(1), of h "the_T (cells h (t, a))" h'] show ?thesis
      by (simp add: view_pointer_def refs_pointer_def)
  qed (simp add: view_pointer_def refs_pointer_def)
next
  fix p y and h h' :: "('t, 'c) heap"
  assume "run_state (copy_pointer t mk the_T c p) h = (y, h')" and "allocated h (refs_pointer t the_T r h p)"
  with copy_pointer_copies [OF assms, where h = h and y = y and h' = h']
  show "extends h h' \<and> view_pointer t the_T v h' y = view_pointer t the_T v h p \<and>
      new_between h h' (refs_pointer t the_T r h' y)"
    by (cases p) (simp_all add: copy_pointer_def view_pointer_def refs_pointer_def)
qed

text \<open>A pointer whose own \<open>DeepCopy\<close> is called: \<open>if in != nil { out = in.DeepCopy() }\<close>\<close>

definition copy_option :: "(nat \<Rightarrow> ('t, 'c, nat) heap_prog) \<Rightarrow> nat option \<Rightarrow> ('t, 'c, nat option) heap_prog" where
  "copy_option c p = (case p of None \<Rightarrow> ret None | Some a \<Rightarrow> do { b \<leftarrow> c a; ret (Some b) })"

lemma deep_copy_option [copy_rules]:
  fixes c :: "nat \<Rightarrow> ('t, 'c, nat) heap_prog"
  assumes "deep_copy c v r"
  shows "deep_copy (copy_option c) (\<lambda>h. map_option (v h)) (\<lambda>h p. \<Union>a\<in>set_option p. r h a)"
proof
  fix h h' :: "('t, 'c) heap" and p
  assume "\<And>a. a \<in> (\<Union>a\<in>set_option p. r h a) \<Longrightarrow> cells h' a = cells h a"
  with deep_copy.frame [OF assms, of h "the p" h']
  show "map_option (v h') p = map_option (v h) p \<and> (\<Union>a\<in>set_option p. r h' a) = (\<Union>a\<in>set_option p. r h a)"
    by (cases p) auto
next
  fix p y and h h' :: "('t, 'c) heap"
  assume "run_state (copy_option c p) h = (y, h')" and "allocated h (\<Union>a\<in>set_option p. r h a)"
  with deep_copy.copies [OF assms, of "the p" h]
  show "extends h h' \<and> map_option (v h') y = map_option (v h) p \<and> new_between h h' (\<Union>a\<in>set_option y. r h' a)"
    by (cases p) (auto simp: copy_option_def split: prod.splits)
qed

subsection \<open>Slices\<close>

text \<open>\<open>for i := range in { in[i].DeepCopyInto(&out[i]) }\<close>\<close>

fun copy_elements :: "('s \<Rightarrow> ('t, 'c, 's) heap_prog) \<Rightarrow> 's list \<Rightarrow> ('t, 'c, 's list) heap_prog" where
  "copy_elements c [] = ret []"
| "copy_elements c (x # xs) = do {
     y \<leftarrow> c x;
     ys \<leftarrow> copy_elements c xs;
     ret (y # ys)
   }"

lemma copy_elements_copies:
  fixes c :: "'s \<Rightarrow> ('t, 'c, 's) heap_prog"
  assumes "deep_copy c v r"
  shows "run_state (copy_elements c xs) h = (ys, h') \<Longrightarrow> allocated h (\<Union>x\<in>set xs. r h x) \<Longrightarrow>
    extends h h' \<and> map (v h') ys = map (v h) xs \<and> new_between h h' (\<Union>x\<in>set ys. r h' x)"
proof (induction xs arbitrary: h ys)
  case (Cons x xs)
  note ce = deep_copy.view_extends [OF assms]
  obtain y h1 where 1: "run_state (c x) h = (y, h1)" by fastforce
  obtain zs h2 where 2: "run_state (copy_elements c xs) h1 = (zs, h2)" by fastforce
  from Cons.prems 1 2 have ys: "ys = y # zs" "h' = h2" and al: "allocated h (r h x)"
    "\<And>z. z \<in> set xs \<Longrightarrow> allocated h (r h z)" by (auto simp: allocated_def)
  from deep_copy.copies [OF assms 1 al(1)]
  have c1: "extends h h1" "v h1 y = v h x" "new_between h h1 (r h1 y)" by simp_all
  have same: "v h1 z = v h z" "r h1 z = r h z" if "z \<in> set xs" for z
    using ce [OF al(2) c1(1)] that by blast+
  have "allocated h1 (r h1 z)" if "z \<in> set xs" for z
    using allocated_extends [OF al(2) c1(1)] same(2) that by simp
  then have "allocated h1 (\<Union>z\<in>set xs. r h1 z)" by (auto simp: allocated_def)
  moreover have "map (v h1) xs = map (v h) xs" using same(1) by simp
  ultimately have c2: "extends h1 h'" "map (v h') zs = map (v h) xs" "new_between h1 h' (\<Union>z\<in>set zs. r h' z)"
    using Cons.IH [OF 2 [folded ys(2)]] by simp_all
  from ce [OF new_allocated [OF c1(3)] c2(1)] c1(2,3)
  have "v h' y = v h x" "new_between h h1 (r h' y)" by simp_all
  moreover have "new_between h h' (r h' y)"
    by (rule new_between_mono [OF calculation(2) extends_refl c2(1)])
  moreover have "new_between h h' (\<Union>z\<in>set zs. r h' z)"
    by (rule new_between_mono [OF c2(3) c1(1) extends_refl])
  ultimately show ?case using ys(1) c2(2) extends_trans [OF c1(1) c2(1)] by simp
qed simp

lemma deep_copy_elements [copy_rules]:
  fixes c :: "'s \<Rightarrow> ('t, 'c, 's) heap_prog"
  assumes "deep_copy c v r"
  shows "deep_copy (copy_elements c) (\<lambda>h. map (v h)) (\<lambda>h xs. \<Union>x\<in>set xs. r h x)"
proof
  fix h h' :: "('t, 'c) heap" and xs
  assume same: "\<And>a. a \<in> (\<Union>x\<in>set xs. r h x) \<Longrightarrow> cells h' a = cells h a"
  have "v h' x = v h x \<and> r h' x = r h x" if "x \<in> set xs" for x
    using same that by (intro deep_copy.frame [OF assms]) blast
  then show "map (v h') xs = map (v h) xs \<and> (\<Union>x\<in>set xs. r h' x) = (\<Union>x\<in>set xs. r h x)" by simp
qed (rule copy_elements_copies [OF assms])

end
