(* ===== verification/DeepCopies.thy ===== *)
theory DeepCopies
  imports GoHeap Interfaces
begin

text \<open>
  The generated deep copies (\<open>api/v1alpha1/zz_generated.deepcopy.go\<close>) on a heap with pointers. Every
  patch of the program is the difference between an object and a deep copy taken before the object
  was changed in place (\<open>client.MergeFrom(obj.DeepCopy())\<close>). The other theories read such a pair
  as two values; that this reading is right is what the theorems here and in \<open>PatchBases\<close> show.
  A struct here has the fields of the Go struct, with an address for each pointer and slice. What
  apimachinery copies (object and list metadata, times, conditions) is a parameter. \<open>DeepCopyInto\<close>
  answers with what it writes to \<open>out\<close>; the inner cells of a new struct are allocated before it
  instead of after it, which only renames addresses.
\<close>

section \<open>Structs\<close>

type_synonym type_meta = "string \<times> string"  \<comment> \<open>kind and API version\<close>

record billing_account_local_ref =
  balr_Name :: string

record payment_method_local_ref =
  pmlr_Name :: string

record sc_spec =
  scs_BillingAccountRef :: billing_account_local_ref

record spm_spec =
  spms_PaymentMethodRef :: payment_method_local_ref

record cfg_spec =
  cfgs_PublishableKey :: string
  cfgs_APIVersion :: string

record gsetup_intent =
  g_ID :: string
  g_ClientSecret :: string
  g_Status :: string
  g_ExpiresAt :: "nat option"

record ginstrument =
  g_Type :: instrument_type
  g_Card :: "nat option"
  g_USBankAccount :: "nat option"

record gspm_status =
  g_Phase :: spm_phase
  g_StripeCustomerID :: string
  g_StripePaymentMethodID :: string
  g_SetupIntent :: "nat option"
  g_ConfirmedAt :: "nat option"
  g_Instrument :: "nat option"
  g_FailureReason :: string
  g_FailureMessage :: string
  g_Conditions :: "nat option"
  g_ObservedGeneration :: int

record gsc_status =
  gsc_StripeCustomerID :: string
  gsc_Conditions :: "nat option"
  gsc_ObservedGeneration :: int

record gcfg_status =
  gcfg_Conditions :: "nat option"
  gcfg_SupportedTaxIDTypes :: "nat option"
  gcfg_ObservedGeneration :: int

text \<open>An object with its metadata, spec and status, and a list of objects.\<close>

record ('m, 's, 't) gobject =
  o_TypeMeta :: type_meta
  o_ObjectMeta :: 'm
  o_Spec :: 's
  o_Status :: 't

type_synonym 'm gspm = "('m, spm_spec, gspm_status) gobject"
type_synonym 'm gsc = "('m, sc_spec, gsc_status) gobject"
type_synonym 'm gcfg = "('m, cfg_spec, gcfg_status) gobject"

record 'l glist =
  l_TypeMeta :: type_meta
  l_ListMeta :: 'l
  l_Items :: "nat option"

datatype tag = BillingAccountRefT | PaymentMethodRefT | CardT | BankT | InstrumentT | SetupIntentT | TimeT
  | ConditionsT | TaxTypeT | TaxTypesT | ScT | ScSpecT | ScStatusT | ScsT | ScListT | SpmT | SpmSpecT
  | SpmStatusT | SpmsT | SpmListT | CfgT | CfgSpecT | CfgStatusT | CfgsT | CfgListT | LibT

datatype ('m, 'l, 'x) cell =
    BillingAccountRefCell (the_billing_account_ref: billing_account_local_ref)
  | PaymentMethodRefCell (the_payment_method_ref: payment_method_local_ref)
  | CardCell (the_card: card_details)
  | BankCell (the_bank: bank_account_details)
  | InstrumentCell (the_instrument: ginstrument)
  | SetupIntentCell (the_setup_intent: gsetup_intent)
  | TimeCell (the_time: gotime)
  | ConditionsCell (the_conditions: "condition list")
  | TaxTypeCell (the_tax_type: supported_tax_id)
  | TaxTypesCell (the_tax_types: "supported_tax_id list")
  | ScCell (the_sc: "'m gsc")
  | ScSpecCell (the_sc_spec: sc_spec)
  | ScStatusCell (the_sc_status: gsc_status)
  | ScsCell (the_scs: "'m gsc list")
  | ScListCell (the_sc_list: "'l glist")
  | SpmCell (the_spm: "'m gspm")
  | SpmSpecCell (the_spm_spec: spm_spec)
  | SpmStatusCell (the_spm_status: gspm_status)
  | SpmsCell (the_spms: "'m gspm list")
  | SpmListCell (the_spm_list: "'l glist")
  | CfgCell (the_cfg: "'m gcfg")
  | CfgSpecCell (the_cfg_spec: cfg_spec)
  | CfgStatusCell (the_cfg_status: gcfg_status)
  | CfgsCell (the_cfgs: "'m gcfg list")
  | CfgListCell (the_cfg_list: "'l glist")
  | LibCell 'x

type_synonym ('m, 'l, 'x) go_heap = "(tag, ('m, 'l, 'x) cell) heap"
type_synonym ('m, 'l, 'x, 'a) go_prog = "(tag, ('m, 'l, 'x) cell, 'a) heap_prog"
type_synonym address = "tag \<times> nat"

section \<open>The copies of apimachinery\<close>

record ('m, 'l, 'x, 'v) apimachinery =
  ObjectMeta_DeepCopyInto :: "'m \<Rightarrow> ('m, 'l, 'x, 'm) go_prog"
  meta_view :: "('m, 'l, 'x) go_heap \<Rightarrow> 'm \<Rightarrow> object_meta"
  meta_refs :: "('m, 'l, 'x) go_heap \<Rightarrow> 'm \<Rightarrow> address set"
  meta_Generation :: "'m \<Rightarrow> int"
  ListMeta_DeepCopyInto :: "'l \<Rightarrow> ('m, 'l, 'x, 'l) go_prog"
  list_meta_view :: "('m, 'l, 'x) go_heap \<Rightarrow> 'l \<Rightarrow> 'v"
  list_meta_refs :: "('m, 'l, 'x) go_heap \<Rightarrow> 'l \<Rightarrow> address set"
  Time_DeepCopy :: "nat \<Rightarrow> ('m, 'l, 'x, nat) go_prog"
  Condition_DeepCopyInto :: "condition \<Rightarrow> ('m, 'l, 'x, condition) go_prog"
  SetStatusCondition_in_place :: "nat option \<Rightarrow> condition \<Rightarrow> ('m, 'l, 'x, nat option) go_prog"

definition view_time :: "('m, 'l, 'x) go_heap \<Rightarrow> nat \<Rightarrow> gotime" where
  "view_time h a = the_time (cells h (TimeT, a))"

definition view_conditions :: "('m, 'l, 'x) go_heap \<Rightarrow> nat option \<Rightarrow> condition list" where
  "view_conditions h p = (case p of None \<Rightarrow> [] | Some a \<Rightarrow> the_conditions (cells h (ConditionsT, a)))"

definition refs_conditions :: "nat option \<Rightarrow> address set" where
  "refs_conditions p = (\<lambda>a. (ConditionsT, a)) ` set_option p"

text \<open>
  What is documented: the copies of apimachinery are deep, its metadata holds no pointer to a cell of
  this package's types, and \<open>SetStatusCondition\<close> writes to the slice it is given or to a new one.
\<close>

definition apimachinery_ok :: "('m, 'l, 'x, 'v) apimachinery \<Rightarrow> lib \<Rightarrow> bool" where
  "apimachinery_ok A L \<longleftrightarrow>
     deep_copy (ObjectMeta_DeepCopyInto A) (meta_view A) (meta_refs A) \<and>
     (\<forall>h m. meta_refs A h m \<subseteq> {LibT} \<times> UNIV \<and> Generation (meta_view A h m) = meta_Generation A m) \<and>
     deep_copy (ListMeta_DeepCopyInto A) (list_meta_view A) (list_meta_refs A) \<and>
     deep_copy (Time_DeepCopy A) view_time (\<lambda>_ a. {(TimeT, a)}) \<and>
     deep_copy (Condition_DeepCopyInto A) (\<lambda>_ c. c) (\<lambda>_ _. {}) \<and>
     (\<forall>p c h q h'. run_state (SetStatusCondition_in_place A p c) h = (q, h') \<and> allocated h (refs_conditions p) \<longrightarrow>
        next_address h \<le> next_address h' \<and>
        view_conditions h' q = SetStatusCondition L (view_conditions h p) c \<and>
        (\<forall>r. snd r < next_address h \<and> r \<notin> refs_conditions p \<longrightarrow> cells h' r = cells h r) \<and>
        (\<forall>r\<in>refs_conditions q. r \<in> refs_conditions p \<or> next_address h \<le> snd r \<and> snd r < next_address h'))"

section \<open>DeepCopyInto\<close>

definition BillingAccountLocalRef_DeepCopyInto :: "billing_account_local_ref \<Rightarrow> ('m, 'l, 'x, billing_account_local_ref) go_prog" where
  "BillingAccountLocalRef_DeepCopyInto s = ret s"

definition PaymentMethodLocalRef_DeepCopyInto :: "payment_method_local_ref \<Rightarrow> ('m, 'l, 'x, payment_method_local_ref) go_prog" where
  "PaymentMethodLocalRef_DeepCopyInto s = ret s"

definition StripeCardInstrumentDetails_DeepCopyInto :: "card_details \<Rightarrow> ('m, 'l, 'x, card_details) go_prog" where
  "StripeCardInstrumentDetails_DeepCopyInto s = ret s"

definition StripeUSBankAccountInstrumentDetails_DeepCopyInto :: "bank_account_details \<Rightarrow> ('m, 'l, 'x, bank_account_details) go_prog" where
  "StripeUSBankAccountInstrumentDetails_DeepCopyInto s = ret s"

definition SupportedTaxIDType_DeepCopyInto :: "supported_tax_id \<Rightarrow> ('m, 'l, 'x, supported_tax_id) go_prog" where
  "SupportedTaxIDType_DeepCopyInto s = ret s"

definition StripeProviderConfigSpec_DeepCopyInto :: "cfg_spec \<Rightarrow> ('m, 'l, 'x, cfg_spec) go_prog" where
  "StripeProviderConfigSpec_DeepCopyInto s = ret s"

definition StripeCustomerSpec_DeepCopyInto :: "sc_spec \<Rightarrow> ('m, 'l, 'x, sc_spec) go_prog" where
  "StripeCustomerSpec_DeepCopyInto s = ret (s\<lparr>scs_BillingAccountRef := scs_BillingAccountRef s\<rparr>)"

definition StripePaymentMethodSpec_DeepCopyInto :: "spm_spec \<Rightarrow> ('m, 'l, 'x, spm_spec) go_prog" where
  "StripePaymentMethodSpec_DeepCopyInto s = ret (s\<lparr>spms_PaymentMethodRef := spms_PaymentMethodRef s\<rparr>)"

definition copy_conditions :: "('m, 'l, 'x, 'v) apimachinery \<Rightarrow> nat option \<Rightarrow> ('m, 'l, 'x, nat option) go_prog" where
  "copy_conditions A = copy_pointer ConditionsT ConditionsCell the_conditions
     (copy_elements (Condition_DeepCopyInto A))"

definition StripeSetupIntentStatus_DeepCopyInto ::
  "('m, 'l, 'x, 'v) apimachinery \<Rightarrow> gsetup_intent \<Rightarrow> ('m, 'l, 'x, gsetup_intent) go_prog" where
  "StripeSetupIntentStatus_DeepCopyInto A s = do {
     t \<leftarrow> copy_option (Time_DeepCopy A) (g_ExpiresAt s);
     ret (s\<lparr>g_ExpiresAt := t\<rparr>)
   }"

definition StripeInstrumentDetails_DeepCopyInto :: "ginstrument \<Rightarrow> ('m, 'l, 'x, ginstrument) go_prog" where
  "StripeInstrumentDetails_DeepCopyInto s = do {
     card \<leftarrow> copy_pointer CardT CardCell the_card ret (g_Card s);
     bank \<leftarrow> copy_pointer BankT BankCell the_bank ret (g_USBankAccount s);
     ret (s\<lparr>g_Card := card, g_USBankAccount := bank\<rparr>)
   }"

definition StripePaymentMethodStatus_DeepCopyInto ::
  "('m, 'l, 'x, 'v) apimachinery \<Rightarrow> gspm_status \<Rightarrow> ('m, 'l, 'x, gspm_status) go_prog" where
  "StripePaymentMethodStatus_DeepCopyInto A s = do {
     si \<leftarrow> copy_pointer SetupIntentT SetupIntentCell the_setup_intent
             (StripeSetupIntentStatus_DeepCopyInto A) (g_SetupIntent s);
     t \<leftarrow> copy_option (Time_DeepCopy A) (g_ConfirmedAt s);
     i \<leftarrow> copy_pointer InstrumentT InstrumentCell the_instrument
             StripeInstrumentDetails_DeepCopyInto (g_Instrument s);
     cs \<leftarrow> copy_conditions A (g_Conditions s);
     ret (s\<lparr>g_SetupIntent := si, g_ConfirmedAt := t, g_Instrument := i, g_Conditions := cs\<rparr>)
   }"

definition StripeCustomerStatus_DeepCopyInto ::
  "('m, 'l, 'x, 'v) apimachinery \<Rightarrow> gsc_status \<Rightarrow> ('m, 'l, 'x, gsc_status) go_prog" where
  "StripeCustomerStatus_DeepCopyInto A s = do {
     cs \<leftarrow> copy_conditions A (gsc_Conditions s);
     ret (s\<lparr>gsc_Conditions := cs\<rparr>)
   }"

definition StripeProviderConfigStatus_DeepCopyInto ::
  "('m, 'l, 'x, 'v) apimachinery \<Rightarrow> gcfg_status \<Rightarrow> ('m, 'l, 'x, gcfg_status) go_prog" where
  "StripeProviderConfigStatus_DeepCopyInto A s = do {
     cs \<leftarrow> copy_conditions A (gcfg_Conditions s);
     ts \<leftarrow> copy_pointer TaxTypesT TaxTypesCell the_tax_types ret (gcfg_SupportedTaxIDTypes s);
     ret (s\<lparr>gcfg_Conditions := cs, gcfg_SupportedTaxIDTypes := ts\<rparr>)
   }"

definition StripeCustomer_DeepCopyInto :: "('m, 'l, 'x, 'v) apimachinery \<Rightarrow> 'm gsc \<Rightarrow> ('m, 'l, 'x, 'm gsc) go_prog" where
  "StripeCustomer_DeepCopyInto A x = do {
     m \<leftarrow> ObjectMeta_DeepCopyInto A (o_ObjectMeta x);
     st \<leftarrow> StripeCustomerStatus_DeepCopyInto A (o_Status x);
     ret (x\<lparr>o_ObjectMeta := m, o_Status := st\<rparr>)
   }"

definition StripeCustomerList_DeepCopyInto :: "('m, 'l, 'x, 'v) apimachinery \<Rightarrow> 'l glist \<Rightarrow> ('m, 'l, 'x, 'l glist) go_prog" where
  "StripeCustomerList_DeepCopyInto A x = do {
     m \<leftarrow> ListMeta_DeepCopyInto A (l_ListMeta x);
     is \<leftarrow> copy_pointer ScsT ScsCell the_scs (copy_elements (StripeCustomer_DeepCopyInto A)) (l_Items x);
     ret (x\<lparr>l_ListMeta := m, l_Items := is\<rparr>)
   }"

definition StripePaymentMethod_DeepCopyInto :: "('m, 'l, 'x, 'v) apimachinery \<Rightarrow> 'm gspm \<Rightarrow> ('m, 'l, 'x, 'm gspm) go_prog" where
  "StripePaymentMethod_DeepCopyInto A x = do {
     m \<leftarrow> ObjectMeta_DeepCopyInto A (o_ObjectMeta x);
     st \<leftarrow> StripePaymentMethodStatus_DeepCopyInto A (o_Status x);
     ret (x\<lparr>o_ObjectMeta := m, o_Status := st\<rparr>)
   }"

definition StripePaymentMethodList_DeepCopyInto :: "('m, 'l, 'x, 'v) apimachinery \<Rightarrow> 'l glist \<Rightarrow> ('m, 'l, 'x, 'l glist) go_prog" where
  "StripePaymentMethodList_DeepCopyInto A x = do {
     m \<leftarrow> ListMeta_DeepCopyInto A (l_ListMeta x);
     is \<leftarrow> copy_pointer SpmsT SpmsCell the_spms (copy_elements (StripePaymentMethod_DeepCopyInto A)) (l_Items x);
     ret (x\<lparr>l_ListMeta := m, l_Items := is\<rparr>)
   }"

definition StripeProviderConfig_DeepCopyInto :: "('m, 'l, 'x, 'v) apimachinery \<Rightarrow> 'm gcfg \<Rightarrow> ('m, 'l, 'x, 'm gcfg) go_prog" where
  "StripeProviderConfig_DeepCopyInto A x = do {
     m \<leftarrow> ObjectMeta_DeepCopyInto A (o_ObjectMeta x);
     st \<leftarrow> StripeProviderConfigStatus_DeepCopyInto A (o_Status x);
     ret (x\<lparr>o_ObjectMeta := m, o_Status := st\<rparr>)
   }"

definition StripeProviderConfigList_DeepCopyInto :: "('m, 'l, 'x, 'v) apimachinery \<Rightarrow> 'l glist \<Rightarrow> ('m, 'l, 'x, 'l glist) go_prog" where
  "StripeProviderConfigList_DeepCopyInto A x = do {
     m \<leftarrow> ListMeta_DeepCopyInto A (l_ListMeta x);
     is \<leftarrow> copy_pointer CfgsT CfgsCell the_cfgs (copy_elements (StripeProviderConfig_DeepCopyInto A)) (l_Items x);
     ret (x\<lparr>l_ListMeta := m, l_Items := is\<rparr>)
   }"

section \<open>DeepCopy and DeepCopyObject\<close>

datatype runtime_object = ScObject nat | ScListObject nat | SpmObject nat | SpmListObject nat
  | CfgObject nat | CfgListObject nat

definition BillingAccountLocalRef_DeepCopy :: "nat option \<Rightarrow> ('m, 'l, 'x, nat option) go_prog" where
  "BillingAccountLocalRef_DeepCopy = copy_pointer BillingAccountRefT BillingAccountRefCell the_billing_account_ref BillingAccountLocalRef_DeepCopyInto"

definition PaymentMethodLocalRef_DeepCopy :: "nat option \<Rightarrow> ('m, 'l, 'x, nat option) go_prog" where
  "PaymentMethodLocalRef_DeepCopy = copy_pointer PaymentMethodRefT PaymentMethodRefCell the_payment_method_ref PaymentMethodLocalRef_DeepCopyInto"

definition StripeCardInstrumentDetails_DeepCopy :: "nat option \<Rightarrow> ('m, 'l, 'x, nat option) go_prog" where
  "StripeCardInstrumentDetails_DeepCopy = copy_pointer CardT CardCell the_card StripeCardInstrumentDetails_DeepCopyInto"

definition StripeUSBankAccountInstrumentDetails_DeepCopy :: "nat option \<Rightarrow> ('m, 'l, 'x, nat option) go_prog" where
  "StripeUSBankAccountInstrumentDetails_DeepCopy = copy_pointer BankT BankCell the_bank StripeUSBankAccountInstrumentDetails_DeepCopyInto"

definition StripeInstrumentDetails_DeepCopy :: "nat option \<Rightarrow> ('m, 'l, 'x, nat option) go_prog" where
  "StripeInstrumentDetails_DeepCopy = copy_pointer InstrumentT InstrumentCell the_instrument StripeInstrumentDetails_DeepCopyInto"

definition StripeSetupIntentStatus_DeepCopy :: "('m, 'l, 'x, 'v) apimachinery \<Rightarrow> nat option \<Rightarrow> ('m, 'l, 'x, nat option) go_prog" where
  "StripeSetupIntentStatus_DeepCopy A = copy_pointer SetupIntentT SetupIntentCell the_setup_intent (StripeSetupIntentStatus_DeepCopyInto A)"

definition SupportedTaxIDType_DeepCopy :: "nat option \<Rightarrow> ('m, 'l, 'x, nat option) go_prog" where
  "SupportedTaxIDType_DeepCopy = copy_pointer TaxTypeT TaxTypeCell the_tax_type SupportedTaxIDType_DeepCopyInto"

definition StripeCustomerSpec_DeepCopy :: "nat option \<Rightarrow> ('m, 'l, 'x, nat option) go_prog" where
  "StripeCustomerSpec_DeepCopy = copy_pointer ScSpecT ScSpecCell the_sc_spec StripeCustomerSpec_DeepCopyInto"

definition StripeCustomerStatus_DeepCopy :: "('m, 'l, 'x, 'v) apimachinery \<Rightarrow> nat option \<Rightarrow> ('m, 'l, 'x, nat option) go_prog" where
  "StripeCustomerStatus_DeepCopy A = copy_pointer ScStatusT ScStatusCell the_sc_status (StripeCustomerStatus_DeepCopyInto A)"

definition StripeCustomer_DeepCopy :: "('m, 'l, 'x, 'v) apimachinery \<Rightarrow> nat option \<Rightarrow> ('m, 'l, 'x, nat option) go_prog" where
  "StripeCustomer_DeepCopy A = copy_pointer ScT ScCell the_sc (StripeCustomer_DeepCopyInto A)"

definition StripeCustomerList_DeepCopy :: "('m, 'l, 'x, 'v) apimachinery \<Rightarrow> nat option \<Rightarrow> ('m, 'l, 'x, nat option) go_prog" where
  "StripeCustomerList_DeepCopy A = copy_pointer ScListT ScListCell the_sc_list (StripeCustomerList_DeepCopyInto A)"

definition StripePaymentMethodSpec_DeepCopy :: "nat option \<Rightarrow> ('m, 'l, 'x, nat option) go_prog" where
  "StripePaymentMethodSpec_DeepCopy = copy_pointer SpmSpecT SpmSpecCell the_spm_spec StripePaymentMethodSpec_DeepCopyInto"

definition StripePaymentMethodStatus_DeepCopy :: "('m, 'l, 'x, 'v) apimachinery \<Rightarrow> nat option \<Rightarrow> ('m, 'l, 'x, nat option) go_prog" where
  "StripePaymentMethodStatus_DeepCopy A = copy_pointer SpmStatusT SpmStatusCell the_spm_status (StripePaymentMethodStatus_DeepCopyInto A)"

definition StripePaymentMethod_DeepCopy :: "('m, 'l, 'x, 'v) apimachinery \<Rightarrow> nat option \<Rightarrow> ('m, 'l, 'x, nat option) go_prog" where
  "StripePaymentMethod_DeepCopy A = copy_pointer SpmT SpmCell the_spm (StripePaymentMethod_DeepCopyInto A)"

definition StripePaymentMethodList_DeepCopy :: "('m, 'l, 'x, 'v) apimachinery \<Rightarrow> nat option \<Rightarrow> ('m, 'l, 'x, nat option) go_prog" where
  "StripePaymentMethodList_DeepCopy A = copy_pointer SpmListT SpmListCell the_spm_list (StripePaymentMethodList_DeepCopyInto A)"

definition StripeProviderConfigSpec_DeepCopy :: "nat option \<Rightarrow> ('m, 'l, 'x, nat option) go_prog" where
  "StripeProviderConfigSpec_DeepCopy = copy_pointer CfgSpecT CfgSpecCell the_cfg_spec StripeProviderConfigSpec_DeepCopyInto"

definition StripeProviderConfigStatus_DeepCopy :: "('m, 'l, 'x, 'v) apimachinery \<Rightarrow> nat option \<Rightarrow> ('m, 'l, 'x, nat option) go_prog" where
  "StripeProviderConfigStatus_DeepCopy A = copy_pointer CfgStatusT CfgStatusCell the_cfg_status (StripeProviderConfigStatus_DeepCopyInto A)"

definition StripeProviderConfig_DeepCopy :: "('m, 'l, 'x, 'v) apimachinery \<Rightarrow> nat option \<Rightarrow> ('m, 'l, 'x, nat option) go_prog" where
  "StripeProviderConfig_DeepCopy A = copy_pointer CfgT CfgCell the_cfg (StripeProviderConfig_DeepCopyInto A)"

definition StripeProviderConfigList_DeepCopy :: "('m, 'l, 'x, 'v) apimachinery \<Rightarrow> nat option \<Rightarrow> ('m, 'l, 'x, nat option) go_prog" where
  "StripeProviderConfigList_DeepCopy A = copy_pointer CfgListT CfgListCell the_cfg_list (StripeProviderConfigList_DeepCopyInto A)"

definition StripeCustomer_DeepCopyObject ::
  "('m, 'l, 'x, 'v) apimachinery \<Rightarrow> nat option \<Rightarrow> ('m, 'l, 'x, runtime_object option) go_prog" where
  "StripeCustomer_DeepCopyObject A p = do {
     c \<leftarrow> StripeCustomer_DeepCopy A p;
     (case c of Some a \<Rightarrow> ret (Some (ScObject a)) | None \<Rightarrow> ret None)
   }"

definition StripeCustomerList_DeepCopyObject ::
  "('m, 'l, 'x, 'v) apimachinery \<Rightarrow> nat option \<Rightarrow> ('m, 'l, 'x, runtime_object option) go_prog" where
  "StripeCustomerList_DeepCopyObject A p = do {
     c \<leftarrow> StripeCustomerList_DeepCopy A p;
     (case c of Some a \<Rightarrow> ret (Some (ScListObject a)) | None \<Rightarrow> ret None)
   }"

definition StripePaymentMethod_DeepCopyObject ::
  "('m, 'l, 'x, 'v) apimachinery \<Rightarrow> nat option \<Rightarrow> ('m, 'l, 'x, runtime_object option) go_prog" where
  "StripePaymentMethod_DeepCopyObject A p = do {
     c \<leftarrow> StripePaymentMethod_DeepCopy A p;
     (case c of Some a \<Rightarrow> ret (Some (SpmObject a)) | None \<Rightarrow> ret None)
   }"

definition StripePaymentMethodList_DeepCopyObject ::
  "('m, 'l, 'x, 'v) apimachinery \<Rightarrow> nat option \<Rightarrow> ('m, 'l, 'x, runtime_object option) go_prog" where
  "StripePaymentMethodList_DeepCopyObject A p = do {
     c \<leftarrow> StripePaymentMethodList_DeepCopy A p;
     (case c of Some a \<Rightarrow> ret (Some (SpmListObject a)) | None \<Rightarrow> ret None)
   }"

definition StripeProviderConfig_DeepCopyObject ::
  "('m, 'l, 'x, 'v) apimachinery \<Rightarrow> nat option \<Rightarrow> ('m, 'l, 'x, runtime_object option) go_prog" where
  "StripeProviderConfig_DeepCopyObject A p = do {
     c \<leftarrow> StripeProviderConfig_DeepCopy A p;
     (case c of Some a \<Rightarrow> ret (Some (CfgObject a)) | None \<Rightarrow> ret None)
   }"

definition StripeProviderConfigList_DeepCopyObject ::
  "('m, 'l, 'x, 'v) apimachinery \<Rightarrow> nat option \<Rightarrow> ('m, 'l, 'x, runtime_object option) go_prog" where
  "StripeProviderConfigList_DeepCopyObject A p = do {
     c \<leftarrow> StripeProviderConfigList_DeepCopy A p;
     (case c of Some a \<Rightarrow> ret (Some (CfgListObject a)) | None \<Rightarrow> ret None)
   }"

end
