(* ===== verification/CopiedObjects.thy ===== *)
theory CopiedObjects
  imports DeepCopies Samples
begin

text \<open>
  What the structs of \<open>DeepCopies\<close> stand for: their views, which are the values of the other theories, and
  the cells they reach. Every \<open>DeepCopyInto\<close>, and so every \<open>DeepCopy\<close> of an object or a list, is a
  deep copy in the sense of the locale \<open>deep_copy\<close>.
\<close>

section \<open>Views: the values of the other theories\<close>

definition view_setup_intent :: "('m, 'l, 'x) go_heap \<Rightarrow> gsetup_intent \<Rightarrow> setup_intent_status" where
  "view_setup_intent h s = \<lparr>si_ID = g_ID s, si_ClientSecret = g_ClientSecret s, si_Status = g_Status s,
     si_ExpiresAt = map_option (view_time h) (g_ExpiresAt s)\<rparr>"

definition view_instrument :: "('m, 'l, 'x) go_heap \<Rightarrow> ginstrument \<Rightarrow> instrument_details" where
  "view_instrument h s = \<lparr>in_Type = g_Type s, in_Card = view_pointer CardT the_card (\<lambda>_ c. c) h (g_Card s),
     in_USBankAccount = view_pointer BankT the_bank (\<lambda>_ b. b) h (g_USBankAccount s)\<rparr>"

definition view_spm_status :: "('m, 'l, 'x) go_heap \<Rightarrow> gspm_status \<Rightarrow> spm_status" where
  "view_spm_status h s = \<lparr>Phase = g_Phase s, StripeCustomerID = g_StripeCustomerID s,
     StripePaymentMethodID = g_StripePaymentMethodID s,
     SetupIntent = view_pointer SetupIntentT the_setup_intent view_setup_intent h (g_SetupIntent s),
     ConfirmedAt = map_option (view_time h) (g_ConfirmedAt s),
     Instrument = view_pointer InstrumentT the_instrument view_instrument h (g_Instrument s),
     FailureReason = g_FailureReason s, FailureMessage = g_FailureMessage s,
     Conditions = view_conditions h (g_Conditions s), ObservedGeneration = g_ObservedGeneration s\<rparr>"

definition view_sc_status :: "('m, 'l, 'x) go_heap \<Rightarrow> gsc_status \<Rightarrow> sc_status" where
  "view_sc_status h s = \<lparr>sc_StripeCustomerID = gsc_StripeCustomerID s,
     sc_Conditions = view_conditions h (gsc_Conditions s), sc_ObservedGeneration = gsc_ObservedGeneration s\<rparr>"

definition view_cfg_status :: "('m, 'l, 'x) go_heap \<Rightarrow> gcfg_status \<Rightarrow> cfg_status" where
  "view_cfg_status h s = \<lparr>cfg_Conditions = view_conditions h (gcfg_Conditions s),
     cfg_SupportedTaxIDTypes = (case view_pointer TaxTypesT the_tax_types (\<lambda>_ ts. ts) h (gcfg_SupportedTaxIDTypes s) of
        None \<Rightarrow> [] | Some ts \<Rightarrow> ts), cfg_ObservedGeneration = gcfg_ObservedGeneration s\<rparr>"

definition view_spm :: "('m, 'l, 'x, 'v) apimachinery \<Rightarrow> ('m, 'l, 'x) go_heap \<Rightarrow> 'm gspm \<Rightarrow> type_meta \<times> spm" where
  "view_spm A h x = (o_TypeMeta x, \<lparr>spm_meta = meta_view A h (o_ObjectMeta x),
     spm_PaymentMethodRef = pmlr_Name (spms_PaymentMethodRef (o_Spec x)),
     spm_status = view_spm_status h (o_Status x)\<rparr>)"

definition view_sc :: "('m, 'l, 'x, 'v) apimachinery \<Rightarrow> ('m, 'l, 'x) go_heap \<Rightarrow> 'm gsc \<Rightarrow> type_meta \<times> stripe_customer" where
  "view_sc A h x = (o_TypeMeta x, \<lparr>sc_meta = meta_view A h (o_ObjectMeta x),
     sc_BillingAccountRef = balr_Name (scs_BillingAccountRef (o_Spec x)),
     sc_status = view_sc_status h (o_Status x)\<rparr>)"

definition view_cfg :: "('m, 'l, 'x, 'v) apimachinery \<Rightarrow> ('m, 'l, 'x) go_heap \<Rightarrow> 'm gcfg \<Rightarrow> type_meta \<times> provider_config" where
  "view_cfg A h x = (o_TypeMeta x, \<lparr>cfg_meta = meta_view A h (o_ObjectMeta x),
     cfg_PublishableKey = cfgs_PublishableKey (o_Spec x), cfg_APIVersion = cfgs_APIVersion (o_Spec x),
     cfg_status = view_cfg_status h (o_Status x)\<rparr>)"

text \<open>The cells a struct reaches.\<close>

definition refs_setup_intent :: "('m, 'l, 'x) go_heap \<Rightarrow> gsetup_intent \<Rightarrow> address set" where
  "refs_setup_intent h s = (\<lambda>a. (TimeT, a)) ` set_option (g_ExpiresAt s)"

definition refs_instrument :: "('m, 'l, 'x) go_heap \<Rightarrow> ginstrument \<Rightarrow> address set" where
  "refs_instrument h s = (\<lambda>a. (CardT, a)) ` set_option (g_Card s) \<union> (\<lambda>a. (BankT, a)) ` set_option (g_USBankAccount s)"

definition refs_spm_status :: "('m, 'l, 'x) go_heap \<Rightarrow> gspm_status \<Rightarrow> address set" where
  "refs_spm_status h s = refs_pointer SetupIntentT the_setup_intent refs_setup_intent h (g_SetupIntent s) \<union>
     ((\<lambda>a. (TimeT, a)) ` set_option (g_ConfirmedAt s) \<union>
      (refs_pointer InstrumentT the_instrument refs_instrument h (g_Instrument s) \<union>
       refs_conditions (g_Conditions s)))"

definition refs_sc_status :: "('m, 'l, 'x) go_heap \<Rightarrow> gsc_status \<Rightarrow> address set" where
  "refs_sc_status h s = refs_conditions (gsc_Conditions s)"

definition refs_cfg_status :: "('m, 'l, 'x) go_heap \<Rightarrow> gcfg_status \<Rightarrow> address set" where
  "refs_cfg_status h s = refs_conditions (gcfg_Conditions s) \<union>
     (\<lambda>a. (TaxTypesT, a)) ` set_option (gcfg_SupportedTaxIDTypes s)"

definition refs_object ::
  "('m, 'l, 'x, 'v) apimachinery \<Rightarrow> (('m, 'l, 'x) go_heap \<Rightarrow> 't \<Rightarrow> address set) \<Rightarrow> ('m, 'l, 'x) go_heap
    \<Rightarrow> ('m, 's, 't) gobject \<Rightarrow> address set" where
  "refs_object A r h x = meta_refs A h (o_ObjectMeta x) \<union> r h (o_Status x)"

definition view_list ::
  "('m, 'l, 'x, 'v) apimachinery \<Rightarrow> (('m, 'l, 'x) go_heap \<Rightarrow> nat option \<Rightarrow> 'o list option) \<Rightarrow> ('m, 'l, 'x) go_heap
    \<Rightarrow> 'l glist \<Rightarrow> type_meta \<times> 'v \<times> 'o list option" where
  "view_list A v h x = (l_TypeMeta x, list_meta_view A h (l_ListMeta x), v h (l_Items x))"

definition refs_list ::
  "('m, 'l, 'x, 'v) apimachinery \<Rightarrow> (('m, 'l, 'x) go_heap \<Rightarrow> nat option \<Rightarrow> address set) \<Rightarrow> ('m, 'l, 'x) go_heap
    \<Rightarrow> 'l glist \<Rightarrow> address set" where
  "refs_list A r h x = list_meta_refs A h (l_ListMeta x) \<union> r h (l_Items x)"

section \<open>Facts: every DeepCopyInto is a deep copy\<close>

lemma refs_plain_pointer: "refs_pointer t the_T (\<lambda>_ _. {}) h p = (\<lambda>a. (t, a)) ` set_option p"
  by (simp add: refs_pointer_def split: option.split)

lemma view_conditions_pointer:
  "view_conditions h p = (case view_pointer ConditionsT the_conditions (\<lambda>_ cs. cs) h p of None \<Rightarrow> [] | Some cs \<Rightarrow> cs)"
  by (simp add: view_conditions_def view_pointer_def split: option.split)

lemma copy_conditions_deep:
  assumes "apimachinery_ok A L"
  shows "deep_copy (copy_conditions A) (view_pointer ConditionsT the_conditions (\<lambda>_ cs. cs)) (\<lambda>_. refs_conditions)"
proof -
  have "deep_copy (Condition_DeepCopyInto A) (\<lambda>_ c. c) (\<lambda>_ _. {})"
    using assms by (simp add: apimachinery_ok_def)
  from deep_copy_pointer [OF deep_copy_elements [OF this], of the_conditions ConditionsCell ConditionsT]
  show ?thesis
    by (simp add: copy_conditions_def refs_conditions_def [abs_def] refs_plain_pointer [abs_def])
qed

lemma time_deep:
  assumes "apimachinery_ok A L"
  shows "deep_copy (copy_option (Time_DeepCopy A)) (\<lambda>h. map_option (view_time h)) (\<lambda>_ p. (\<lambda>a. (TimeT, a)) ` set_option p)"
proof -
  have "deep_copy (Time_DeepCopy A) view_time (\<lambda>_ a. {(TimeT, a)})"
    using assms by (simp add: apimachinery_ok_def)
  from deep_copy_option [OF this] show ?thesis by (simp add: UNION_singleton_eq_range)
qed

lemma plain_pointer_deep:
  "(\<And>x. the_T (mk x) = x) \<Longrightarrow> deep_copy (copy_pointer t mk the_T ret) (view_pointer t the_T (\<lambda>_ x. x))
     (\<lambda>_ p. (\<lambda>a. (t, a)) ` set_option p)"
proof -
  assume *: "\<And>x. the_T (mk x) = x"
  have "deep_copy (copy_pointer t mk the_T ret) (view_pointer t the_T (\<lambda>_ x. x)) (refs_pointer t the_T (\<lambda>_ _. {}))"
    by (rule deep_copy_pointer [OF deep_copy_plain]) (rule *)
  then show ?thesis by (simp add: refs_plain_pointer [abs_def])
qed


lemma StripeSetupIntentStatus_deep:
  assumes "apimachinery_ok A L"
  shows "deep_copy (StripeSetupIntentStatus_DeepCopyInto A) view_setup_intent refs_setup_intent"
  by (rule deep_copy_struct [OF time_deep [OF assms], where get = g_ExpiresAt
        and put = "\<lambda>s t. s\<lparr>g_ExpiresAt := t\<rparr>" and V = "\<lambda>s t. \<lparr>si_ID = g_ID s,
          si_ClientSecret = g_ClientSecret s, si_Status = g_Status s, si_ExpiresAt = t\<rparr>"])
    (simp_all add: StripeSetupIntentStatus_DeepCopyInto_def view_setup_intent_def refs_setup_intent_def)

lemma StripeInstrumentDetails_deep: "deep_copy StripeInstrumentDetails_DeepCopyInto view_instrument refs_instrument"
  by (rule deep_copy_struct [OF deep_copy_pair [OF plain_pointer_deep [of the_card CardCell CardT]
          plain_pointer_deep [of the_bank BankCell BankT]],
        where get = "\<lambda>s. (g_Card s, g_USBankAccount s)"
        and put = "\<lambda>s p. s\<lparr>g_Card := fst p, g_USBankAccount := snd p\<rparr>"
        and V = "\<lambda>s v. \<lparr>in_Type = g_Type s, in_Card = fst v, in_USBankAccount = snd v\<rparr>"])
    (simp_all add: StripeInstrumentDetails_DeepCopyInto_def copy_pair_def view_instrument_def refs_instrument_def)

interpretation instrument: deep_copy StripeInstrumentDetails_DeepCopyInto view_instrument refs_instrument
  by (rule StripeInstrumentDetails_deep)

text \<open>A recorded instrument can be replaced or changed without touching a copy of it.\<close>

lemma instrument_snapshot:
  assumes "run_state (StripeInstrumentDetails_DeepCopyInto s) h = (y, h')" and "allocated h (refs_instrument h s)"
    and "\<And>r. next_address h \<le> snd r \<Longrightarrow> snd r < next_address h' \<Longrightarrow> cells g r = cells h' r"
  shows "view_instrument g y = view_instrument h s"
  using assms by (rule instrument.snapshot)

lemma StripePaymentMethodStatus_deep:
  assumes "apimachinery_ok A L"
  shows "deep_copy (StripePaymentMethodStatus_DeepCopyInto A) view_spm_status refs_spm_status"
  by (rule deep_copy_struct [OF deep_copy_pair [OF deep_copy_pointer [OF StripeSetupIntentStatus_deep [OF assms],
            of the_setup_intent SetupIntentCell SetupIntentT] deep_copy_pair [OF time_deep [OF assms]
          deep_copy_pair [OF deep_copy_pointer [OF StripeInstrumentDetails_deep, of the_instrument InstrumentCell
            InstrumentT] copy_conditions_deep [OF assms]]]],
        where get = "\<lambda>s. (g_SetupIntent s, g_ConfirmedAt s, g_Instrument s, g_Conditions s)"
        and put = "\<lambda>s p. s\<lparr>g_SetupIntent := fst p, g_ConfirmedAt := fst (snd p),
          g_Instrument := fst (snd (snd p)), g_Conditions := snd (snd (snd p))\<rparr>"
        and V = "\<lambda>s v. \<lparr>Phase = g_Phase s, StripeCustomerID = g_StripeCustomerID s,
          StripePaymentMethodID = g_StripePaymentMethodID s, SetupIntent = fst v, ConfirmedAt = fst (snd v),
          Instrument = fst (snd (snd v)), FailureReason = g_FailureReason s, FailureMessage = g_FailureMessage s,
          Conditions = (case snd (snd (snd v)) of None \<Rightarrow> [] | Some cs \<Rightarrow> cs),
          ObservedGeneration = g_ObservedGeneration s\<rparr>"])
    (simp_all add: StripePaymentMethodStatus_DeepCopyInto_def copy_pair_def view_spm_status_def
      refs_spm_status_def view_conditions_pointer)

lemma StripeCustomerStatus_deep:
  assumes "apimachinery_ok A L"
  shows "deep_copy (StripeCustomerStatus_DeepCopyInto A) view_sc_status refs_sc_status"
  by (rule deep_copy_struct [OF copy_conditions_deep [OF assms], where get = gsc_Conditions
        and put = "\<lambda>s p. s\<lparr>gsc_Conditions := p\<rparr>"
        and V = "\<lambda>s v. \<lparr>sc_StripeCustomerID = gsc_StripeCustomerID s,
          sc_Conditions = (case v of None \<Rightarrow> [] | Some cs \<Rightarrow> cs), sc_ObservedGeneration = gsc_ObservedGeneration s\<rparr>"])
    (simp_all add: StripeCustomerStatus_DeepCopyInto_def view_sc_status_def refs_sc_status_def view_conditions_pointer)

lemma StripeProviderConfigStatus_deep:
  assumes "apimachinery_ok A L"
  shows "deep_copy (StripeProviderConfigStatus_DeepCopyInto A) view_cfg_status refs_cfg_status"
  by (rule deep_copy_struct [OF deep_copy_pair [OF copy_conditions_deep [OF assms]
          plain_pointer_deep [of the_tax_types TaxTypesCell TaxTypesT]],
        where get = "\<lambda>s. (gcfg_Conditions s, gcfg_SupportedTaxIDTypes s)"
        and put = "\<lambda>s p. s\<lparr>gcfg_Conditions := fst p, gcfg_SupportedTaxIDTypes := snd p\<rparr>"
        and V = "\<lambda>s v. \<lparr>cfg_Conditions = (case fst v of None \<Rightarrow> [] | Some cs \<Rightarrow> cs),
          cfg_SupportedTaxIDTypes = (case snd v of None \<Rightarrow> [] | Some ts \<Rightarrow> ts),
          cfg_ObservedGeneration = gcfg_ObservedGeneration s\<rparr>"])
    (simp_all add: StripeProviderConfigStatus_DeepCopyInto_def copy_pair_def view_cfg_status_def
      refs_cfg_status_def view_conditions_pointer)

subsection \<open>Objects and lists\<close>

lemma object_deep:
  assumes "apimachinery_ok A L" and "deep_copy c v r"
    and "\<And>x. D x = do { m \<leftarrow> ObjectMeta_DeepCopyInto A (o_ObjectMeta x); st \<leftarrow> c (o_Status x);
       ret (x\<lparr>o_ObjectMeta := m, o_Status := st\<rparr>) }"
    and "\<And>h x. W h x = V (o_TypeMeta x) (o_Spec x) (meta_view A h (o_ObjectMeta x)) (v h (o_Status x))"
  shows "deep_copy D W (refs_object A r)"
proof -
  have "deep_copy (ObjectMeta_DeepCopyInto A) (meta_view A) (meta_refs A)"
    using assms(1) by (simp add: apimachinery_ok_def)
  note both = deep_copy_pair [OF this assms(2)]
  show ?thesis
    by (rule deep_copy_struct [OF both, where get = "\<lambda>x. (o_ObjectMeta x, o_Status x)"
          and put = "\<lambda>x p. x\<lparr>o_ObjectMeta := fst p, o_Status := snd p\<rparr>"
          and V = "\<lambda>x p. V (o_TypeMeta x) (o_Spec x) (fst p) (snd p)"])
      (simp_all add: assms(3,4) copy_pair_def refs_object_def)
qed

lemma list_deep:
  assumes "apimachinery_ok A L" and "deep_copy c v r" and "\<And>x. the_T (mk x) = x"
    and "\<And>x. D x = do { m \<leftarrow> ListMeta_DeepCopyInto A (l_ListMeta x);
       is \<leftarrow> copy_pointer t mk the_T (copy_elements c) (l_Items x); ret (x\<lparr>l_ListMeta := m, l_Items := is\<rparr>) }"
  shows "deep_copy D (view_list A (view_pointer t the_T (\<lambda>h. map (v h))))
    (refs_list A (refs_pointer t the_T (\<lambda>h xs. \<Union>x\<in>set xs. r h x)))"
proof -
  have "deep_copy (ListMeta_DeepCopyInto A) (list_meta_view A) (list_meta_refs A)"
    using assms(1) by (simp add: apimachinery_ok_def)
  note both = deep_copy_pair [OF this deep_copy_pointer [where mk = mk and the_T = the_T and t = t,
        OF deep_copy_elements [OF assms(2)] assms(3)]]
  show ?thesis
    by (rule deep_copy_struct [OF both, where get = "\<lambda>x. (l_ListMeta x, l_Items x)"
          and put = "\<lambda>x p. x\<lparr>l_ListMeta := fst p, l_Items := snd p\<rparr>"
          and V = "\<lambda>x p. (l_TypeMeta x, fst p, snd p)"])
      (simp_all add: assms(4) copy_pair_def refs_list_def view_list_def)
qed

lemma StripePaymentMethod_deep:
  assumes "apimachinery_ok A L"
  shows "deep_copy (StripePaymentMethod_DeepCopyInto A) (view_spm A) (refs_object A refs_spm_status)"
  by (rule object_deep [OF assms StripePaymentMethodStatus_deep [OF assms], where V = "\<lambda>tm s m st.
      (tm, \<lparr>spm_meta = m, spm_PaymentMethodRef = pmlr_Name (spms_PaymentMethodRef s), spm_status = st\<rparr>)"])
    (simp_all add: StripePaymentMethod_DeepCopyInto_def view_spm_def)

lemma StripeCustomer_deep:
  assumes "apimachinery_ok A L"
  shows "deep_copy (StripeCustomer_DeepCopyInto A) (view_sc A) (refs_object A refs_sc_status)"
  by (rule object_deep [OF assms StripeCustomerStatus_deep [OF assms], where V = "\<lambda>tm s m st.
      (tm, \<lparr>sc_meta = m, sc_BillingAccountRef = balr_Name (scs_BillingAccountRef s), sc_status = st\<rparr>)"])
    (simp_all add: StripeCustomer_DeepCopyInto_def view_sc_def)

lemma StripeProviderConfig_deep:
  assumes "apimachinery_ok A L"
  shows "deep_copy (StripeProviderConfig_DeepCopyInto A) (view_cfg A) (refs_object A refs_cfg_status)"
  by (rule object_deep [OF assms StripeProviderConfigStatus_deep [OF assms], where V = "\<lambda>tm s m st.
      (tm, \<lparr>cfg_meta = m, cfg_PublishableKey = cfgs_PublishableKey s, cfg_APIVersion = cfgs_APIVersion s,
        cfg_status = st\<rparr>)"])
    (simp_all add: StripeProviderConfig_DeepCopyInto_def view_cfg_def)

text \<open>The pointers to objects: what \<open>DeepCopy\<close> takes and answers.\<close>

abbreviation view_spm_at :: "('m, 'l, 'x, 'v) apimachinery \<Rightarrow> ('m, 'l, 'x) go_heap \<Rightarrow> nat option \<Rightarrow> (type_meta \<times> spm) option" where
  "view_spm_at A \<equiv> view_pointer SpmT the_spm (view_spm A)"

abbreviation refs_spm_at :: "('m, 'l, 'x, 'v) apimachinery \<Rightarrow> ('m, 'l, 'x) go_heap \<Rightarrow> nat option \<Rightarrow> address set" where
  "refs_spm_at A \<equiv> refs_pointer SpmT the_spm (refs_object A refs_spm_status)"

abbreviation view_sc_at :: "('m, 'l, 'x, 'v) apimachinery \<Rightarrow> ('m, 'l, 'x) go_heap \<Rightarrow> nat option \<Rightarrow> (type_meta \<times> stripe_customer) option" where
  "view_sc_at A \<equiv> view_pointer ScT the_sc (view_sc A)"

abbreviation refs_sc_at :: "('m, 'l, 'x, 'v) apimachinery \<Rightarrow> ('m, 'l, 'x) go_heap \<Rightarrow> nat option \<Rightarrow> address set" where
  "refs_sc_at A \<equiv> refs_pointer ScT the_sc (refs_object A refs_sc_status)"

abbreviation view_cfg_at :: "('m, 'l, 'x, 'v) apimachinery \<Rightarrow> ('m, 'l, 'x) go_heap \<Rightarrow> nat option \<Rightarrow> (type_meta \<times> provider_config) option" where
  "view_cfg_at A \<equiv> view_pointer CfgT the_cfg (view_cfg A)"

abbreviation refs_cfg_at :: "('m, 'l, 'x, 'v) apimachinery \<Rightarrow> ('m, 'l, 'x) go_heap \<Rightarrow> nat option \<Rightarrow> address set" where
  "refs_cfg_at A \<equiv> refs_pointer CfgT the_cfg (refs_object A refs_cfg_status)"

lemma object_DeepCopy_deep:
  assumes "apimachinery_ok A L"
  shows "deep_copy (StripePaymentMethod_DeepCopy A) (view_spm_at A) (refs_spm_at A)"
    and "deep_copy (StripeCustomer_DeepCopy A) (view_sc_at A) (refs_sc_at A)"
    and "deep_copy (StripeProviderConfig_DeepCopy A) (view_cfg_at A) (refs_cfg_at A)"
  unfolding StripePaymentMethod_DeepCopy_def StripeCustomer_DeepCopy_def StripeProviderConfig_DeepCopy_def
  by (intro deep_copy_pointer StripePaymentMethod_deep [OF assms] StripeCustomer_deep [OF assms]
      StripeProviderConfig_deep [OF assms], simp)+

section \<open>Properties\<close>

text \<open>
  C27 (type): every generated copy is deep: for each of the three kinds of object and their lists, DeepCopy
  allocates all it answers with, shows the same value, changes no cell that was there, and shares no
  cell with its argument; so whatever is then done to the cells that were there, the copy keeps its value.
\<close>

theorem DeepCopies_are_deep:
  assumes "apimachinery_ok A L"
  shows "deep_copy (StripePaymentMethod_DeepCopy A) (view_spm_at A) (refs_spm_at A) \<and>
    deep_copy (StripeCustomer_DeepCopy A) (view_sc_at A) (refs_sc_at A) \<and>
    deep_copy (StripeProviderConfig_DeepCopy A) (view_cfg_at A) (refs_cfg_at A) \<and>
    deep_copy (StripePaymentMethodList_DeepCopy A)
      (view_pointer SpmListT the_spm_list (view_list A (view_pointer SpmsT the_spms (\<lambda>h. map (view_spm A h)))))
      (refs_pointer SpmListT the_spm_list (refs_list A (refs_pointer SpmsT the_spms
        (\<lambda>h xs. \<Union>x\<in>set xs. refs_object A refs_spm_status h x)))) \<and>
    deep_copy (StripeCustomerList_DeepCopy A)
      (view_pointer ScListT the_sc_list (view_list A (view_pointer ScsT the_scs (\<lambda>h. map (view_sc A h)))))
      (refs_pointer ScListT the_sc_list (refs_list A (refs_pointer ScsT the_scs
        (\<lambda>h xs. \<Union>x\<in>set xs. refs_object A refs_sc_status h x)))) \<and>
    deep_copy (StripeProviderConfigList_DeepCopy A)
      (view_pointer CfgListT the_cfg_list (view_list A (view_pointer CfgsT the_cfgs (\<lambda>h. map (view_cfg A h)))))
      (refs_pointer CfgListT the_cfg_list (refs_list A (refs_pointer CfgsT the_cfgs
        (\<lambda>h xs. \<Union>x\<in>set xs. refs_object A refs_cfg_status h x))))"
  unfolding StripePaymentMethodList_DeepCopy_def StripeCustomerList_DeepCopy_def StripeProviderConfigList_DeepCopy_def
  by (intro conjI object_DeepCopy_deep [OF assms] deep_copy_pointer
      list_deep [OF assms StripePaymentMethod_deep [OF assms], where mk = SpmsCell]
      list_deep [OF assms StripeCustomer_deep [OF assms], where mk = ScsCell]
      list_deep [OF assms StripeProviderConfig_deep [OF assms], where mk = CfgsCell])
    (simp_all add: StripePaymentMethodList_DeepCopyInto_def StripeCustomerList_DeepCopyInto_def
      StripeProviderConfigList_DeepCopyInto_def)

section \<open>Witnesses\<close>

definition sample_apimachinery :: "(object_meta, unit, unit, unit) apimachinery" where
  "sample_apimachinery = \<lparr>ObjectMeta_DeepCopyInto = State_Monad.return, meta_view = (\<lambda>_ m. m), meta_refs = (\<lambda>_ _. {}),
     meta_Generation = Generation, ListMeta_DeepCopyInto = State_Monad.return, list_meta_view = (\<lambda>_ m. m),
     list_meta_refs = (\<lambda>_ _. {}), Time_DeepCopy = (\<lambda>a. do { c \<leftarrow> load TimeT a; alloc TimeT (TimeCell (the_time c)) }),
     Condition_DeepCopyInto = State_Monad.return,
     SetStatusCondition_in_place = (\<lambda>p c. do {
       cs \<leftarrow> State (\<lambda>h. (view_conditions h p, h));
       b \<leftarrow> alloc ConditionsT (ConditionsCell (SetStatusCondition sample_lib cs c));
       ret (Some b)
     })\<rparr>"

lemma sample_apimachinery_ok: "apimachinery_ok sample_apimachinery sample_lib"
proof -
  have time: "deep_copy (\<lambda>a. do { c \<leftarrow> load TimeT a; alloc TimeT (TimeCell (the_time c)) }) view_time (\<lambda>_ a. {(TimeT, a)})"
    by unfold_locales (auto simp: view_time_def extends_def new_between_def)
  show ?thesis
    unfolding apimachinery_ok_def
    by (auto simp: sample_apimachinery_def time deep_copy_plain view_conditions_def refs_conditions_def)
qed

definition sample_heap :: "(object_meta, unit, unit) go_heap" where
  "sample_heap = \<lparr>next_address = 2, cells = (\<lambda>_. LibCell ())((SpmT, 0) := SpmCell \<lparr>o_TypeMeta = ('''', ''''),
       o_ObjectMeta = new_object_meta ''org'' ''card-1'', o_Spec = \<lparr>spms_PaymentMethodRef = \<lparr>pmlr_Name = ''card-1''\<rparr>\<rparr>,
       o_Status = \<lparr>g_Phase = AwaitingConfirmation, g_StripeCustomerID = ''cus_1'', g_StripePaymentMethodID = '''',
         g_SetupIntent = Some 1, g_ConfirmedAt = None, g_Instrument = None, g_FailureReason = '''',
         g_FailureMessage = '''', g_Conditions = None, g_ObservedGeneration = 0\<rparr>\<rparr>,
     (SetupIntentT, 1) := SetupIntentCell \<lparr>g_ID = ''seti_0'', g_ClientSecret = ''secret'', g_Status = '''',
       g_ExpiresAt = None\<rparr>)\<rparr>"

definition sample_view :: spm where
  "sample_view = \<lparr>spm_meta = new_object_meta ''org'' ''card-1'', spm_PaymentMethodRef = ''card-1'',
     spm_status = empty_spm_status\<lparr>Phase := AwaitingConfirmation, StripeCustomerID := ''cus_1'',
       SetupIntent := Some \<lparr>si_ID = ''seti_0'', si_ClientSecret = ''secret'', si_Status = '''', si_ExpiresAt = None\<rparr>\<rparr>\<rparr>"

lemma sample_heap_view:
  "view_spm_at sample_apimachinery sample_heap (Some 0) = Some (('''', ''''), sample_view)"
  "allocated sample_heap (refs_spm_at sample_apimachinery sample_heap (Some 0))"
  by (simp_all add: sample_heap_def sample_view_def sample_apimachinery_def view_pointer_def view_spm_def
      view_spm_status_def view_setup_intent_def view_conditions_def empty_spm_status_def allocated_def
      refs_pointer_def refs_object_def refs_spm_status_def refs_setup_intent_def refs_conditions_def)

theorem DeepCopies_are_deep_witness:
  "\<exists>base h'. run_state (StripePaymentMethod_DeepCopy sample_apimachinery (Some 0)) sample_heap = (base, h') \<and>
     view_spm_at sample_apimachinery h' base = Some (('''', ''''), sample_view) \<and>
     refs_spm_at sample_apimachinery h' (Some 0) \<inter> refs_spm_at sample_apimachinery h' base = {}"
proof -
  obtain base h' where run: "run_state (StripePaymentMethod_DeepCopy sample_apimachinery (Some 0)) sample_heap = (base, h')"
    by fastforce
  note deep = DeepCopies_are_deep [OF sample_apimachinery_ok, THEN conjunct1]
  from deep_copy.copies [OF deep run sample_heap_view(2)] deep_copy.original(2) [OF deep run sample_heap_view(2)]
    sample_heap_view(1) run show ?thesis by auto
qed

end
