(* ===== verification/Editing.thy ===== *)
theory Editing
  imports CopiedObjects
begin

text \<open>
  An object of one of the kinds, changed in place through a pointer to it, as the code does between the
  \<open>DeepCopy\<close> and the patch. The locale \<open>edited_object\<close> has what such a kind promises (where its status
  keeps the conditions, which cells a status reaches); in it, \<open>edits\<close> says what a piece of code does
  to the object's status and that it stays away from a set of cells, and its rules follow the code.
\<close>

section \<open>Assignments through the pointer\<close>

text \<open>The object is at \<open>a\<close>, in a cell with the tag \<open>T\<close> that \<open>mk\<close> makes and \<open>the_o\<close> reads.\<close>

definition modify_object ::
  "tag \<Rightarrow> (('m, 'l, 'x) cell \<Rightarrow> ('m, 's, 't) gobject) \<Rightarrow> (('m, 's, 't) gobject \<Rightarrow> ('m, 'l, 'x) cell) \<Rightarrow> nat
    \<Rightarrow> ('t \<Rightarrow> 't) \<Rightarrow> ('m, 'l, 'x, unit) go_prog" where
  "modify_object T the_o mk a u = do {
     c \<leftarrow> load T a;
     store T a (mk ((the_o c)\<lparr>o_Status := u (o_Status (the_o c))\<rparr>))
   }"

text \<open>\<open>apimeta.SetStatusCondition(&obj.Status.Conditions, c)\<close>, where \<open>c\<close> has the object's generation.\<close>

definition set_object_condition ::
  "tag \<Rightarrow> (('m, 'l, 'x) cell \<Rightarrow> ('m, 's, 't) gobject) \<Rightarrow> (('m, 's, 't) gobject \<Rightarrow> ('m, 'l, 'x) cell)
    \<Rightarrow> ('t \<Rightarrow> nat option) \<Rightarrow> (nat option \<Rightarrow> 't \<Rightarrow> 't) \<Rightarrow> ('m, 'l, 'x, 'v) apimachinery \<Rightarrow> nat
    \<Rightarrow> (int \<Rightarrow> condition) \<Rightarrow> ('m, 'l, 'x, unit) go_prog" where
  "set_object_condition T the_o mk get put A a c = do {
     x \<leftarrow> load T a;
     cs \<leftarrow> SetStatusCondition_in_place A (get (o_Status (the_o x))) (c (meta_Generation A (o_ObjectMeta (the_o x))));
     modify_object T the_o mk a (put cs)
   }"

text \<open>\<open>obj.Status.ObservedGeneration = obj.Generation\<close>\<close>

definition observe_object ::
  "tag \<Rightarrow> (('m, 'l, 'x) cell \<Rightarrow> ('m, 's, 't) gobject) \<Rightarrow> (('m, 's, 't) gobject \<Rightarrow> ('m, 'l, 'x) cell)
    \<Rightarrow> (int \<Rightarrow> 't \<Rightarrow> 't) \<Rightarrow> ('m, 'l, 'x, 'v) apimachinery \<Rightarrow> nat \<Rightarrow> ('m, 'l, 'x, unit) go_prog" where
  "observe_object T the_o mk put A a = do {
     x \<leftarrow> load T a;
     modify_object T the_o mk a (put (meta_Generation A (o_ObjectMeta (the_o x))))
   }"

text \<open>\<open>base := obj.DeepCopy()\<close>, then the assignments; \<open>client.MergeFrom(base)\<close> compares the two.\<close>

definition with_copy ::
  "(nat option \<Rightarrow> ('m, 'l, 'x, nat option) go_prog) \<Rightarrow> nat \<Rightarrow> ('m, 'l, 'x, unit) go_prog \<Rightarrow> ('m, 'l, 'x, nat option) go_prog" where
  "with_copy D a p = do {
     base \<leftarrow> D (Some a);
     _ \<leftarrow> p;
     ret base
   }"

section \<open>Facts on metadata and conditions\<close>

lemma meta_frame:
  assumes "apimachinery_ok A L" and "\<And>r. fst r = LibT \<Longrightarrow> snd r < next_address h \<Longrightarrow> cells h' r = cells h r"
    and "\<forall>r\<in>meta_refs A h m. snd r < next_address h"
  shows "meta_view A h' m = meta_view A h m" and "meta_refs A h' m = meta_refs A h m"
proof -
  have deep: "deep_copy (ObjectMeta_DeepCopyInto A) (meta_view A) (meta_refs A)"
    and "meta_refs A h m \<subseteq> {LibT} \<times> UNIV"
    using assms(1) by (simp_all add: apimachinery_ok_def)
  then have "cells h' r = cells h r" if "r \<in> meta_refs A h m" for r
    using that assms(2) [of r] assms(3) by auto
  from deep_copy.frame [OF deep this] show "meta_view A h' m = meta_view A h m" "meta_refs A h' m = meta_refs A h m"
    by simp_all
qed

lemma SetStatusCondition_in_place_ok:
  assumes "apimachinery_ok A L" and "run_state (SetStatusCondition_in_place A p c) h = (q, h')"
    and "allocated h (refs_conditions p)"
  shows "next_address h \<le> next_address h'"
    and "view_conditions h' q = SetStatusCondition L (view_conditions h p) c"
    and "snd r < next_address h \<Longrightarrow> r \<notin> refs_conditions p \<Longrightarrow> cells h' r = cells h r"
    and "r \<in> refs_conditions q \<Longrightarrow> r \<in> refs_conditions p \<or> next_address h \<le> snd r \<and> snd r < next_address h'"
  using assms unfolding apimachinery_ok_def by blast+

text \<open>What an edit reaches, it reached before, or it is new: not a cell of the copy.\<close>

lemma refs_stay_apart:
  fixes n n' :: nat
  assumes "\<forall>r\<in>insert p (M \<union> R). snd r < n \<and> snd r \<notin> Z" and "\<forall>z\<in>Z. z < n" and "n \<le> n'"
    and "\<forall>r\<in>R'. r \<in> R \<or> n \<le> snd r \<and> snd r < n'" and "r \<in> insert p (M \<union> R')"
  shows "snd r < n' \<and> snd r \<notin> Z"
proof (cases "r \<in> insert p (M \<union> R)")
  case True
  with assms(1,3) show ?thesis by (meson order_less_le_trans)
next
  case False
  with assms(4,5) have "n \<le> snd r" "snd r < n'" by auto
  with assms(2) show ?thesis by (auto simp: not_le [symmetric])
qed

section \<open>The interface of a kind\<close>

locale edited_object =
  fixes T :: tag
    and the_o :: "('m, 'l, 'x) cell \<Rightarrow> ('m, 's, 't) gobject"
    and mk :: "('m, 's, 't) gobject \<Rightarrow> ('m, 'l, 'x) cell"
    and view_status :: "('m, 'l, 'x) go_heap \<Rightarrow> 't \<Rightarrow> 'u"
    and refs_status :: "('m, 'l, 'x) go_heap \<Rightarrow> 't \<Rightarrow> address set"
    and get :: "'t \<Rightarrow> nat option"
    and put :: "nat option \<Rightarrow> 't \<Rightarrow> 't"
    and conditions :: "'u \<Rightarrow> condition list"
    and with_conditions :: "condition list \<Rightarrow> 'u \<Rightarrow> 'u"
  assumes cell: "the_o (mk x) = x"
    and tag: "T \<noteq> LibT" "T \<noteq> ConditionsT"
    and frame: "(\<And>r. r \<in> refs_status h st \<Longrightarrow> cells h' r = cells h r) \<Longrightarrow>
      view_status h' st = view_status h st \<and> refs_status h' st = refs_status h st"
    and tags: "r \<in> refs_status h st \<Longrightarrow> fst r \<noteq> T \<and> fst r \<noteq> LibT"
    and put_get: "put (get st) st = st"
    and view_put: "view_status h (put q st) = with_conditions (view_conditions h q) (view_status h (put None st))"
    and refs_put: "refs_status h (put q st) = refs_status h (put None st) \<union> refs_conditions q"
    and refs_none: "r \<in> refs_status h (put None st) \<Longrightarrow> fst r \<noteq> ConditionsT"
    and conditions_with: "conditions (with_conditions cs v) = cs"
    and with_twice: "with_conditions cs (with_conditions cs' v) = with_conditions cs v"
begin

text \<open>
  The object at \<open>a\<close> has the type, the metadata, the spec and the status \<open>v\<close>, and reaches none of the
  cells with a number in \<open>Z\<close>, which will be those of the copy.
\<close>

definition editing :: "('m, 'l, 'x, 'v) apimachinery \<Rightarrow> nat set \<Rightarrow> nat \<Rightarrow> ('m, 'l, 'x) go_heap \<Rightarrow> type_meta \<Rightarrow> object_meta \<Rightarrow> 's \<Rightarrow> 'u \<Rightarrow> bool" where
  "editing A Z a h tm m s v \<longleftrightarrow> (\<exists>gm st. the_o (cells h (T, a)) = \<lparr>o_TypeMeta = tm, o_ObjectMeta = gm, o_Spec = s, o_Status = st\<rparr> \<and>
     m = meta_view A h gm \<and> v = view_status h st \<and>
     (\<forall>r\<in>insert (T, a) (meta_refs A h gm \<union> refs_status h st). snd r < next_address h \<and> snd r \<notin> Z) \<and>
     (\<forall>n\<in>Z. n < next_address h))"

text \<open>The function is given the object's generation.\<close>

definition edits :: "('m, 'l, 'x, 'v) apimachinery \<Rightarrow> nat set \<Rightarrow> nat \<Rightarrow> (int \<Rightarrow> 'u \<Rightarrow> 'u) \<Rightarrow> ('m, 'l, 'x, 'y) go_prog \<Rightarrow> bool" where
  "edits A Z a f p \<longleftrightarrow> (\<forall>h tm m s v y h'. editing A Z a h tm m s v \<and> run_state p h = (y, h') \<longrightarrow>
     editing A Z a h' tm m s (f (Generation m) v) \<and> (\<forall>r. snd r \<in> Z \<longrightarrow> cells h' r = cells h r))"

lemma editsD:
  assumes "edits A Z a f p" and "editing A Z a h tm m s v" and "run_state p h = (y, h')"
  shows "editing A Z a h' tm m s (f (Generation m) v)" and "snd r \<in> Z \<Longrightarrow> cells h' r = cells h r"
  using assms unfolding edits_def by blast+

lemma edits_ret: "edits A Z a (\<lambda>_ v. v) (ret y)"
  by (simp add: edits_def)

lemma edits_bind:
  assumes "edits A Z a f p" and "\<And>y. edits A Z a g (k y)"
  shows "edits A Z a (\<lambda>n v. g n (f n v)) (State_Monad.bind p k)"
  unfolding edits_def
proof (intro allI impI, elim conjE)
  fix h :: "('m, 'l, 'x) go_heap" and tm m s v y h'
  assume e: "editing A Z a h tm m s v" and run: "run_state (State_Monad.bind p k) h = (y, h')"
  obtain z h1 where 1: "run_state p h = (z, h1)" by fastforce
  with run have 2: "run_state (k z) h1 = (y, h')" by simp
  note p = editsD [OF assms(1) e 1]
  from editsD [OF assms(2) p(1) 2] p(2)
  show "editing A Z a h' tm m s (g (Generation m) (f (Generation m) v)) \<and> (\<forall>r. snd r \<in> Z \<longrightarrow> cells h' r = cells h r)"
    by simp
qed

lemma edits_if: "(b \<Longrightarrow> edits A Z a f p) \<Longrightarrow> (\<not> b \<Longrightarrow> edits A Z a g q) \<Longrightarrow>
    edits A Z a (if b then f else g) (if b then p else q)"
  by simp

lemma edits_eq: "edits A Z a f p \<Longrightarrow> (\<And>n v. f n v = g n v) \<Longrightarrow> edits A Z a g p"
  by (simp add: edits_def)

text \<open>
  The shape of a step: it puts a status into the object \<open>b\<close>, whatever else it writes being new or a part
  of the status.
\<close>

definition puts_status ::
  "nat \<Rightarrow> ('m, 'l, 'x) go_heap \<Rightarrow> ('m, 'l, 'x) go_heap \<Rightarrow> ('m, 's, 't) gobject \<Rightarrow> ('u \<Rightarrow> 'u) \<Rightarrow> bool" where
  "puts_status a h h' b f \<longleftrightarrow> next_address h \<le> next_address h' \<and>
     (\<forall>r. snd r < next_address h \<longrightarrow> r \<noteq> (T, a) \<longrightarrow> r \<notin> refs_status h (o_Status b) \<longrightarrow> cells h' r = cells h r) \<and>
     (\<exists>st'. the_o (cells h' (T, a)) = b\<lparr>o_Status := st'\<rparr> \<and>
        view_status h' st' = f (view_status h (o_Status b)) \<and>
        (\<forall>r\<in>refs_status h' st'. r \<in> refs_status h (o_Status b) \<or>
          next_address h \<le> snd r \<and> snd r < next_address h'))"

lemma puts_statusI:
  assumes "next_address h \<le> next_address h'"
    and "\<And>r. snd r < next_address h \<Longrightarrow> r \<noteq> (T, a) \<Longrightarrow> r \<notin> refs_status h (o_Status b) \<Longrightarrow> cells h' r = cells h r"
    and "the_o (cells h' (T, a)) = b\<lparr>o_Status := st'\<rparr>"
    and "view_status h' st' = f (view_status h (o_Status b))"
    and "\<And>r. r \<in> refs_status h' st' \<Longrightarrow> r \<in> refs_status h (o_Status b) \<or>
      next_address h \<le> snd r \<and> snd r < next_address h'"
  shows "puts_status a h h' b f"
  using assms unfolding puts_status_def by blast

lemma not_object [simp]: "r \<in> refs_status h st \<Longrightarrow> r \<noteq> (T, a)"
  using tags by fastforce

lemma edits_step:
  fixes p :: "('m, 'l, 'x, 'y) go_prog" and A :: "('m, 'l, 'x, 'v) apimachinery"
  assumes ok: "apimachinery_ok A L"
    and step: "\<And>h h' y b st. run_state p h = (y, h') \<Longrightarrow> b = the_o (cells h (T, a)) \<Longrightarrow> st = o_Status b \<Longrightarrow>
      allocated h (refs_status h st) \<Longrightarrow> a < next_address h \<Longrightarrow>
      puts_status a h h' b (f (meta_Generation A (o_ObjectMeta b)))"
  shows "edits A Z a f p"
  unfolding edits_def
proof (intro allI impI, elim conjE)
  fix h h' :: "('m, 'l, 'x) go_heap" and tm m s v y
  assume run: "run_state p h = (y, h')" and "editing A Z a h tm m s v"
  then obtain gm st where o: "the_o (cells h (T, a)) = \<lparr>o_TypeMeta = tm, o_ObjectMeta = gm, o_Spec = s, o_Status = st\<rparr>"
    and v: "m = meta_view A h gm" "v = view_status h st"
    and al: "\<forall>r\<in>insert (T, a) (meta_refs A h gm \<union> refs_status h st). snd r < next_address h \<and> snd r \<notin> Z"
    and Z: "\<forall>n\<in>Z. n < next_address h"
    unfolding editing_def by blast
  have "allocated h (refs_status h st)" "a < next_address h" using al by (simp_all add: allocated_def)
  from step [OF run refl refl, unfolded o, simplified, OF this, unfolded puts_status_def] obtain st' where
    grow: "next_address h \<le> next_address h'"
    and same: "\<And>r. snd r < next_address h \<Longrightarrow> r \<noteq> (T, a) \<Longrightarrow> r \<notin> refs_status h st \<Longrightarrow> cells h' r = cells h r"
    and o': "the_o (cells h' (T, a)) = \<lparr>o_TypeMeta = tm, o_ObjectMeta = gm, o_Spec = s, o_Status = st'\<rparr>"
    and st': "view_status h' st' = f (meta_Generation A gm) (view_status h st)"
    and refs: "\<forall>r\<in>refs_status h' st'. r \<in> refs_status h st \<or> next_address h \<le> snd r \<and> snd r < next_address h'"
    by auto
  have lib: "cells h' r = cells h r" if "fst r = LibT" "snd r < next_address h" for r
  proof (rule same [OF that(2)])
    show "r \<noteq> (T, a)" using that(1) tag(1) by auto
    show "r \<notin> refs_status h st" using that(1) tags by blast
  qed
  have meta: "meta_view A h' gm = meta_view A h gm" "meta_refs A h' gm = meta_refs A h gm"
    using meta_frame [OF ok lib] al by simp_all
  have gen: "Generation (meta_view A h gm) = meta_Generation A gm" using ok by (simp add: apimachinery_ok_def)
  have here: "snd r < next_address h' \<and> snd r \<notin> Z"
    if "r \<in> insert (T, a) (meta_refs A h' gm \<union> refs_status h' st')" for r
    by (rule refs_stay_apart [OF al Z grow refs that [unfolded meta(2)]])
  moreover have "cells h' r = cells h r" if "snd r \<in> Z" for r
  proof (rule same)
    show "snd r < next_address h" using that Z by blast
    show "r \<noteq> (T, a)" "r \<notin> refs_status h st" using that al by auto
  qed
  moreover have "\<forall>n\<in>Z. n < next_address h'" using Z grow by (meson order_less_le_trans)
  ultimately show "editing A Z a h' tm m s (f (Generation m) v) \<and> (\<forall>r. snd r \<in> Z \<longrightarrow> cells h' r = cells h r)"
    unfolding editing_def
    by (intro conjI exI [of _ gm] exI [of _ st'] o' ballI here) (simp_all add: v st' meta gen)
qed

lemma edits_modify:
  assumes ok: "apimachinery_ok A L" and "\<And>h st. view_status h (u st) = f (view_status h st)" and "\<And>h st. refs_status h (u st) = refs_status h st"
  shows "edits A Z a (\<lambda>_. f) (modify_object T the_o mk a u)"
proof (rule edits_step [OF ok])
  fix h h' :: "('m, 'l, 'x) go_heap" and y b st
  assume run: "run_state (modify_object T the_o mk a u) h = (y, h')" and b: "b = the_o (cells h (T, a))" "st = o_Status b"
  then have h': "h' = h\<lparr>cells := (cells h)((T, a) := mk (b\<lparr>o_Status := u st\<rparr>))\<rparr>"
    by (simp add: modify_object_def)
  have "cells h' r = cells h r" if "r \<in> refs_status h st" for r
    using tags [OF that] by (auto simp: h')
  note same = frame [OF this]
  show "puts_status a h h' b f"
    by (rule puts_statusI [where st' = "u st"]) (use same assms(2,3) b in \<open>simp_all add: h' cell\<close>)
qed

text \<open>
  New cells, then an assignment of their address to a field of the status. \<open>c h\<close> is \<open>h\<close>
  with the \<open>k\<close> new cells.
\<close>

lemma edits_new_field:
  assumes ok: "apimachinery_ok A L"
    and run: "\<And>h. run_state p h = ((), h\<lparr>next_address := next_address h + k,
      cells := (c h)((T, a) := mk ((the_o (cells h (T, a)))\<lparr>o_Status :=
        u (next_address h) (o_Status (the_o (cells h (T, a))))\<rparr>))\<rparr>)"
    and old: "\<And>h r. snd r < next_address h \<Longrightarrow> c h r = cells h r"
    and new: "\<And>h g st. \<forall>r. next_address h \<le> snd r \<longrightarrow> r \<noteq> (T, a) \<longrightarrow> cells g r = c h r \<Longrightarrow>
        view_status g (u (next_address h) st) = f (view_status g st) \<and>
        (\<forall>r\<in>refs_status g (u (next_address h) st). r \<in> refs_status g st \<or>
          next_address h \<le> snd r \<and> snd r < next_address h + k)"
  shows "edits A Z a (\<lambda>_. f) p"
proof (rule edits_step [OF ok])
  fix h h' :: "('m, 'l, 'x) go_heap" and y b st
  assume "run_state p h = (y, h')" and b: "b = the_o (cells h (T, a))" "st = o_Status b"
    and al: "allocated h (refs_status h st)"
  with run [of h] have h': "h' = h\<lparr>next_address := next_address h + k,
      cells := (c h)((T, a) := mk (b\<lparr>o_Status := u (next_address h) st\<rparr>))\<rparr>"
    by simp
  have "cells h' r = cells h r" if "r \<in> refs_status h st" for r
    using that al old [of r h] not_object [OF that] by (simp add: h' allocated_def)
  note same = frame [OF this]
  have "\<forall>r. next_address h \<le> snd r \<longrightarrow> r \<noteq> (T, a) \<longrightarrow> cells h' r = c h r" by (simp add: h')
  note new = new [OF this, of st]
  show "puts_status a h h' b f"
    by (rule puts_statusI [where st' = "u (next_address h) st"]) (use old new same b in \<open>simp_all add: h' cell\<close>)
qed

lemma edits_set_condition:
  assumes ok: "apimachinery_ok A L"
  shows "edits A Z a (\<lambda>n v. with_conditions (SetStatusCondition L (conditions v) (c n)) v)
    (set_object_condition T the_o mk get put A a c)"
proof (rule edits_step [OF ok])
  fix h h' :: "('m, 'l, 'x) go_heap" and y b st
  assume run: "run_state (set_object_condition T the_o mk get put A a c) h = (y, h')"
    and b: "b = the_o (cells h (T, a))" "st = o_Status b"
    and al: "allocated h (refs_status h st)" and a: "a < next_address h"
  let ?p = "get st" and ?c = "c (meta_Generation A (o_ObjectMeta b))" and ?none = "put None st"
  have split: "view_status g st = with_conditions (view_conditions g ?p) (view_status g ?none)"
    "refs_status g st = refs_status g ?none \<union> refs_conditions ?p" for g
    using view_put [of g ?p st] refs_put [of g ?p st] by (simp_all add: put_get)
  obtain q h1 where 1: "run_state (SetStatusCondition_in_place A ?p ?c) h = (q, h1)" by fastforce
  have "allocated h (refs_conditions ?p)" using al split(2) [of h] by simp
  note set = SetStatusCondition_in_place_ok [OF ok 1 this]
  have "cells h1 (T, a) = cells h (T, a)" by (rule set(3)) (use a tag(2) in \<open>auto simp: refs_conditions_def\<close>)
  then have h': "h' = h1\<lparr>cells := (cells h1)((T, a) := mk (b\<lparr>o_Status := put q st\<rparr>))\<rparr>"
    using run 1 b by (simp add: set_object_condition_def modify_object_def)
  have "cells h' r = cells h r" if "r \<in> refs_status h ?none" for r
  proof -
    have "r \<notin> refs_conditions ?p" using refs_none [OF that] by (auto simp: refs_conditions_def)
    moreover have "snd r < next_address h" using that al split(2) [of h] by (simp add: allocated_def)
    ultimately show ?thesis using set(3) [of r] not_object [OF that] by (simp add: h')
  qed
  note same = frame [OF this]
  have "view_conditions h' q = view_conditions h1 q" using tag(2) by (simp add: view_conditions_def h' split: option.split)
  then have view: "view_status h' (put q st) =
      with_conditions (SetStatusCondition L (conditions (view_status h st)) ?c) (view_status h st)"
    using same split(1) [of h] by (simp add: view_put [of h' q st] set(2) conditions_with with_twice)
  show "puts_status a h h' b (\<lambda>v. with_conditions (SetStatusCondition L (conditions v) ?c) v)"
  proof (rule puts_statusI [where st' = "put q st"])
    fix r
    show "cells h' r = cells h r" if "snd r < next_address h" "r \<noteq> (T, a)" "r \<notin> refs_status h (o_Status b)"
      using set(3) [OF that(1)] that(2,3) split(2) [of h] b by (simp add: h')
    assume "r \<in> refs_status h' (put q st)"
    then have "r \<in> refs_status h ?none \<or> r \<in> refs_conditions q"
      using same by (simp add: refs_put [of h' q st])
    with split(2) [of h] set(4) [of r] b
    show "r \<in> refs_status h (o_Status b) \<or> next_address h \<le> snd r \<and> snd r < next_address h'"
      by (auto simp: h')
  qed (use set(1) view b in \<open>simp_all add: h' cell\<close>)
qed

lemma edits_observe:
  assumes ok: "apimachinery_ok A L" and "\<And>h n st. view_status h (u n st) = f n (view_status h st)" and "\<And>h n st. refs_status h (u n st) = refs_status h st"
  shows "edits A Z a f (observe_object T the_o mk u A a)"
proof (rule edits_step [OF ok])
  fix h h' :: "('m, 'l, 'x) go_heap" and y b st
  assume run: "run_state (observe_object T the_o mk u A a) h = (y, h')" and b: "b = the_o (cells h (T, a))" "st = o_Status b"
  let ?st = "u (meta_Generation A (o_ObjectMeta b)) st"
  have h': "h' = h\<lparr>cells := (cells h)((T, a) := mk (b\<lparr>o_Status := ?st\<rparr>))\<rparr>"
    using run b by (simp add: observe_object_def modify_object_def)
  have "cells h' r = cells h r" if "r \<in> refs_status h st" for r
    using not_object [OF that] by (simp add: h')
  note same = frame [OF this]
  show "puts_status a h h' b (f (meta_Generation A (o_ObjectMeta b)))"
    by (rule puts_statusI [where st' = ?st]) (use same assms(2,3) b in \<open>simp_all add: h' cell\<close>)
qed

text \<open>
  A copy, then edits: the copy has the value the object had, the object has the new status. \<open>W\<close> makes the
  value of an object of its parts.
\<close>

lemma copied_then_edited:
  assumes ok: "apimachinery_ok A L"
    and view: "\<And>h x. view h x = W (o_TypeMeta x) (o_Spec x) (meta_view A h (o_ObjectMeta x)) (view_status h (o_Status x))"
    and deep: "deep_copy D (view_pointer T the_o view) (refs_pointer T the_o (refs_object A refs_status))"
    and edits: "\<And>Z. edits A Z a f p"
    and al: "allocated h (refs_pointer T the_o (refs_object A refs_status) h (Some a))"
    and b: "b = the_o (cells h (T, a))"
    and with_copy: "run_state (with_copy D a p) h = (base, h')"
  shows "view_pointer T the_o view h' base = Some (view h b)"
    and "view_pointer T the_o view h' (Some a) = Some (W (o_TypeMeta b) (o_Spec b) (meta_view A h (o_ObjectMeta b))
      (f (Generation (meta_view A h (o_ObjectMeta b))) (view_status h (o_Status b))))"
proof -
  obtain h1 where copy: "run_state (D (Some a)) h = (base, h1)" and run: "run_state p h1 = ((), h')"
    using with_copy by (auto simp: with_copy_def split: prod.splits)
  let ?Z = "{next_address h ..< next_address h1}"
  from deep_copy.copies [OF deep copy al] have ext: "extends h h1" by simp
  have al': "(T, a) \<in> {r. snd r < next_address h}" "\<forall>r\<in>meta_refs A h (o_ObjectMeta b). snd r < next_address h"
    "\<forall>r\<in>refs_status h (o_Status b). snd r < next_address h"
    using al b by (auto simp: refs_pointer_def refs_object_def allocated_def)
  have here: "cells h1 r = cells h r" if "snd r < next_address h" for r
    using ext that by (cases r) (simp add: extends_def)
  have st: "view_status h1 (o_Status b) = view_status h (o_Status b)" "refs_status h1 (o_Status b) = refs_status h (o_Status b)"
    using frame [of h "o_Status b" h1] here al'(3) by blast+
  have meta: "meta_view A h1 (o_ObjectMeta b) = meta_view A h (o_ObjectMeta b)"
    "meta_refs A h1 (o_ObjectMeta b) = meta_refs A h (o_ObjectMeta b)"
    using meta_frame [OF ok here al'(2)] by blast+
  have o: "the_o (cells h1 (T, a)) = b" using here al'(1) b by simp
  have "editing A ?Z a h1 (o_TypeMeta b) (meta_view A h (o_ObjectMeta b)) (o_Spec b) (view_status h (o_Status b))"
    unfolding editing_def
    by (rule exI [of _ "o_ObjectMeta b"], rule exI [of _ "o_Status b"])
      (use al' ext o st meta in \<open>auto simp: extends_def\<close>)
  note e = editsD [OF edits this run]
  have "view_pointer T the_o view h' base = view_pointer T the_o view h (Some a)"
    by (rule deep_copy.snapshot [OF deep copy al]) (rule e(2), simp)
  then show "view_pointer T the_o view h' base = Some (view h b)" by (simp add: view_pointer_def b)
  from e(1) show "view_pointer T the_o view h' (Some a) = Some (W (o_TypeMeta b) (o_Spec b) (meta_view A h (o_ObjectMeta b))
      (f (Generation (meta_view A h (o_ObjectMeta b))) (view_status h (o_Status b))))"
    by (auto simp: editing_def view_pointer_def view)
qed

end

end
