(* ===== verification/PatchBases.thy ===== *)
theory PatchBases
  imports Editing ProviderConfig Webhook
begin

text \<open>
  What follows from the deep copies for the patches: with an object changed in place through its pointers,
  as \<open>patchStripeSuccess\<close>, \<open>patchStripeFailure\<close>, \<open>reconcileSetupIntent\<close>, \<open>patchStatus\<close> and the
  reconcile of a configuration do, the base of the patch keeps the value that was read and the object gets
  the status that \<open>Webhook\<close>, \<open>PaymentMethods\<close>, \<open>StripeCustomers\<close> and \<open>ProviderConfig\<close>
  compute on values. The three kinds of object are instances of \<open>edited_object\<close>.
\<close>

section \<open>Changing an object in place\<close>

text \<open>
  What the code does to the object at address \<open>a\<close> after it took the copy: assignments through the
  pointer, to the object and to the cells it points to. First a StripePaymentMethod.
\<close>

definition modify_status :: "nat \<Rightarrow> (gspm_status \<Rightarrow> gspm_status) \<Rightarrow> ('m, 'l, 'x, unit) go_prog" where
  "modify_status = modify_object SpmT the_spm SpmCell"

definition set_confirmed_at :: "nat \<Rightarrow> gotime \<Rightarrow> ('m, 'l, 'x, unit) go_prog" where
  "set_confirmed_at a now = do {
     p \<leftarrow> alloc TimeT (TimeCell now);
     modify_status a (\<lambda>st. st\<lparr>g_ConfirmedAt := Some p\<rparr>)
   }"

definition new_setup_intent :: "nat \<Rightarrow> string \<Rightarrow> string \<Rightarrow> string \<Rightarrow> gotime \<Rightarrow> ('m, 'l, 'x, unit) go_prog" where
  "new_setup_intent a i secret st expiresAt = do {
     t \<leftarrow> alloc TimeT (TimeCell expiresAt);
     p \<leftarrow> alloc SetupIntentT (SetupIntentCell \<lparr>g_ID = i, g_ClientSecret = secret, g_Status = st, g_ExpiresAt = Some t\<rparr>);
     modify_status a (\<lambda>st. st\<lparr>g_SetupIntent := Some p\<rparr>)
   }"

definition modify_setup_intent :: "nat \<Rightarrow> (gsetup_intent \<Rightarrow> gsetup_intent) \<Rightarrow> ('m, 'l, 'x, unit) go_prog" where
  "modify_setup_intent a u = do {
     c \<leftarrow> load SpmT a;
     p \<leftarrow> (case g_SetupIntent (o_Status (the_spm c)) of
             None \<Rightarrow> do {
               p \<leftarrow> alloc SetupIntentT (SetupIntentCell \<lparr>g_ID = '''', g_ClientSecret = '''', g_Status = '''', g_ExpiresAt = None\<rparr>);
               _ \<leftarrow> modify_status a (\<lambda>st. st\<lparr>g_SetupIntent := Some p\<rparr>);
               ret p
             }
           | Some p \<Rightarrow> ret p);
     d \<leftarrow> load SetupIntentT p;
     store SetupIntentT p (SetupIntentCell (u (the_setup_intent d)))
   }"

definition new_card :: "nat \<Rightarrow> card_details \<Rightarrow> ('m, 'l, 'x, unit) go_prog" where
  "new_card a d = do {
     c \<leftarrow> alloc CardT (CardCell d);
     i \<leftarrow> alloc InstrumentT (InstrumentCell \<lparr>g_Type = InstrumentCard, g_Card = Some c, g_USBankAccount = None\<rparr>);
     modify_status a (\<lambda>st. st\<lparr>g_Instrument := Some i\<rparr>)
   }"

definition set_status_condition :: "('m, 'l, 'x, 'v) apimachinery \<Rightarrow> nat \<Rightarrow> (int \<Rightarrow> condition) \<Rightarrow> ('m, 'l, 'x, unit) go_prog" where
  "set_status_condition = set_object_condition SpmT the_spm SpmCell g_Conditions (\<lambda>q st. st\<lparr>g_Conditions := q\<rparr>)"

definition observe_generation :: "('m, 'l, 'x, 'v) apimachinery \<Rightarrow> nat \<Rightarrow> ('m, 'l, 'x, unit) go_prog" where
  "observe_generation = observe_object SpmT the_spm SpmCell (\<lambda>n st. st\<lparr>g_ObservedGeneration := n\<rparr>)"

text \<open>The assignments of \<open>patchStripeSuccess\<close>, \<open>patchStripeFailure\<close> and \<open>reconcileSetupIntent\<close>.\<close>

definition mark_active ::
  "('m, 'l, 'x, 'v) apimachinery \<Rightarrow> nat \<Rightarrow> setup_intent_payload \<Rightarrow> payment_method_details \<Rightarrow> gotime
    \<Rightarrow> ('m, 'l, 'x, unit) go_prog" where
  "mark_active A a si pm now = do {
     _ \<leftarrow> modify_status a (\<lambda>st. st\<lparr>g_Phase := Active, g_StripePaymentMethodID := pmd_ID pm\<rparr>);
     _ \<leftarrow> set_confirmed_at a now;
     _ \<leftarrow> modify_setup_intent a (\<lambda>i. i\<lparr>g_ID := sp_ID si, g_Status := sp_Status si, g_ClientSecret := ''''\<rparr>);
     _ \<leftarrow> (if pmd_Type pm = ''card'' then new_card a (card_of_details pm) else ret ());
     set_status_condition A a (\<lambda>g. confirmed_condition ConditionTrue g ''SetupIntentSucceeded''
            (''Stripe SetupIntent '' @ sp_ID si @ '' succeeded.''))
   }"

definition mark_failed ::
  "('m, 'l, 'x, 'v) apimachinery \<Rightarrow> nat \<Rightarrow> setup_intent_payload \<Rightarrow> ('m, 'l, 'x, unit) go_prog" where
  "mark_failed A a si = do {
     _ \<leftarrow> modify_status a (\<lambda>st. st\<lparr>g_Phase := Failed\<rparr>);
     _ \<leftarrow> modify_setup_intent a (\<lambda>i. i\<lparr>g_ID := sp_ID si, g_Status := sp_Status si\<rparr>);
     _ \<leftarrow> (case sp_LastSetupError si of
             None \<Rightarrow> ret ()
           | Some le \<Rightarrow> modify_status a (\<lambda>st. st\<lparr>g_FailureReason := le_Code le, g_FailureMessage := le_Message le\<rparr>));
     set_status_condition A a (\<lambda>g. confirmed_condition ConditionFalse g ''SetupIntentFailed'' (failure_text si))
   }"

definition mark_awaiting ::
  "('m, 'l, 'x, 'v) apimachinery \<Rightarrow> 'w surroundings \<Rightarrow> nat \<Rightarrow> string \<Rightarrow> setup_intent_result \<Rightarrow> gotime \<Rightarrow> go_error option
    \<Rightarrow> ('m, 'l, 'x, unit) go_prog" where
  "mark_awaiting A rt a customerID si expiresAt taxErr = do {
     _ \<leftarrow> modify_status a (\<lambda>st. st\<lparr>g_Phase := AwaitingConfirmation, g_StripeCustomerID := customerID\<rparr>);
     _ \<leftarrow> new_setup_intent a (sir_ID si) (sir_ClientSecret si) (sir_Status si) expiresAt;
     _ \<leftarrow> set_status_condition A a (setup_intent_condition rt si expiresAt);
     _ \<leftarrow> set_status_condition A a (\<lambda>g. (tax_ids_condition taxErr)\<lparr>c_ObservedGeneration := g\<rparr>);
     observe_generation A a
   }"

definition with_base ::
  "('m, 'l, 'x, 'v) apimachinery \<Rightarrow> nat \<Rightarrow> ('m, 'l, 'x, unit) go_prog \<Rightarrow> ('m, 'l, 'x, nat option) go_prog" where
  "with_base A = with_copy (StripePaymentMethod_DeepCopy A)"

text \<open>
  The assignments of \<open>StripeCustomers.patchStatus\<close>, and the whole of it up to the call of the client:
  \<open>None\<close> when the statuses are equal, otherwise the base of the patch.
\<close>

definition mark_synced ::
  "('m, 'l, 'x, 'v) apimachinery \<Rightarrow> nat \<Rightarrow> string \<Rightarrow> condition \<Rightarrow> condition option \<Rightarrow> ('m, 'l, 'x, unit) go_prog" where
  "mark_synced A a customerID ready taxIDs = do {
     _ \<leftarrow> modify_object ScT the_sc ScCell a (\<lambda>st. st\<lparr>gsc_StripeCustomerID := customerID\<rparr>);
     _ \<leftarrow> set_object_condition ScT the_sc ScCell gsc_Conditions (\<lambda>q st. st\<lparr>gsc_Conditions := q\<rparr>) A a
            (\<lambda>g. ready\<lparr>c_ObservedGeneration := g\<rparr>);
     _ \<leftarrow> (case taxIDs of
             None \<Rightarrow> ret ()
           | Some c \<Rightarrow> set_object_condition ScT the_sc ScCell gsc_Conditions (\<lambda>q st. st\<lparr>gsc_Conditions := q\<rparr>) A a
               (\<lambda>g. c\<lparr>c_ObservedGeneration := g\<rparr>));
     observe_object ScT the_sc ScCell (\<lambda>g st. st\<lparr>gsc_ObservedGeneration := g\<rparr>) A a
   }"

text \<open>\<open>apiequality.Semantic.DeepEqual\<close> compares what the pointers point to.\<close>

definition equal_statuses :: "nat \<Rightarrow> nat option \<Rightarrow> ('m, 'l, 'x, bool) go_prog" where
  "equal_statuses a base = State (\<lambda>h. (
     map_option (\<lambda>b. view_sc_status h (o_Status (the_sc (cells h (ScT, b))))) base =
       Some (view_sc_status h (o_Status (the_sc (cells h (ScT, a))))), h))"

definition compare_status ::
  "('m, 'l, 'x, 'v) apimachinery \<Rightarrow> nat \<Rightarrow> string \<Rightarrow> condition \<Rightarrow> condition option \<Rightarrow> ('m, 'l, 'x, nat option) go_prog" where
  "compare_status A a customerID ready taxIDs = do {
     base \<leftarrow> with_copy (StripeCustomer_DeepCopy A) a (mark_synced A a customerID ready taxIDs);
     e \<leftarrow> equal_statuses a base;
     ret (if e then None else base)
   }"

text \<open>The assignments of the reconcile of a \<open>StripeProviderConfig\<close>.\<close>

definition mark_published :: "('m, 'l, 'x, 'v) apimachinery \<Rightarrow> nat \<Rightarrow> ('m, 'l, 'x, unit) go_prog" where
  "mark_published A a = do {
     p \<leftarrow> alloc TaxTypesT (TaxTypesCell desiredSupportedTaxIDTypes);
     _ \<leftarrow> modify_object CfgT the_cfg CfgCell a (\<lambda>st. st\<lparr>gcfg_SupportedTaxIDTypes := Some p\<rparr>);
     _ \<leftarrow> observe_object CfgT the_cfg CfgCell (\<lambda>g st. st\<lparr>gcfg_ObservedGeneration := g\<rparr>) A a;
     set_object_condition CfgT the_cfg CfgCell gcfg_Conditions (\<lambda>q st. st\<lparr>gcfg_Conditions := q\<rparr>) A a published_condition
   }"

section \<open>Facts: the three kinds\<close>

lemma pointer_frame:
  assumes "\<And>r. r \<in> refs_pointer t the_T r' h p \<Longrightarrow> cells h' r = cells h r"
    and "\<And>x. (\<And>r. r \<in> r' h x \<Longrightarrow> cells h' r = cells h r) \<Longrightarrow> v h' x = v h x \<and> r' h' x = r' h x"
  shows "view_pointer t the_T v h' p = view_pointer t the_T v h p \<and>
    refs_pointer t the_T r' h' p = refs_pointer t the_T r' h p"
proof (cases p)
  case (Some a)
  with assms(1) assms(2) [of "the_T (cells h (t, a))"] show ?thesis by (simp add: view_pointer_def refs_pointer_def)
qed (simp add: view_pointer_def refs_pointer_def)

lemma conditions_frame:
  "(\<And>r. r \<in> refs_conditions p \<Longrightarrow> cells h' r = cells h r) \<Longrightarrow> view_conditions h' p = view_conditions h p"
  by (cases p) (simp_all add: view_conditions_def refs_conditions_def)

lemma setup_intent_frame:
  "(\<And>r. r \<in> refs_setup_intent h s \<Longrightarrow> cells h' r = cells h r) \<Longrightarrow>
    view_setup_intent h' s = view_setup_intent h s \<and> refs_setup_intent h' s = refs_setup_intent h s"
  by (cases "g_ExpiresAt s") (simp_all add: view_setup_intent_def refs_setup_intent_def view_time_def)

interpretation spm: edited_object SpmT the_spm SpmCell view_spm_status refs_spm_status g_Conditions
  "\<lambda>q st. st\<lparr>g_Conditions := q\<rparr>" Conditions "\<lambda>cs v. v\<lparr>Conditions := cs\<rparr>"
proof
  fix h h' :: "('m, 'l, 'x) go_heap" and st r
  show "view_spm_status h' st = view_spm_status h st \<and> refs_spm_status h' st = refs_spm_status h st"
    if same: "\<And>r. r \<in> refs_spm_status h st \<Longrightarrow> cells h' r = cells h r"
  proof -
    have 1: "view_pointer SetupIntentT the_setup_intent view_setup_intent h' (g_SetupIntent st) =
        view_pointer SetupIntentT the_setup_intent view_setup_intent h (g_SetupIntent st) \<and>
      refs_pointer SetupIntentT the_setup_intent refs_setup_intent h' (g_SetupIntent st) =
        refs_pointer SetupIntentT the_setup_intent refs_setup_intent h (g_SetupIntent st)"
      by (rule pointer_frame [OF _ setup_intent_frame]) (use same in \<open>simp_all add: refs_spm_status_def\<close>)
    have "view_pointer InstrumentT the_instrument view_instrument h' (g_Instrument st) =
        view_pointer InstrumentT the_instrument view_instrument h (g_Instrument st) \<and>
      refs_pointer InstrumentT the_instrument refs_instrument h' (g_Instrument st) =
        refs_pointer InstrumentT the_instrument refs_instrument h (g_Instrument st)"
      by (rule pointer_frame [OF _ instrument.frame]) (use same in \<open>simp_all add: refs_spm_status_def\<close>)
    moreover have "map_option (view_time h') (g_ConfirmedAt st) = map_option (view_time h) (g_ConfirmedAt st)"
      using same by (cases "g_ConfirmedAt st") (simp_all add: refs_spm_status_def view_time_def)
    moreover have "view_conditions h' (g_Conditions st) = view_conditions h (g_Conditions st)"
      by (rule conditions_frame) (use same in \<open>simp add: refs_spm_status_def\<close>)
    ultimately show ?thesis using 1 by (simp add: view_spm_status_def refs_spm_status_def)
  qed
  show "r \<in> refs_spm_status h st \<Longrightarrow> fst r \<noteq> SpmT \<and> fst r \<noteq> LibT"
    and "r \<in> refs_spm_status h (st\<lparr>g_Conditions := None\<rparr>) \<Longrightarrow> fst r \<noteq> ConditionsT"
    by (auto simp: refs_spm_status_def refs_pointer_def refs_setup_intent_def refs_instrument_def
        refs_conditions_def split: option.splits)
qed (auto simp: view_spm_status_def refs_spm_status_def refs_conditions_def)

interpretation sc: edited_object ScT the_sc ScCell view_sc_status refs_sc_status gsc_Conditions
  "\<lambda>q st. st\<lparr>gsc_Conditions := q\<rparr>" sc_Conditions "\<lambda>cs v. v\<lparr>sc_Conditions := cs\<rparr>"
  by unfold_locales (auto simp: view_sc_status_def refs_sc_status_def refs_conditions_def intro: conditions_frame)

interpretation cfg: edited_object CfgT the_cfg CfgCell view_cfg_status refs_cfg_status gcfg_Conditions
  "\<lambda>q st. st\<lparr>gcfg_Conditions := q\<rparr>" cfg_Conditions "\<lambda>cs v. v\<lparr>cfg_Conditions := cs\<rparr>"
proof
  fix h h' :: "('m, 'l, 'x) go_heap" and st r
  show "view_cfg_status h' st = view_cfg_status h st \<and> refs_cfg_status h' st = refs_cfg_status h st"
    if same: "\<And>r. r \<in> refs_cfg_status h st \<Longrightarrow> cells h' r = cells h r"
  proof -
    have "view_conditions h' (gcfg_Conditions st) = view_conditions h (gcfg_Conditions st)"
      by (rule conditions_frame) (use same in \<open>simp add: refs_cfg_status_def\<close>)
    moreover have "view_pointer TaxTypesT the_tax_types (\<lambda>_ ts. ts) h' (gcfg_SupportedTaxIDTypes st) =
        view_pointer TaxTypesT the_tax_types (\<lambda>_ ts. ts) h (gcfg_SupportedTaxIDTypes st)"
      using same by (cases "gcfg_SupportedTaxIDTypes st") (simp_all add: view_pointer_def refs_cfg_status_def)
    ultimately show ?thesis by (simp add: view_cfg_status_def refs_cfg_status_def)
  qed
qed (auto simp: view_cfg_status_def refs_cfg_status_def refs_conditions_def)

lemmas edit_defs = modify_object_def view_spm_status_def view_time_def view_pointer_def view_setup_intent_def
  view_instrument_def refs_spm_status_def refs_pointer_def refs_setup_intent_def refs_instrument_def

lemma edits_modify_status:
  fixes A :: "('m, 'l, 'x, 'v) apimachinery"
  assumes "apimachinery_ok A L"
    and "\<And>h st. view_spm_status (h :: ('m, 'l, 'x) go_heap) (u st) = f (view_spm_status h st)"
    and "\<And>h st. refs_spm_status (h :: ('m, 'l, 'x) go_heap) (u st) = refs_spm_status h st"
  shows "spm.edits A Z a (\<lambda>_. f) (modify_status a u)"
  unfolding modify_status_def by (rule spm.edits_modify [OF assms])

lemma edits_set_confirmed_at:
  assumes "apimachinery_ok A L"
  shows "spm.edits A Z a (\<lambda>_ v. v\<lparr>ConfirmedAt := Some now\<rparr>) (set_confirmed_at a now)"
  by (rule spm.edits_new_field [OF assms, where k = 1 and u = "\<lambda>n st. st\<lparr>g_ConfirmedAt := Some n\<rparr>"
        and c = "\<lambda>h. (cells h)((TimeT, next_address h) := TimeCell now)"])
    (auto simp: set_confirmed_at_def modify_status_def edit_defs)

lemma edits_new_setup_intent:
  assumes "apimachinery_ok A L"
  shows "spm.edits A Z a (\<lambda>_ v. v\<lparr>SetupIntent := Some \<lparr>si_ID = i, si_ClientSecret = secret,
      si_Status = s, si_ExpiresAt = Some e\<rparr>\<rparr>) (new_setup_intent a i secret s e)"
  by (rule spm.edits_new_field [OF assms, where k = 2 and u = "\<lambda>n st. st\<lparr>g_SetupIntent := Some (n + 1)\<rparr>"
        and c = "\<lambda>h. (cells h)((TimeT, next_address h) := TimeCell e, (SetupIntentT, next_address h + 1) :=
          SetupIntentCell \<lparr>g_ID = i, g_ClientSecret = secret, g_Status = s, g_ExpiresAt = Some (next_address h)\<rparr>)"])
    (auto simp: new_setup_intent_def modify_status_def edit_defs)

lemma edits_new_card:
  assumes "apimachinery_ok A L"
  shows "spm.edits A Z a (\<lambda>_ v. v\<lparr>Instrument := Some \<lparr>in_Type = InstrumentCard, in_Card = Some d,
      in_USBankAccount = None\<rparr>\<rparr>) (new_card a d)"
  by (rule spm.edits_new_field [OF assms, where k = 2 and u = "\<lambda>n st. st\<lparr>g_Instrument := Some (n + 1)\<rparr>"
        and c = "\<lambda>h. (cells h)((CardT, next_address h) := CardCell d, (InstrumentT, next_address h + 1) :=
          InstrumentCell \<lparr>g_Type = InstrumentCard, g_Card = Some (next_address h), g_USBankAccount = None\<rparr>)"])
    (auto simp: new_card_def modify_status_def edit_defs)

text \<open>The SetupIntent the status points to, made if there is none, is changed where it is.\<close>

definition plain_setup_intent :: "(gsetup_intent \<Rightarrow> gsetup_intent) \<Rightarrow> (setup_intent_status \<Rightarrow> setup_intent_status) \<Rightarrow> bool" where
  "plain_setup_intent u f \<longleftrightarrow> (\<forall>s. g_ExpiresAt (u s) = g_ExpiresAt s) \<and>
     (\<forall>s t. \<lparr>si_ID = g_ID (u s), si_ClientSecret = g_ClientSecret (u s), si_Status = g_Status (u s), si_ExpiresAt = t\<rparr> =
        f \<lparr>si_ID = g_ID s, si_ClientSecret = g_ClientSecret s, si_Status = g_Status s, si_ExpiresAt = t\<rparr>)"

abbreviation with_setup_intent :: "(setup_intent_status \<Rightarrow> setup_intent_status) \<Rightarrow> spm_status \<Rightarrow> spm_status" where
  "with_setup_intent f st \<equiv> st\<lparr>SetupIntent := Some (f (setup_intent_or_empty st))\<rparr>"

lemma modify_new_setup_intent:
  fixes h h' :: "('m, 'l, 'x) go_heap"
  assumes u: "plain_setup_intent u f" and None: "g_SetupIntent (o_Status b) = None"
    and run: "run_state (modify_setup_intent a u) h = (y, h')" and b: "b = the_spm (cells h (SpmT, a))"
    and al: "allocated h (refs_spm_status h (o_Status b))"
  shows "spm.puts_status a h h' b (with_setup_intent f)"
proof -
  let ?st = "o_Status b" and ?n = "next_address h"
    and ?e = "\<lparr>g_ID = '''', g_ClientSecret = '''', g_Status = '''', g_ExpiresAt = None\<rparr>"
  let ?st' = "?st\<lparr>g_SetupIntent := Some ?n\<rparr>"
  have h': "h' = h\<lparr>next_address := ?n + 1, cells := (cells h)((SetupIntentT, ?n) := SetupIntentCell (u ?e),
      (SpmT, a) := SpmCell (b\<lparr>o_Status := ?st'\<rparr>))\<rparr>"
    using run None b by (auto simp: modify_setup_intent_def modify_status_def modify_object_def fun_eq_iff)
  have "cells h' r = cells h r" if "r \<in> refs_spm_status h ?st" for r
    using that al by (auto simp: h' allocated_def)
  note same = spm.frame [OF this, THEN conjunct1] spm.frame [OF this, THEN conjunct2]
  have cell: "the_setup_intent (cells h' (SetupIntentT, ?n)) = u ?e" by (simp add: h')
  have "view_spm_status h' ?st' = (view_spm_status h' ?st)\<lparr>SetupIntent := Some (f empty_setup_intent)\<rparr>"
    using u by (simp add: view_spm_status_def view_pointer_def cell view_setup_intent_def plain_setup_intent_def
        empty_setup_intent_def)
  moreover have "setup_intent_or_empty (view_spm_status h ?st) = empty_setup_intent"
    by (simp add: setup_intent_or_empty_def view_spm_status_def view_pointer_def None)
  moreover have "refs_spm_status h' ?st' = insert (SetupIntentT, ?n) (refs_spm_status h' ?st)"
    using u None by (simp add: refs_spm_status_def refs_pointer_def refs_setup_intent_def plain_setup_intent_def cell)
  ultimately show ?thesis
    using same by (intro spm.puts_statusI [where st' = ?st']) (auto simp: h')
qed

lemma modify_own_setup_intent:
  fixes h h' :: "('m, 'l, 'x) go_heap"
  assumes u: "plain_setup_intent u f" and Some: "g_SetupIntent (o_Status b) = Some p"
    and run: "run_state (modify_setup_intent a u) h = (y, h')" and b: "b = the_spm (cells h (SpmT, a))"
  shows "spm.puts_status a h h' b (with_setup_intent f)"
proof -
  let ?st = "o_Status b" and ?s = "the_setup_intent (cells h (SetupIntentT, p))"
  have h': "h' = h\<lparr>cells := (cells h)((SetupIntentT, p) := SetupIntentCell (u ?s))\<rparr>"
    using run Some b by (simp add: modify_setup_intent_def)
  have "cells h' r = cells h r" if "r \<in> refs_spm_status h (?st\<lparr>g_SetupIntent := None\<rparr>)" for r
    using that by (auto simp: h' refs_spm_status_def refs_pointer_def refs_instrument_def refs_conditions_def split: option.splits)
  note same = spm.frame [where st = "?st\<lparr>g_SetupIntent := None\<rparr>", OF this, THEN conjunct1]
    spm.frame [where st = "?st\<lparr>g_SetupIntent := None\<rparr>", OF this, THEN conjunct2]
  have cell: "the_setup_intent (cells h' (SetupIntentT, p)) = u ?s" by (simp add: h')
  have time: "view_time h' = view_time h" by (simp add: fun_eq_iff view_time_def h')
  have "view_spm_status h' ?st = (view_spm_status h' (?st\<lparr>g_SetupIntent := None\<rparr>))\<lparr>SetupIntent := Some (f (view_setup_intent h ?s))\<rparr>"
    using u Some by (simp add: view_spm_status_def view_pointer_def view_setup_intent_def time plain_setup_intent_def cell)
  also have "\<dots> = with_setup_intent f (view_spm_status h ?st)"
    using same(1) Some by (simp add: view_spm_status_def view_pointer_def setup_intent_or_empty_def)
  finally have view: "view_spm_status h' ?st = \<dots>" .
  have split: "refs_spm_status g ?st = refs_pointer SetupIntentT the_setup_intent refs_setup_intent g (Some p) \<union>
      refs_spm_status g (?st\<lparr>g_SetupIntent := None\<rparr>)" for g :: "('m, 'l, 'x) go_heap"
    by (simp add: refs_spm_status_def refs_pointer_def Some)
  have "refs_pointer SetupIntentT the_setup_intent refs_setup_intent h' (Some p) =
      refs_pointer SetupIntentT the_setup_intent refs_setup_intent h (Some p)"
    using u by (simp add: refs_pointer_def refs_setup_intent_def plain_setup_intent_def cell)
  then have "refs_spm_status h' ?st = refs_spm_status h ?st" using same(2) split by simp
  moreover have "(SetupIntentT, p) \<in> refs_spm_status h ?st" by (simp add: refs_spm_status_def refs_pointer_def Some)
  ultimately show ?thesis
    using b view by (intro spm.puts_statusI [where st' = ?st]) (auto simp: h')
qed

lemma edits_modify_setup_intent:
  fixes A :: "('m, 'l, 'x, 'v) apimachinery"
  assumes "apimachinery_ok A L" and "plain_setup_intent u f"
  shows "spm.edits A Z a (\<lambda>_. with_setup_intent f) (modify_setup_intent a u)"
proof (rule spm.edits_step [OF assms(1)])
  fix h h' :: "('m, 'l, 'x) go_heap" and y b st
  assume run: "run_state (modify_setup_intent a u) h = (y, h')" "b = the_spm (cells h (SpmT, a))"
    and st: "st = o_Status b" "allocated h (refs_spm_status h st)"
  show "spm.puts_status a h h' b (with_setup_intent f)"
  proof (cases "g_SetupIntent (o_Status b)")
    case None
    show ?thesis by (rule modify_new_setup_intent [OF assms(2) None run st(2) [unfolded st(1)]])
  next
    case (Some p)
    show ?thesis by (rule modify_own_setup_intent [OF assms(2) Some run])
  qed
qed

lemma edits_set_status_condition:
  assumes "apimachinery_ok A L"
  shows "spm.edits A Z a (\<lambda>n v. v\<lparr>Conditions := SetStatusCondition L (Conditions v) (c n)\<rparr>) (set_status_condition A a c)"
  unfolding set_status_condition_def by (rule spm.edits_set_condition [OF assms])

lemma edits_observe_generation:
  assumes "apimachinery_ok A L"
  shows "spm.edits A Z a (\<lambda>n v. v\<lparr>ObservedGeneration := n\<rparr>) (observe_generation A a)"
  unfolding observe_generation_def
  by (rule spm.edits_observe [OF assms]) (simp_all add: view_spm_status_def refs_spm_status_def)

section \<open>Facts: the assignments compute the statuses\<close>

lemmas plain_fields = view_spm_status_def refs_spm_status_def plain_setup_intent_def

lemma mark_active_edits:
  assumes ok: "apimachinery_ok A L"
  shows "\<exists>f. (\<forall>Z. spm.edits A Z a f (mark_active A a si pm now)) \<and>
    f (Generation (spm_meta x)) (spm_status x) = success_status L x si pm now"
proof -
  have 1: "spm.edits A Z a (\<lambda>_ v. v\<lparr>Phase := Active, StripePaymentMethodID := pmd_ID pm\<rparr>)
      (modify_status a (\<lambda>st. st\<lparr>g_Phase := Active, g_StripePaymentMethodID := pmd_ID pm\<rparr>))" for Z
    by (rule edits_modify_status [OF ok]) (simp_all add: plain_fields)
  have 2: "plain_setup_intent (\<lambda>i. i\<lparr>g_ID := sp_ID si, g_Status := sp_Status si, g_ClientSecret := ''''\<rparr>)
      (\<lambda>i. i\<lparr>si_ID := sp_ID si, si_Status := sp_Status si, si_ClientSecret := ''''\<rparr>)"
    by (simp add: plain_setup_intent_def)
  note edits = spm.edits_bind [OF 1 spm.edits_bind [OF edits_set_confirmed_at [OF ok] spm.edits_bind [OF
          edits_modify_setup_intent [OF ok 2] spm.edits_bind [OF spm.edits_if [OF edits_new_card [OF ok] spm.edits_ret]
          edits_set_status_condition [OF ok]]]]]
  show ?thesis
    unfolding mark_active_def
    by (intro exI conjI allI, rule edits) (simp add: success_status_def Let_def setup_intent_or_empty_def)
qed

lemma mark_failed_edits:
  assumes ok: "apimachinery_ok A L"
  shows "\<exists>f. (\<forall>Z. spm.edits A Z a f (mark_failed A a si)) \<and>
    f (Generation (spm_meta x)) (spm_status x) = failure_status L x si"
proof -
  have 1: "spm.edits A Z a (\<lambda>_ v. v\<lparr>Phase := Failed\<rparr>) (modify_status a (\<lambda>st. st\<lparr>g_Phase := Failed\<rparr>))" for Z
    by (rule edits_modify_status [OF ok]) (simp_all add: plain_fields)
  have 2: "plain_setup_intent (\<lambda>i. i\<lparr>g_ID := sp_ID si, g_Status := sp_Status si\<rparr>)
      (\<lambda>i. i\<lparr>si_ID := sp_ID si, si_Status := sp_Status si\<rparr>)"
    by (simp add: plain_setup_intent_def)
  have 3: "spm.edits A Z a (\<lambda>_ v. v\<lparr>FailureReason := le_Code le, FailureMessage := le_Message le\<rparr>)
      (modify_status a (\<lambda>st. st\<lparr>g_FailureReason := le_Code le, g_FailureMessage := le_Message le\<rparr>))" for Z le
    by (rule edits_modify_status [OF ok]) (simp_all add: plain_fields)
  have 4: "spm.edits A Z a (\<lambda>_ v. case sp_LastSetupError si of None \<Rightarrow> v
        | Some le \<Rightarrow> v\<lparr>FailureReason := le_Code le, FailureMessage := le_Message le\<rparr>)
      (case sp_LastSetupError si of None \<Rightarrow> ret ()
       | Some le \<Rightarrow> modify_status a (\<lambda>st. st\<lparr>g_FailureReason := le_Code le, g_FailureMessage := le_Message le\<rparr>))" for Z
    by (cases "sp_LastSetupError si") (simp_all add: spm.edits_ret 3)
  note edits = spm.edits_bind [OF 1 spm.edits_bind [OF edits_modify_setup_intent [OF ok 2] spm.edits_bind [OF 4
          edits_set_status_condition [OF ok]]]]
  show ?thesis
    unfolding mark_failed_def
    by (intro exI conjI allI, rule edits)
      (simp add: failure_status_def Let_def setup_intent_or_empty_def split: option.split)
qed

lemma mark_awaiting_edits:
  assumes ok: "apimachinery_ok A (lib E)"
  shows "\<exists>f. (\<forall>Z. spm.edits A Z a f (mark_awaiting A (os E) a c si e taxErr)) \<and>
    f (Generation (spm_meta x)) (spm_status x) = awaiting_status E x c si e taxErr"
proof -
  have 1: "spm.edits A Z a (\<lambda>_ v. v\<lparr>Phase := AwaitingConfirmation, StripeCustomerID := c\<rparr>)
      (modify_status a (\<lambda>st. st\<lparr>g_Phase := AwaitingConfirmation, g_StripeCustomerID := c\<rparr>))" for Z
    by (rule edits_modify_status [OF ok]) (simp_all add: plain_fields)
  note edits = spm.edits_bind [OF 1 spm.edits_bind [OF edits_new_setup_intent [OF ok] spm.edits_bind [OF
          edits_set_status_condition [OF ok] spm.edits_bind [OF edits_set_status_condition [OF ok] edits_observe_generation [OF ok]]]]]
  show ?thesis
    unfolding mark_awaiting_def
    by (intro exI conjI allI, rule edits) (simp add: awaiting_status_def Let_def)
qed

lemma mark_synced_edits:
  assumes ok: "apimachinery_ok A L"
  shows "\<exists>f. (\<forall>Z. sc.edits A Z a f (mark_synced A a c r t)) \<and>
    f (Generation (sc_meta x)) (sc_status x) = synced_status L x c r t"
proof -
  have 1: "sc.edits A Z a (\<lambda>_ v. v\<lparr>sc_StripeCustomerID := c\<rparr>)
      (modify_object ScT the_sc ScCell a (\<lambda>st. st\<lparr>gsc_StripeCustomerID := c\<rparr>))" for Z
    by (rule sc.edits_modify [OF ok]) (simp_all add: view_sc_status_def refs_sc_status_def)
  have 2: "sc.edits A Z a (\<lambda>n v. case t of None \<Rightarrow> v
        | Some d \<Rightarrow> v\<lparr>sc_Conditions := SetStatusCondition L (sc_Conditions v) (d\<lparr>c_ObservedGeneration := n\<rparr>)\<rparr>)
      (case t of None \<Rightarrow> ret () | Some d \<Rightarrow> set_object_condition ScT the_sc ScCell gsc_Conditions
         (\<lambda>q st. st\<lparr>gsc_Conditions := q\<rparr>) A a (\<lambda>g. d\<lparr>c_ObservedGeneration := g\<rparr>))" for Z
    by (cases t) (simp_all add: sc.edits_ret sc.edits_set_condition [OF ok])
  have 3: "sc.edits A Z a (\<lambda>n v. v\<lparr>sc_ObservedGeneration := n\<rparr>)
      (observe_object ScT the_sc ScCell (\<lambda>g st. st\<lparr>gsc_ObservedGeneration := g\<rparr>) A a)" for Z
    by (rule sc.edits_observe [OF ok]) (simp_all add: view_sc_status_def refs_sc_status_def)
  note edits = sc.edits_bind [OF 1 sc.edits_bind [OF sc.edits_set_condition [OF ok] sc.edits_bind [OF 2 3]]]
  show ?thesis
    unfolding mark_synced_def
    by (intro exI conjI allI, rule edits) (simp add: synced_status_def Let_def split: option.split)
qed

lemma mark_published_edits:
  assumes ok: "apimachinery_ok A L"
  shows "\<exists>f. (\<forall>Z. cfg.edits A Z a f (mark_published A a)) \<and>
    f (Generation (cfg_meta x)) (cfg_status x) = cfg_status (published_config L x)"
proof -
  let ?types = "do {
     p \<leftarrow> alloc TaxTypesT (TaxTypesCell desiredSupportedTaxIDTypes);
     modify_object CfgT the_cfg CfgCell a (\<lambda>st. st\<lparr>gcfg_SupportedTaxIDTypes := Some p\<rparr>)
   }"
  have 1: "cfg.edits A Z a (\<lambda>_ v. v\<lparr>cfg_SupportedTaxIDTypes := desiredSupportedTaxIDTypes\<rparr>) ?types" for Z
    by (rule cfg.edits_new_field [OF ok, where k = 1 and u = "\<lambda>n st. st\<lparr>gcfg_SupportedTaxIDTypes := Some n\<rparr>"
          and c = "\<lambda>h. (cells h)((TaxTypesT, next_address h) := TaxTypesCell desiredSupportedTaxIDTypes)"])
      (auto simp: modify_object_def view_cfg_status_def refs_cfg_status_def view_pointer_def)
  have 2: "cfg.edits A Z a (\<lambda>n v. v\<lparr>cfg_ObservedGeneration := n\<rparr>)
      (observe_object CfgT the_cfg CfgCell (\<lambda>g st. st\<lparr>gcfg_ObservedGeneration := g\<rparr>) A a)" for Z
    by (rule cfg.edits_observe [OF ok]) (simp_all add: view_cfg_status_def refs_cfg_status_def)
  have "mark_published A a = do { _ \<leftarrow> ?types;
     _ \<leftarrow> observe_object CfgT the_cfg CfgCell (\<lambda>g st. st\<lparr>gcfg_ObservedGeneration := g\<rparr>) A a;
     set_object_condition CfgT the_cfg CfgCell gcfg_Conditions (\<lambda>q st. st\<lparr>gcfg_Conditions := q\<rparr>) A a published_condition }"
    by (simp add: mark_published_def)
  moreover note edits = cfg.edits_bind [OF 1 cfg.edits_bind [OF 2 cfg.edits_set_condition [OF ok]]]
  ultimately show ?thesis
    by (simp only:) (intro exI conjI allI, rule edits, simp add: published_config_def)
qed

section \<open>Facts: copied, then assigned to\<close>

lemma spm_patched:
  assumes ok: "apimachinery_ok A L" and edits: "\<exists>f. (\<forall>Z. spm.edits A Z a f m) \<and> f (Generation (spm_meta x)) (spm_status x) = st"
    and al: "allocated h (refs_spm_at A h (Some a))" and view: "view_spm_at A h (Some a) = Some (tm, x)"
    and run: "run_state (with_base A a m) h = (base, h')"
  shows "view_spm_at A h' base = Some (tm, x) \<and> view_spm_at A h' (Some a) = Some (tm, x\<lparr>spm_status := st\<rparr>)"
proof -
  let ?W = "\<lambda>tm s m v. (tm, \<lparr>spm_meta = m, spm_PaymentMethodRef = pmlr_Name (spms_PaymentMethodRef s), spm_status = v\<rparr>)"
  have W: "view_spm A g y = ?W (o_TypeMeta y) (o_Spec y) (meta_view A g (o_ObjectMeta y)) (view_spm_status g (o_Status y))" for g y
    by (simp add: view_spm_def)
  obtain f where f: "\<And>Z. spm.edits A Z a f m" "f (Generation (spm_meta x)) (spm_status x) = st" using edits by blast
  from spm.copied_then_edited [OF ok W object_DeepCopy_deep(1) [OF ok] f(1) al refl
      run [unfolded with_base_def]] view f(2)
  show ?thesis by (auto simp: view_pointer_def view_spm_def)
qed

lemma sc_patched:
  assumes ok: "apimachinery_ok A L" and edits: "\<exists>f. (\<forall>Z. sc.edits A Z a f m) \<and> f (Generation (sc_meta x)) (sc_status x) = st"
    and al: "allocated h (refs_sc_at A h (Some a))" and view: "view_sc_at A h (Some a) = Some (tm, x)"
    and run: "run_state (with_copy (StripeCustomer_DeepCopy A) a m) h = (base, h')"
  shows "view_sc_at A h' base = Some (tm, x) \<and> view_sc_at A h' (Some a) = Some (tm, x\<lparr>sc_status := st\<rparr>)"
proof -
  let ?W = "\<lambda>tm s m v. (tm, \<lparr>sc_meta = m, sc_BillingAccountRef = balr_Name (scs_BillingAccountRef s), sc_status = v\<rparr>)"
  have W: "view_sc A g y = ?W (o_TypeMeta y) (o_Spec y) (meta_view A g (o_ObjectMeta y)) (view_sc_status g (o_Status y))" for g y
    by (simp add: view_sc_def)
  obtain f where f: "\<And>Z. sc.edits A Z a f m" "f (Generation (sc_meta x)) (sc_status x) = st" using edits by blast
  from sc.copied_then_edited [OF ok W object_DeepCopy_deep(2) [OF ok] f(1) al refl run] view f(2)
  show ?thesis by (auto simp: view_pointer_def view_sc_def)
qed

lemma cfg_patched:
  assumes ok: "apimachinery_ok A L" and edits: "\<exists>f. (\<forall>Z. cfg.edits A Z a f m) \<and> f (Generation (cfg_meta x)) (cfg_status x) = st"
    and al: "allocated h (refs_cfg_at A h (Some a))" and view: "view_cfg_at A h (Some a) = Some (tm, x)"
    and run: "run_state (with_copy (StripeProviderConfig_DeepCopy A) a m) h = (base, h')"
  shows "view_cfg_at A h' base = Some (tm, x) \<and> view_cfg_at A h' (Some a) = Some (tm, x\<lparr>cfg_status := st\<rparr>)"
proof -
  let ?W = "\<lambda>tm s m v. (tm, \<lparr>cfg_meta = m, cfg_PublishableKey = cfgs_PublishableKey s, cfg_APIVersion = cfgs_APIVersion s,
    cfg_status = v\<rparr>)"
  have W: "view_cfg A g y = ?W (o_TypeMeta y) (o_Spec y) (meta_view A g (o_ObjectMeta y)) (view_cfg_status g (o_Status y))" for g y
    by (simp add: view_cfg_def)
  obtain f where f: "\<And>Z. cfg.edits A Z a f m" "f (Generation (cfg_meta x)) (cfg_status x) = st" using edits by blast
  from cfg.copied_then_edited [OF ok W object_DeepCopy_deep(3) [OF ok] f(1) al refl run] view f(2)
  show ?thesis by (auto simp: view_pointer_def view_cfg_def)
qed

section \<open>Properties\<close>

text \<open>
  C18 (refinement): a patch is made of the values the model says: when the webhook records a success or a
  failure, or the reconciler an issued SetupIntent, on an object in memory, changing it through its pointers, the deep
  copy taken before still shows the object as it was read, and the object shows exactly the status of
  success_status, failure_status or awaiting_status. No assignment reaches the copy.
\<close>

theorem patches_start_from_snapshots:
  assumes "apimachinery_ok A (lib E)" and "allocated h (refs_spm_at A h (Some a))"
    and "view_spm_at A h (Some a) = Some (tm, x)"
    and "(m, st) \<in> {(mark_active A a si pm now, success_status (lib E) x si pm now),
      (mark_failed A a si, failure_status (lib E) x si),
      (mark_awaiting A (os E) a c res e taxErr, awaiting_status E x c res e taxErr)}"
    and "run_state (with_base A a m) h = (base, h')"
  shows "view_spm_at A h' base = Some (tm, x) \<and> view_spm_at A h' (Some a) = Some (tm, x\<lparr>spm_status := st\<rparr>)"
  using assms(4) spm_patched [OF assms(1) _ assms(2,3,5)] mark_active_edits [OF assms(1)]
    mark_failed_edits [OF assms(1)] mark_awaiting_edits [OF assms(1)] by fast

text \<open>
  C19 (refinement): an unchanged StripeCustomer is not patched, and a changed one always is: with the
  conditions set in place, through pointers that the deep copy does not share, the comparison of
  patchStatus answers that nothing changed exactly when the status was the one to be
  written; otherwise the base of the patch still shows the object as it was read, and the object shows
  the status that is written.
\<close>

theorem comparison_sees_changes:
  assumes "apimachinery_ok A L" and "allocated h (refs_sc_at A h (Some a))"
    and "view_sc_at A h (Some a) = Some (tm, x)" and "run_state (compare_status A a c r t) h = (base, h')"
  shows "(base = None \<longleftrightarrow> sc_status x = synced_status L x c r t) \<and>
    (base \<noteq> None \<longrightarrow> view_sc_at A h' base = Some (tm, x)) \<and>
    view_sc_at A h' (Some a) = Some (tm, x\<lparr>sc_status := synced_status L x c r t\<rparr>)"
proof -
  obtain p h1 where copy: "run_state (with_copy (StripeCustomer_DeepCopy A) a (mark_synced A a c r t)) h = (p, h1)"
    by fastforce
  note patched = sc_patched [OF assms(1) mark_synced_edits [OF assms(1)] assms(2,3) copy]
  obtain b where b: "p = Some b" "view_sc A h1 (the_sc (cells h1 (ScT, b))) = (tm, x)"
    using patched by (auto simp: view_pointer_def)
  have "view_sc_status h1 (o_Status (the_sc (cells h1 (ScT, b)))) = sc_status x"
    "view_sc_status h1 (o_Status (the_sc (cells h1 (ScT, a)))) = synced_status L x c r t"
    using b(2) patched by (auto simp: view_sc_def view_pointer_def)
  with copy assms(4) b(1) have "h' = h1" "base = (if sc_status x = synced_status L x c r t then None else p)"
    by (auto simp: compare_status_def equal_statuses_def)
  with patched b(1) show ?thesis by simp
qed

text \<open>The patch of a configuration starts from what was read as well.\<close>

lemma config_patch_starts_from_snapshot:
  assumes "apimachinery_ok A L" and "allocated h (refs_cfg_at A h (Some a))"
    and "view_cfg_at A h (Some a) = Some (tm, x)"
    and "run_state (with_copy (StripeProviderConfig_DeepCopy A) a (mark_published A a)) h = (base, h')"
  shows "view_cfg_at A h' base = Some (tm, x) \<and> view_cfg_at A h' (Some a) = Some (tm, published_config L x)"
  using cfg_patched [OF assms(1) mark_published_edits [OF assms(1)] assms(2,3,4)] by (simp add: published_config_def)

section \<open>Witnesses\<close>

text \<open>An event about another SetupIntent, written through the pointer, is not seen by the patch's base.\<close>

theorem patches_start_from_snapshots_witness:
  "\<exists>base h'. view_spm_at sample_apimachinery h' base = Some (('''', ''''), sample_view) \<and>
     view_spm_at sample_apimachinery h' (Some 0) =
       Some (('''', ''''), sample_view\<lparr>spm_status := failure_status sample_lib sample_view declined_payload\<rparr>) \<and>
     SetupIntent (failure_status sample_lib sample_view declined_payload) \<noteq> SetupIntent (spm_status sample_view)"
proof -
  obtain base h' where run: "run_state (with_base sample_apimachinery 0 (mark_failed sample_apimachinery 0 declined_payload)) sample_heap = (base, h')"
    by fastforce
  have lib: "lib sample_env = sample_lib" by (simp add: sample_env_def)
  have "view_spm_at sample_apimachinery h' base = Some (('''', ''''), sample_view) \<and>
     view_spm_at sample_apimachinery h' (Some 0) =
       Some (('''', ''''), sample_view\<lparr>spm_status := failure_status sample_lib sample_view declined_payload\<rparr>)"
    using patches_start_from_snapshots [where E = sample_env, unfolded lib, OF sample_apimachinery_ok
        sample_heap_view(2,1) _ run] by blast
  moreover have "SetupIntent (failure_status sample_lib sample_view declined_payload) \<noteq> SetupIntent (spm_status sample_view)"
    by (simp add: failure_status_def sample_view_def declined_payload_def setup_intent_or_empty_def Let_def)
  ultimately show ?thesis by blast
qed

text \<open>A StripeCustomer with nothing on its status.\<close>

definition customer_heap :: "(object_meta, unit, unit) go_heap" where
  "customer_heap = \<lparr>next_address = 1, cells = (\<lambda>_. LibCell ())((ScT, 0) := ScCell \<lparr>o_TypeMeta = ('''', ''''),
     o_ObjectMeta = new_object_meta ''org'' ''acme'', o_Spec = \<lparr>scs_BillingAccountRef = \<lparr>balr_Name = ''acme''\<rparr>\<rparr>,
     o_Status = \<lparr>gsc_StripeCustomerID = '''', gsc_Conditions = None, gsc_ObservedGeneration = 0\<rparr>\<rparr>)\<rparr>"

definition customer_view :: stripe_customer where
  "customer_view = \<lparr>sc_meta = new_object_meta ''org'' ''acme'', sc_BillingAccountRef = ''acme'', sc_status = empty_sc_status\<rparr>"

theorem comparison_sees_changes_witness:
  "\<exists>b h'. run_state (compare_status sample_apimachinery 0 ''cus_1'' (ready_synced ''cus_1'') None) customer_heap = (Some b, h') \<and>
     view_sc_at sample_apimachinery h' (Some b) = Some (('''', ''''), customer_view)"
proof -
  obtain base h' where run: "run_state (compare_status sample_apimachinery 0 ''cus_1'' (ready_synced ''cus_1'') None)
      customer_heap = (base, h')" by fastforce
  have "view_sc_at sample_apimachinery customer_heap (Some 0) = Some (('''', ''''), customer_view)"
    "allocated customer_heap (refs_sc_at sample_apimachinery customer_heap (Some 0))"
    by (simp_all add: customer_heap_def customer_view_def sample_apimachinery_def view_pointer_def view_sc_def
        view_sc_status_def view_conditions_def empty_sc_status_def allocated_def refs_pointer_def refs_object_def
        refs_sc_status_def refs_conditions_def)
  note seen = comparison_sees_changes [OF sample_apimachinery_ok this(2,1) run]
  have "sc_status customer_view \<noteq> synced_status sample_lib customer_view ''cus_1'' (ready_synced ''cus_1'') None"
    by (simp add: customer_view_def empty_sc_status_def synced_status_def Let_def)
  with seen run show ?thesis by (cases base) auto
qed

end
