(* ===== verification/Operator.thy ===== *)
theory Operator
  imports Complex_Main BillingAccounts PaymentMethodWatch ProviderConfig Webhook EnsureLocks
begin

text \<open>
  The operator's entry point (\<open>cmd/main.go\<close>) and the \<open>SetupWithManager\<close> functions it calls:
  the values of the flags, the manager's options, the leader election's client configuration, what each controller
  is registered for, and the order of the set-up with its exits. The manager of controller-runtime is
  a parameter; each call on it is an effect with its outcome. \<open>NewStripeCustomers\<close> returns a new
  address, a number here, so that sharing one instance can be told from having two.
\<close>

section \<open>Flags and options\<close>

record flags =
  metricsAddr :: string
  probeAddr :: string
  enableLeader :: bool
  leaderNS :: string
  providerName :: string
  providerConfigName :: string
  webhookPort :: int
  webhookCertDir :: string

definition default_flags :: flags where
  "default_flags = \<lparr>metricsAddr = '':8080'', probeAddr = '':8081'', enableLeader = False, leaderNS = '''',
     providerName = ''stripe'', providerConfigName = ''default'', webhookPort = 9443,
     webhookCertDir = ''''\<rparr>"

text \<open>The fields of \<open>rest.Config\<close> that the code sets, and the others in one.\<close>

datatype 'd dial = NetDialer gotime gotime  \<comment> \<open>timeout and keep-alive\<close> | OtherDial 'd

record ('l, 'd, 'o) rest_config =
  RateLimiter :: "'l option"
  QPS :: real
  Burst :: int
  Dial :: "'d dial option"
  rest_fields :: 'o

definition leaderElectionQPS :: real where "leaderElectionQPS = 5"
definition leaderElectionBurst :: int where "leaderElectionBurst = 10"

definition leaderElectionRestConfig :: "('l, 'd, 'o) rest_config \<Rightarrow> ('l, 'd, 'o) rest_config" where
  "leaderElectionRestConfig base =
     (let cfg = base;
          cfg = cfg\<lparr>RateLimiter := None\<rparr>;
          cfg = cfg\<lparr>QPS := leaderElectionQPS\<rparr>;
          cfg = cfg\<lparr>Burst := leaderElectionBurst\<rparr>
      in cfg\<lparr>Dial := Some (NetDialer (30 * second) (30 * second))\<rparr>)"

record webhook_options =
  wo_Port :: int
  wo_CertDir :: string  \<comment> \<open>empty for the library's default\<close>

definition webhookOpts :: "flags \<Rightarrow> webhook_options" where
  "webhookOpts fl =
     (let o1 = \<lparr>wo_Port = webhookPort fl, wo_CertDir = ''''\<rparr> in
      if webhookCertDir fl \<noteq> '''' then o1\<lparr>wo_CertDir := webhookCertDir fl\<rparr> else o1)"

record 'r ctrl_options =
  mo_MetricsBindAddress :: string
  mo_HealthProbeBindAddress :: string
  mo_LeaderElection :: bool
  mo_LeaderElectionID :: string
  mo_LeaderElectionNamespace :: string
  mo_LeaderElectionConfig :: 'r
  mo_LeaderElectionReleaseOnCancel :: bool
  mo_WebhookServer :: webhook_options

definition manager_options :: "flags \<Rightarrow> ('l, 'd, 'o) rest_config \<Rightarrow> ('l, 'd, 'o) rest_config ctrl_options" where
  "manager_options fl cfg = \<lparr>mo_MetricsBindAddress = metricsAddr fl,
     mo_HealthProbeBindAddress = probeAddr fl, mo_LeaderElection = enableLeader fl,
     mo_LeaderElectionID = ''stripe.billing.miloapis.com'', mo_LeaderElectionNamespace = leaderNS fl,
     mo_LeaderElectionConfig = leaderElectionRestConfig cfg, mo_LeaderElectionReleaseOnCancel = True,
     mo_WebhookServer = webhookOpts fl\<rparr>"

section \<open>Controllers and their registrations\<close>

datatype kind = PaymentMethodKind | StripePaymentMethodKind | BillingAccountKind
  | BillingAccountBindingKind | StripeCustomerKind | StripeProviderConfigKind

datatype update_filter = GenerationChanged | InvoiceArrangementChanged | AnyOf "update_filter list"

datatype mapper = MapBinding | MapStripePaymentMethod

type_synonym customers_ref = nat  \<comment> \<open>the address of a \<open>StripeCustomers\<close>\<close>

datatype controller =
    PaymentMethodWatcher string                                    \<comment> \<open>\<open>ProviderName\<close>\<close>
  | StripePaymentMethodReconciler spm_reconciler "customers_ref option"
  | BillingAccountReconciler string "customers_ref option"         \<comment> \<open>\<open>ProviderConfigName\<close>\<close>
  | StripeProviderConfigReconciler

record registration =
  Named :: string
  For :: kind
  ForPredicates :: "update_filter list"
  Owns :: "(kind \<times> update_filter list) list"
  Watches :: "(kind \<times> mapper) list"
  Reconciler :: controller

text \<open>\<open>addr\<close> is the address \<open>NewStripeCustomers\<close> would return.\<close>

definition customers_or_new :: "customers_ref option \<Rightarrow> customers_ref \<Rightarrow> customers_ref" where
  "customers_or_new c addr = (case c of None \<Rightarrow> addr | Some c \<Rightarrow> c)"

text \<open>
  \<open>customers()\<close> of the two reconcilers, for one that was used without a manager: the set it answers, and
  the field afterwards.
\<close>

definition customers_of :: "customers_ref option \<Rightarrow> customers_ref \<Rightarrow> customers_ref \<times> customers_ref option" where
  "customers_of c addr = (case c of None \<Rightarrow> (addr, Some addr) | Some c \<Rightarrow> (c, Some c))"

definition watcher_registration :: "string \<Rightarrow> registration" where
  "watcher_registration p = \<lparr>Named = ''stripe-paymentmethod-watcher'', For = PaymentMethodKind,
     ForPredicates = [], Owns = [(StripePaymentMethodKind, [])], Watches = [],
     Reconciler = PaymentMethodWatcher p\<rparr>"

definition spm_registration :: "customers_ref \<Rightarrow> spm_reconciler \<Rightarrow> customers_ref option \<Rightarrow> registration" where
  "spm_registration addr rc c = \<lparr>Named = ''stripepaymentmethod'', For = StripePaymentMethodKind,
     ForPredicates = [], Owns = [], Watches = [],
     Reconciler = StripePaymentMethodReconciler rc (Some (customers_or_new c addr))\<rparr>"

definition account_registration :: "customers_ref \<Rightarrow> string \<Rightarrow> customers_ref option \<Rightarrow> registration" where
  "account_registration addr n c = \<lparr>Named = ''billingaccount'', For = BillingAccountKind,
     ForPredicates = [AnyOf [GenerationChanged, InvoiceArrangementChanged]],
     Owns = [(StripeCustomerKind, [GenerationChanged])],
     Watches = [(BillingAccountBindingKind, MapBinding), (StripePaymentMethodKind, MapStripePaymentMethod)],
     Reconciler = BillingAccountReconciler n (Some (customers_or_new c addr))\<rparr>"

definition config_registration :: registration where
  "config_registration = \<lparr>Named = ''stripeproviderconfig'', For = StripeProviderConfigKind,
     ForPredicates = [], Owns = [], Watches = [], Reconciler = StripeProviderConfigReconciler\<rparr>"

fun registration_of :: "customers_ref \<Rightarrow> controller \<Rightarrow> registration" where
  "registration_of addr (PaymentMethodWatcher p) = watcher_registration p"
| "registration_of addr (StripePaymentMethodReconciler rc c) = spm_registration addr rc c"
| "registration_of addr (BillingAccountReconciler n c) = account_registration addr n c"
| "registration_of addr StripeProviderConfigReconciler = config_registration"

section \<open>The manager\<close>

datatype 'r setup_call =
    NewManager "'r ctrl_options" bool
  | Complete registration bool
  | RegisterWebhook string webhook deduper
  | AddHealthzCheck string bool
  | AddReadyzCheck string bool
  | Start bool

record ('w, 'r) manager =
  mgr_GetConfig :: "'w \<Rightarrow> 'r option \<times> 'w"  \<comment> \<open>\<open>GetConfigOrDie\<close>; \<open>None\<close> ends the process\<close>
  mgr_New :: "'r ctrl_options \<Rightarrow> 'w \<Rightarrow> go_error option \<times> 'w"
  mgr_Complete :: "registration \<Rightarrow> 'w \<Rightarrow> go_error option \<times> 'w"
  mgr_Register :: "string \<Rightarrow> webhook \<Rightarrow> 'w \<Rightarrow> unit \<times> 'w"
  mgr_AddHealthzCheck :: "string \<Rightarrow> 'w \<Rightarrow> go_error option \<times> 'w"
  mgr_AddReadyzCheck :: "string \<Rightarrow> 'w \<Rightarrow> go_error option \<times> 'w"
  mgr_Start :: "'w \<Rightarrow> go_error option \<times> 'w"

type_synonym ('w, 'r, 'a) setup_prog = "('w, 'r setup_call, 'a) io"

definition SetupWithManager ::
  "('w, 'r) manager \<Rightarrow> customers_ref \<Rightarrow> controller \<Rightarrow> ('w, 'r, go_error option) setup_prog" where
  "SetupWithManager M addr c =
     act (mgr_Complete M (registration_of addr c)) (\<lambda>e. Complete (registration_of addr c) (e = None))"

definition Endpoint :: string where "Endpoint = ''/webhooks/stripe''"

definition NewStripeWebhook :: "string \<Rightarrow> webhook \<times> deduper" where
  "NewStripeWebhook n = (\<lparr>wh_ProviderConfigName = n, wh_Recorder = False\<rparr>, NewMemoryDeduper 0)"

definition SetupWebhookWithManager ::
  "('w, 'r) manager \<Rightarrow> webhook \<Rightarrow> deduper \<Rightarrow> ('w, 'r, go_error option) setup_prog" where
  "SetupWebhookWithManager M wh d = do {
     let wh = (if \<not> wh_Recorder wh then wh\<lparr>wh_Recorder := True\<rparr> else wh);
     _ \<leftarrow> act (mgr_Register M Endpoint wh) (\<lambda>_. RegisterWebhook Endpoint wh d);
     ret None
   }"

section \<open>The program\<close>

text \<open>The answer is the exit code; \<open>os.Exit(1)\<close> leaves out what follows.\<close>

definition or_exit :: "('w, 'r, go_error option) setup_prog \<Rightarrow> ('w, 'r, int) setup_prog \<Rightarrow> ('w, 'r, int) setup_prog" where
  "or_exit m k = do {
     e \<leftarrow> m;
     (case e of Some _ \<Rightarrow> ret 1 | None \<Rightarrow> k)
   }"

text \<open>\<open>main\<close> from the manager on.\<close>

definition run_manager ::
  "('w, ('l, 'd, 'o) rest_config) manager \<Rightarrow> flags \<Rightarrow> ('l, 'd, 'o) rest_config
    \<Rightarrow> ('w, ('l, 'd, 'o) rest_config, int) setup_prog" where
  "run_manager M fl cfg =
     or_exit (act (mgr_New M (manager_options fl cfg)) (\<lambda>e. NewManager (manager_options fl cfg) (e = None)))
     (or_exit (SetupWithManager M 1 (PaymentMethodWatcher (providerName fl)))
     (let customers = 0 in
      or_exit (SetupWithManager M 1 (StripePaymentMethodReconciler
        \<lparr>ProviderConfigName = providerConfigName fl, SetupIntentTTL = 0\<rparr> (Some customers)))
     (or_exit (SetupWithManager M 1 (BillingAccountReconciler (providerConfigName fl) (Some customers)))
     (or_exit (SetupWithManager M 1 StripeProviderConfigReconciler)
     (case NewStripeWebhook (providerConfigName fl) of (stripeHook, dedupe) \<Rightarrow>
      or_exit (SetupWebhookWithManager M stripeHook dedupe)
     (or_exit (act (mgr_AddHealthzCheck M ''healthz'') (\<lambda>e. AddHealthzCheck ''healthz'' (e = None)))
     (or_exit (act (mgr_AddReadyzCheck M ''readyz'') (\<lambda>e. AddReadyzCheck ''readyz'' (e = None)))
     (or_exit (act (mgr_Start M) (\<lambda>e. Start (e = None)))
      (ret 0)))))))))"

definition main :: "('w, ('l, 'd, 'o) rest_config) manager \<Rightarrow> flags \<Rightarrow> ('w, ('l, 'd, 'o) rest_config, int) setup_prog" where
  "main M fl = do {
     c \<leftarrow> ask (mgr_GetConfig M);
     case c of None \<Rightarrow> ret 1 | Some cfg \<Rightarrow> run_manager M fl cfg
   }"

section \<open>Facts\<close>

text \<open>The calls of a complete set-up.\<close>

definition full_setup :: "flags \<Rightarrow> ('l, 'd, 'o) rest_config \<Rightarrow> ('l, 'd, 'o) rest_config setup_call list" where
  "full_setup fl cfg =
     [NewManager (manager_options fl cfg) True,
      Complete (watcher_registration (providerName fl)) True,
      Complete (spm_registration 1 \<lparr>ProviderConfigName = providerConfigName fl, SetupIntentTTL = 0\<rparr> (Some 0)) True,
      Complete (account_registration 1 (providerConfigName fl) (Some 0)) True,
      Complete config_registration True,
      RegisterWebhook Endpoint \<lparr>wh_ProviderConfigName = providerConfigName fl, wh_Recorder = True\<rparr>
        (NewMemoryDeduper 0),
      AddHealthzCheck ''healthz'' True,
      AddReadyzCheck ''readyz'' True]"

text \<open>A set-up that makes the calls \<open>full\<close> and starts, or fails on the way.\<close>

definition sets_up :: "'r setup_call list \<Rightarrow> ('w, 'r, int) setup_prog \<Rightarrow> bool" where
  "sets_up full m \<longleftrightarrow> (\<forall>s.
     (\<exists>ok. trace (snd (run_state m s)) = trace s @ full @ [Start ok] \<and>
        fst (run_state m s) = (if ok then 0 else 1)) \<or>
     (\<exists>es. trace (snd (run_state m s)) = trace s @ es \<and> (\<forall>ok. Start ok \<notin> set es) \<and>
        fst (run_state m s) = 1))"

lemma sets_up_start: "sets_up [] (or_exit (act f (\<lambda>e. Start (e = None))) (ret 0))"
proof -
  have "\<exists>ok. (e = None) = ok" for e :: "go_error option" by blast
  then show ?thesis by (auto simp: sets_up_def or_exit_def split: prod.split option.split)
qed

lemma sets_up_act:
  fixes k :: "('w, 'r, int) setup_prog"
  assumes "sets_up full k" and "\<And>e ok. ev e \<noteq> Start ok" and "ev None = x"
  shows "sets_up (x # full) (or_exit (act f ev) k)"
  unfolding sets_up_def
proof
  fix s :: "('w, 'r setup_call) st"
  obtain e w where e: "f (world s) = (e, w)" by fastforce
  let ?t = "s\<lparr>world := w, trace := trace s @ [ev e]\<rparr>"
  have run: "run_state (or_exit (act f ev) k) s = (case e of Some _ \<Rightarrow> (1, ?t) | None \<Rightarrow> run_state k ?t)"
    by (simp add: or_exit_def e split: option.split)
  show "(\<exists>ok. trace (snd (run_state (or_exit (act f ev) k) s)) = trace s @ (x # full) @ [Start ok] \<and>
        fst (run_state (or_exit (act f ev) k) s) = (if ok then 0 else 1)) \<or>
     (\<exists>es. trace (snd (run_state (or_exit (act f ev) k) s)) = trace s @ es \<and> (\<forall>ok. Start ok \<notin> set es) \<and>
        fst (run_state (or_exit (act f ev) k) s) = 1)"
  proof (cases e)
    case (Some a)
    then show ?thesis by (intro disjI2 exI [of _ "[ev e]"]) (simp add: run assms(2) [THEN not_sym])
  next
    case None
    from assms(1) [unfolded sets_up_def, rule_format, of ?t] show ?thesis
    proof (elim disjE exE conjE)
      fix ok
      assume "trace (snd (run_state k ?t)) = trace ?t @ full @ [Start ok]"
        "fst (run_state k ?t) = (if ok then 0 else 1)"
      then show ?thesis by (intro disjI1 exI [of _ ok]) (simp add: run None assms(3))
    next
      fix es
      assume "trace (snd (run_state k ?t)) = trace ?t @ es" "\<forall>ok. Start ok \<notin> set es"
        "fst (run_state k ?t) = 1"
      then show ?thesis
        by (intro disjI2 exI [of _ "ev e # es"]) (simp add: run None assms(2) [THEN not_sym])
    qed
  qed
qed

lemma setup_webhook_act:
  assumes "\<not> wh_Recorder wh"
  shows "or_exit (SetupWebhookWithManager M wh d) k = or_exit (act (\<lambda>w. (None, snd (mgr_Register M Endpoint
     (wh\<lparr>wh_Recorder := True\<rparr>) w))) (\<lambda>e. RegisterWebhook Endpoint (wh\<lparr>wh_Recorder := True\<rparr>) d)) k"
proof -
  have "run_state (or_exit (SetupWebhookWithManager M wh d) k) s = run_state (or_exit (act (\<lambda>w. (None,
     snd (mgr_Register M Endpoint (wh\<lparr>wh_Recorder := True\<rparr>) w)))
     (\<lambda>e. RegisterWebhook Endpoint (wh\<lparr>wh_Recorder := True\<rparr>) d)) k) s" for s
    using assms by (simp add: or_exit_def SetupWebhookWithManager_def Let_def split: prod.split)
  then show ?thesis by (intro state.expand ext)
qed

lemma run_manager_sets_up: "sets_up (full_setup fl cfg) (run_manager M fl cfg)"
proof -
  let ?wh = "\<lparr>wh_ProviderConfigName = providerConfigName fl, wh_Recorder = False\<rparr>"
  have "?wh\<lparr>wh_Recorder := True\<rparr> = \<lparr>wh_ProviderConfigName = providerConfigName fl, wh_Recorder = True\<rparr>"
    by simp
  then show ?thesis
    unfolding run_manager_def full_setup_def Let_def NewStripeWebhook_def prod.case SetupWithManager_def
      setup_webhook_act [of ?wh, simplified]
    by (intro sets_up_act sets_up_start) simp_all
qed

lemma shared_customers:
  "Reconciler (spm_registration addr rc (Some c)) = StripePaymentMethodReconciler rc (Some c)"
  "Reconciler (account_registration addr n (Some c)) = BillingAccountReconciler n (Some c)"
  by (simp_all add: spm_registration_def account_registration_def customers_or_new_def)

text \<open>One set, whoever asks first and however often; after \<open>SetupWithManager\<close>, the registered one.\<close>

lemma customers_kept:
  "customers_of (snd (customers_of c addr)) addr' = (fst (customers_of c addr), Some (fst (customers_of c addr)))"
  "customers_of (Some (customers_or_new c addr)) addr' = (customers_or_new c addr, Some (customers_or_new c addr))"
  by (simp_all add: customers_of_def split: option.split)

text \<open>
  After the flags are read: either the set-up is complete and the manager started, or nothing is
  started and the exit code is 1; it is 0 only when the manager ran and stopped without an error.
\<close>

lemma main_starts_or_exits:
  assumes "effects (main M fl) s = es" and "fst (run_state (main M fl) s) = code"
  shows "(\<exists>cfg ok. es = full_setup fl cfg @ [Start ok] \<and> code = (if ok then 0 else 1)) \<or>
    (\<forall>ok. Start ok \<notin> set es) \<and> code = 1"
proof -
  obtain c w where c: "mgr_GetConfig M (world s) = (c, w)" by fastforce
  show ?thesis
  proof (cases c)
    case None
    with c assms show ?thesis by (auto simp: effects_def main_def)
  next
    case (Some cfg)
    with c have "run_state (main M fl) s = run_state (run_manager M fl cfg) (s\<lparr>world := w\<rparr>)"
      by (simp add: main_def)
    then have run: "effects (main M fl) s = drop (length (trace s))
        (trace (snd (run_state (run_manager M fl cfg) (s\<lparr>world := w\<rparr>))))"
      "fst (run_state (main M fl) s) = fst (run_state (run_manager M fl cfg) (s\<lparr>world := w\<rparr>))"
      by (simp_all add: effects_def)
    from run_manager_sets_up [of fl cfg M, unfolded sets_up_def, THEN spec, of "s\<lparr>world := w\<rparr>"]
    show ?thesis
    proof (elim disjE exE conjE)
      fix ok
      assume "trace (snd (run_state (run_manager M fl cfg) (s\<lparr>world := w\<rparr>))) =
          trace (s\<lparr>world := w\<rparr>) @ full_setup fl cfg @ [Start ok]"
        "fst (run_state (run_manager M fl cfg) (s\<lparr>world := w\<rparr>)) = (if ok then 0 else 1)"
      with run assms show ?thesis by (intro disjI1 exI [of _ cfg] exI [of _ ok]) simp
    next
      fix es'
      assume "trace (snd (run_state (run_manager M fl cfg) (s\<lparr>world := w\<rparr>))) = trace (s\<lparr>world := w\<rparr>) @ es'"
        "\<forall>ok. Start ok \<notin> set es'" "fst (run_state (run_manager M fl cfg) (s\<lparr>world := w\<rparr>)) = 1"
      with run assms show ?thesis by (intro disjI2) simp
    qed
  qed
qed

section \<open>A sample manager\<close>

definition sample_manager :: "(unit, (unit, unit, unit) rest_config) manager" where
  "sample_manager = \<lparr>mgr_GetConfig = (\<lambda>w. (Some \<lparr>RateLimiter = Some (), QPS = 20, Burst = 30,
       Dial = None, rest_fields = ()\<rparr>, w)),
     mgr_New = (\<lambda>_ w. (None, w)), mgr_Complete = (\<lambda>_ w. (None, w)), mgr_Register = (\<lambda>_ _ w. ((), w)),
     mgr_AddHealthzCheck = (\<lambda>_ w. (None, w)), mgr_AddReadyzCheck = (\<lambda>_ w. (None, w)),
     mgr_Start = (\<lambda>w. (None, w))\<rparr>"

end
