(* ===== verification/CommandLine.thy ===== *)
theory CommandLine
  imports Complex_Main Operator
begin

text \<open>
  The command line (\<open>cmd/main.go\<close>): the flags the operator declares, \<open>flag.Parse\<close> of Go's
  standard library on them, with \<open>strconv.ParseBool\<close> and \<open>strconv.ParseInt\<close> behind it, and the
  process from its arguments to its exit code. The flags that libraries declare in the same set (zap's
  \<open>BindFlags\<close>, controller-runtime's \<open>kubeconfig\<close>) are a parameter: whether a name is declared, whether
  it is boolean, and what setting it does to the world. \<open>flag.CommandLine\<close> ends the process at an
  error, so that the text of the error and what was set before it do not matter.
\<close>

unbundle bit_operations_syntax

section \<open>Reading values\<close>

text \<open>\<open>strconv.ParseBool\<close>.\<close>

definition ParseBool :: "string \<Rightarrow> bool option" where
  "ParseBool s =
     (if s \<in> set [''1'', ''t'', ''T'', ''TRUE'', ''true'', ''True''] then Some True
      else if s \<in> set [''0'', ''f'', ''F'', ''FALSE'', ''false'', ''False''] then Some False
      else None)"

text \<open>\<open>lower\<close> of \<open>strconv\<close>: right for letters, and no other byte becomes a letter by it.\<close>

definition lower :: "char \<Rightarrow> nat" where
  "lower c = of_char c OR 32"

definition digit_in :: "nat \<Rightarrow> char \<Rightarrow> nat option" where
  "digit_in base c =
     (let d = (if is_digit c then Some (digit_val c)
               else if 97 \<le> lower c \<and> lower c \<le> 122 then Some (lower c - 97 + 10)
               else None)
      in case d of None \<Rightarrow> None | Some d \<Rightarrow> if base \<le> d then None else Some d)"

text \<open>The base prefix, with base 0: what follows it and the base.\<close>

definition base_prefix :: "string \<Rightarrow> nat \<times> string" where
  "base_prefix s =
     (case s of
        [] \<Rightarrow> (10, [])
      | c # cs \<Rightarrow>
          if c \<noteq> CHR ''0'' then (10, s)
          else (case cs of
              p # d # ds \<Rightarrow>
                if lower p = of_char (CHR ''b'') then (2, d # ds)
                else if lower p = of_char (CHR ''o'') then (8, d # ds)
                else if lower p = of_char (CHR ''x'') then (16, d # ds)
                else (8, cs)
            | _ \<Rightarrow> (8, cs)))"

fun digits_in :: "nat \<Rightarrow> int \<Rightarrow> string \<Rightarrow> int option" where
  "digits_in base n [] = Some n"
| "digits_in base n (c # cs) =
     (if c = CHR ''_'' then digits_in base n cs
      else case digit_in base c of None \<Rightarrow> None | Some d \<Rightarrow> digits_in base (int base * n + int d) cs)"

text \<open>\<open>underscoreOK\<close>: an underscore stands between digits, or between the base prefix and a digit.\<close>

datatype seen = Beginning | Digit | Underscore | Other

fun underscores_ok :: "bool \<Rightarrow> seen \<Rightarrow> string \<Rightarrow> bool" where
  "underscores_ok hex saw [] = (saw \<noteq> Underscore)"
| "underscores_ok hex saw (c # cs) =
     (if is_digit c \<or> hex \<and> 97 \<le> lower c \<and> lower c \<le> 102 then underscores_ok hex Digit cs
      else if c = CHR ''_'' then saw = Digit \<and> underscores_ok hex Underscore cs
      else saw \<noteq> Underscore \<and> underscores_ok hex Other cs)"

definition underscoreOK :: "string \<Rightarrow> bool" where
  "underscoreOK s =
     (case s of
        z # p # cs \<Rightarrow>
          if z = CHR ''0'' \<and> lower p \<in> set (map of_char ''box'')
          then underscores_ok (lower p = of_char (CHR ''x'')) Digit cs
          else underscores_ok False Beginning s
      | _ \<Rightarrow> underscores_ok False Beginning s)"

text \<open>\<open>strconv.ParseUint(s, 0, 64)\<close> and \<open>strconv.ParseInt(s, 0, 64)\<close>, without the kind of error.\<close>

definition ParseUint :: "string \<Rightarrow> int option" where
  "ParseUint s =
     (if s = [] then None
      else case base_prefix s of (base, ds) \<Rightarrow>
        (case digits_in base 0 ds of
           None \<Rightarrow> None
         | Some n \<Rightarrow>
             if 2 ^ 64 \<le> n then None
             else if CHR ''_'' \<in> set ds \<and> \<not> underscoreOK s then None
             else Some n))"

definition ParseInt :: "string \<Rightarrow> int option" where
  "ParseInt s =
     (let (neg, t) = (case s of
          [] \<Rightarrow> (False, [])
        | c # cs \<Rightarrow> if c = CHR ''-'' then (True, cs) else if c = CHR ''+'' then (False, cs) else (False, s))
      in case ParseUint t of
           None \<Rightarrow> None
         | Some n \<Rightarrow>
             if \<not> neg \<and> 2 ^ 63 \<le> n \<or> neg \<and> 2 ^ 63 < n then None
             else Some (if neg then - n else n))"

section \<open>The declared flags\<close>

text \<open>A declared flag: how its value is read, and what it is stored in.\<close>

datatype 'w flag_value =
    StringValue "string \<Rightarrow> flags \<Rightarrow> flags"
  | BoolValue "bool \<Rightarrow> flags \<Rightarrow> flags"
  | IntValue "int \<Rightarrow> flags \<Rightarrow> flags"
  | LibraryValue bool "string \<Rightarrow> 'w \<Rightarrow> 'w option"  \<comment> \<open>boolean or not, and \<open>Set\<close>\<close>

definition program_flags :: "(string \<times> 'w flag_value) list" where
  "program_flags =
     [(''metrics-bind-address'', StringValue (\<lambda>v fl. fl\<lparr>metricsAddr := v\<rparr>)),
      (''health-probe-bind-address'', StringValue (\<lambda>v fl. fl\<lparr>probeAddr := v\<rparr>)),
      (''leader-elect'', BoolValue (\<lambda>v fl. fl\<lparr>enableLeader := v\<rparr>)),
      (''leader-elect-namespace'', StringValue (\<lambda>v fl. fl\<lparr>leaderNS := v\<rparr>)),
      (''provider-name'', StringValue (\<lambda>v fl. fl\<lparr>providerName := v\<rparr>)),
      (''provider-config'', StringValue (\<lambda>v fl. fl\<lparr>providerConfigName := v\<rparr>)),
      (''webhook-port'', IntValue (\<lambda>v fl. fl\<lparr>webhookPort := v\<rparr>)),
      (''webhook-cert-dir'', StringValue (\<lambda>v fl. fl\<lparr>webhookCertDir := v\<rparr>))]"

type_synonym 'w library_flags = "string \<Rightarrow> (bool \<times> (string \<Rightarrow> 'w \<Rightarrow> 'w option)) option"

definition formal :: "'w library_flags \<Rightarrow> string \<Rightarrow> 'w flag_value option" where
  "formal libs n =
     (case map_of program_flags n of
        Some f \<Rightarrow> Some f
      | None \<Rightarrow> map_option (\<lambda>(b, store). LibraryValue b store) (libs n))"

text \<open>A name declared twice panics, which ends the process.\<close>

definition redefined :: "'w library_flags \<Rightarrow> bool" where
  "redefined libs = list_ex (\<lambda>(n, f :: unit flag_value). libs n \<noteq> None) program_flags"

fun IsBoolFlag :: "'w flag_value \<Rightarrow> bool" where
  "IsBoolFlag (BoolValue _) = True"
| "IsBoolFlag (LibraryValue b _) = b"
| "IsBoolFlag _ = False"

fun set_flag :: "'w flag_value \<Rightarrow> string \<Rightarrow> flags \<times> 'w \<Rightarrow> (flags \<times> 'w) option" where
  "set_flag (StringValue f) v (fl, w) = Some (f v fl, w)"
| "set_flag (BoolValue f) v (fl, w) = map_option (\<lambda>b. (f b fl, w)) (ParseBool v)"
| "set_flag (IntValue f) v (fl, w) = map_option (\<lambda>i. (f i fl, w)) (ParseInt v)"
| "set_flag (LibraryValue _ store) v (fl, w) = map_option (Pair fl) (store v w)"

section \<open>Parsing the arguments\<close>

datatype 's one_flag = NoFlag | BadFlag | ErrHelp | Seen "string list" 's

text \<open>The name of a flag and the value after the first equals sign, which cannot be the first byte.\<close>

fun split_value :: "string \<Rightarrow> string \<times> string option" where
  "split_value [] = ([], None)"
| "split_value (c # cs) = (c # takeWhile (\<lambda>x. x \<noteq> CHR ''='') cs,
     (case dropWhile (\<lambda>x. x \<noteq> CHR ''='') cs of [] \<Rightarrow> None | _ # v \<Rightarrow> Some v))"

definition seen_if :: "string list \<Rightarrow> 's option \<Rightarrow> 's one_flag" where
  "seen_if args r = (case r of None \<Rightarrow> BadFlag | Some s \<Rightarrow> Seen args s)"

definition parse_flag ::
  "'w library_flags \<Rightarrow> string \<Rightarrow> string list \<Rightarrow> flags \<times> 'w \<Rightarrow> (flags \<times> 'w) one_flag" where
  "parse_flag libs nv args s =
     (case split_value nv of (name, v) \<Rightarrow>
       (case formal libs name of
          None \<Rightarrow> if name = ''help'' \<or> name = ''h'' then ErrHelp else BadFlag
        | Some f \<Rightarrow>
            if IsBoolFlag f then seen_if args (set_flag f (case v of None \<Rightarrow> ''true'' | Some v \<Rightarrow> v) s)
            else (case v of
                Some v \<Rightarrow> seen_if args (set_flag f v s)
              | None \<Rightarrow>
                  (case args of
                     [] \<Rightarrow> BadFlag
                   | v # args \<Rightarrow> seen_if args (set_flag f v s)))))"

definition parseOne :: "'w library_flags \<Rightarrow> string list \<Rightarrow> flags \<times> 'w \<Rightarrow> (flags \<times> 'w) one_flag" where
  "parseOne libs args s =
     (case args of
        [] \<Rightarrow> NoFlag
      | a # args \<Rightarrow>
          (case a of
             m # c # cs \<Rightarrow>
               if m \<noteq> CHR ''-'' then NoFlag
               else if c = CHR ''-'' \<and> cs = [] then NoFlag
               else let nv = (if c = CHR ''-'' then cs else c # cs) in
                 if hd nv = CHR ''-'' \<or> hd nv = CHR ''='' then BadFlag
                 else parse_flag libs nv args s
           | _ \<Rightarrow> NoFlag))"

datatype 's parsed = Parsed 's | InvalidFlags | HelpWanted

lemma seen_if_Seen: "seen_if args r = Seen args' s' \<longleftrightarrow> args' = args \<and> r = Some s'"
  by (auto simp: seen_if_def split: option.splits)

lemma parse_flag_shorter: "parse_flag libs nv args s = Seen args' s' \<Longrightarrow> length args' \<le> length args"
  by (auto simp: parse_flag_def seen_if_Seen split: prod.splits option.splits if_splits list.splits)

lemma parseOne_shorter: "parseOne libs args s = Seen args' s' \<Longrightarrow> length args' < length args"
  unfolding parseOne_def Let_def
  by (auto dest: parse_flag_shorter simp: less_Suc_eq_le split: list.split_asm if_split_asm)

function flag_Parse :: "'w library_flags \<Rightarrow> string list \<Rightarrow> flags \<times> 'w \<Rightarrow> (flags \<times> 'w) parsed" where
  "flag_Parse libs args s =
     (case parseOne libs args s of
        NoFlag \<Rightarrow> Parsed s
      | BadFlag \<Rightarrow> InvalidFlags
      | ErrHelp \<Rightarrow> HelpWanted
      | Seen args s \<Rightarrow> flag_Parse libs args s)"
  by pat_completeness auto
termination
  by (relation "measure (\<lambda>(libs, args, s). length args)") (simp_all add: parseOne_shorter)

declare flag_Parse.simps [simp del]

section \<open>The process\<close>

text \<open>\<open>main\<close> from its arguments to the exit code, which is 2 after a panic and after a bad command line.\<close>

definition main_process ::
  "'w library_flags \<Rightarrow> ('w, ('l, 'd, 'o) rest_config) manager \<Rightarrow> string list
    \<Rightarrow> ('w, ('l, 'd, 'o) rest_config, int) setup_prog" where
  "main_process libs M args =
     (if redefined libs then ret 2
      else State (\<lambda>s.
        case flag_Parse libs args (default_flags, world s) of
          InvalidFlags \<Rightarrow> (2, s)
        | HelpWanted \<Rightarrow> (0, s)
        | Parsed (fl, w) \<Rightarrow> run_state (main M fl) (s\<lparr>world := w\<rparr>)))"

section \<open>Reading what is printed\<close>

text \<open>
  The interface \<open>flag.Value\<close>: \<open>String\<close> prints a value and \<open>Set\<close> reads one; for the values \<open>ok\<close> admits,
  \<open>Set\<close> reads what \<open>String\<close> prints, and what it prints is not taken for a flag without a value.
\<close>

locale flag_value =
  fixes String :: "'a \<Rightarrow> string" and Set :: "string \<Rightarrow> 'a option" and ok :: "'a \<Rightarrow> bool"
  assumes Set_String: "ok x \<Longrightarrow> Set (String x) = Some x"
begin

lemma assigned: "ok x \<Longrightarrow> map_option f (Set (String x)) = Some (f x)"
  by (simp add: Set_String)

lemma Set_all: "list_all ok xs \<Longrightarrow> those (map (\<lambda>x. Set (String x)) xs) = Some xs"
  by (induction xs) (simp_all add: Set_String)

end

interpretation string_value: flag_value "\<lambda>s. s" Some "\<lambda>_. True"
  by unfold_locales simp

definition FormatBool :: "bool \<Rightarrow> string" where
  "FormatBool b = (if b then ''true'' else ''false'')"

interpretation bool_value: flag_value FormatBool ParseBool "\<lambda>_. True"
  by unfold_locales (simp add: FormatBool_def ParseBool_def)

lemma digits_in_decimal:
  assumes "list_all is_digit ds"
  shows "digits_in 10 (int n) ds = Some (int (foldl (\<lambda>n c. 10 * n + digit_val c) n ds))"
  using assms
proof (induction ds arbitrary: n)
  case (Cons c cs)
  then have "is_digit c" by simp
  then have "c \<noteq> CHR ''_''" "digit_val c < 10" by (auto simp: is_digit_def digit_val_def)
  with Cons(1) [of "10 * n + digit_val c"] Cons(2) \<open>is_digit c\<close> show ?case by (simp add: digit_in_def)
qed simp

lemma digit_digit_val: "is_digit c \<Longrightarrow> digit (digit_val c) = c"
  by (simp add: digit_def digit_val_def is_digit_def)

lemma show_nat_head:
  assumes "0 < n"
  shows "hd (show_nat n) \<noteq> CHR ''0''"
  using assms
proof (induction n rule: show_nat.induct)
  case (1 n)
  show ?case
  proof (cases "n < 10")
    case True
    then have "digit n \<noteq> CHR ''0''"
      using digit_digit(2) [of n] 1(2) by (auto simp: digit_val_def)
    with True show ?thesis by (simp add: show_nat.simps [of n])
  next
    case False
    with 1 have "hd (show_nat (n div 10)) \<noteq> CHR ''0''" by simp
    with False show ?thesis
      using show_nat_digits [of "n div 10"] by (simp add: show_nat.simps [of n])
  qed
qed

lemma ParseUint_show_nat:
  assumes "n < 2 ^ 64"
  shows "ParseUint (show_nat n) = Some (int n)"
proof (cases "n = 0")
  case True
  have "of_char (CHR ''0'') = (48 :: nat)" by simp
  then have "char_of (48 :: nat) = CHR ''0''" by (metis char_of_char)
  with True have "show_nat n = ''0''" by (simp add: show_nat.simps digit_def)
  with True show ?thesis by (simp add: ParseUint_def base_prefix_def)
next
  case False
  obtain c cs where c: "show_nat n = c # cs" using show_nat_digits [of n] by (cases "show_nat n") auto
  with False have "c \<noteq> CHR ''0''" using show_nat_head [of n] by simp
  then have base: "base_prefix (show_nat n) = (10, show_nat n)" by (simp add: base_prefix_def c)
  have digits: "digits_in 10 0 (show_nat n) = Some (int n)"
    using digits_in_decimal [of "show_nat n" 0] show_nat_digits [of n] digits_val_show_nat [of n]
    by (simp add: digits_val_def)
  have "CHR ''_'' \<notin> set (show_nat n)"
    using show_nat_digits [of n] by (auto simp: list_all_iff is_digit_def)
  with base digits assms c show ?thesis by (simp add: ParseUint_def)
qed

definition int64 :: "int \<Rightarrow> bool" where
  "int64 i \<longleftrightarrow> - (2 ^ 63) \<le> i \<and> i < 2 ^ 63"

lemma ParseInt_show_int:
  assumes "int64 i"
  shows "ParseInt (show_int i) = Some i"
proof (cases "i < 0")
  case True
  with assms have "nat (- i) < 2 ^ 64" "nat (- i) \<le> 2 ^ 63" by (auto simp: int64_def nat_less_iff)
  with True show ?thesis by (simp add: ParseInt_def show_int_def ParseUint_show_nat)
next
  case False
  obtain c cs where c: "show_nat (nat i) = c # cs" "is_digit c"
    using show_nat_digits [of "nat i"] by (cases "show_nat (nat i)") auto
  then have "c \<noteq> CHR ''-''" "c \<noteq> CHR ''+''" by (auto simp: is_digit_def)
  moreover have "nat i < 2 ^ 64" "nat i < 2 ^ 63"
    using assms False by (auto simp: int64_def nat_less_iff)
  ultimately show ?thesis
    using False c ParseUint_show_nat [of "nat i"] by (simp add: ParseInt_def show_int_def)
qed

interpretation int_value: flag_value show_int ParseInt int64
  by unfold_locales (rule ParseInt_show_int)

section \<open>Settings and how they are written\<close>

datatype setting =
    MetricsBindAddress string | HealthProbeBindAddress string | LeaderElect bool
  | LeaderElectNamespace string | Provider string | ProviderConfig string
  | WebhookPort int | WebhookCertDir string

fun flag_name :: "setting \<Rightarrow> string" where
  "flag_name (MetricsBindAddress _) = ''metrics-bind-address''"
| "flag_name (HealthProbeBindAddress _) = ''health-probe-bind-address''"
| "flag_name (LeaderElect _) = ''leader-elect''"
| "flag_name (LeaderElectNamespace _) = ''leader-elect-namespace''"
| "flag_name (Provider _) = ''provider-name''"
| "flag_name (ProviderConfig _) = ''provider-config''"
| "flag_name (WebhookPort _) = ''webhook-port''"
| "flag_name (WebhookCertDir _) = ''webhook-cert-dir''"

fun flag_text :: "setting \<Rightarrow> string" where
  "flag_text (LeaderElect b) = FormatBool b"
| "flag_text (WebhookPort i) = show_int i"
| "flag_text (MetricsBindAddress v) = v"
| "flag_text (HealthProbeBindAddress v) = v"
| "flag_text (LeaderElectNamespace v) = v"
| "flag_text (Provider v) = v"
| "flag_text (ProviderConfig v) = v"
| "flag_text (WebhookCertDir v) = v"

fun assign :: "setting \<Rightarrow> flags \<Rightarrow> flags" where
  "assign (MetricsBindAddress v) fl = fl\<lparr>metricsAddr := v\<rparr>"
| "assign (HealthProbeBindAddress v) fl = fl\<lparr>probeAddr := v\<rparr>"
| "assign (LeaderElect v) fl = fl\<lparr>enableLeader := v\<rparr>"
| "assign (LeaderElectNamespace v) fl = fl\<lparr>leaderNS := v\<rparr>"
| "assign (Provider v) fl = fl\<lparr>providerName := v\<rparr>"
| "assign (ProviderConfig v) fl = fl\<lparr>providerConfigName := v\<rparr>"
| "assign (WebhookPort v) fl = fl\<lparr>webhookPort := v\<rparr>"
| "assign (WebhookCertDir v) fl = fl\<lparr>webhookCertDir := v\<rparr>"

fun representable :: "setting \<Rightarrow> bool" where
  "representable (WebhookPort i) = int64 i"
| "representable _ = True"

fun boolean :: "setting \<Rightarrow> bool" where
  "boolean (LeaderElect _) = True"
| "boolean _ = False"

text \<open>
  One way to write a setting: one dash or two, and the value joined with an equals sign or as the
  argument after; a boolean flag never takes the argument after it, so that it is then written
  alone when it is true and joined when it is false.
\<close>

record style = two_dashes :: bool separate :: bool

definition dashes :: "style \<Rightarrow> string" where
  "dashes y = (if two_dashes y then ''--'' else ''-'')"

definition written :: "style \<times> setting \<Rightarrow> string list" where
  "written p = (case p of (y, x) \<Rightarrow>
     if separate y \<and> x = LeaderElect True then [dashes y @ flag_name x]
     else if separate y \<and> \<not> boolean x then [dashes y @ flag_name x, flag_text x]
     else [dashes y @ flag_name x @ CHR ''='' # flag_text x])"

text \<open>Where the parsing of flags stops.\<close>

definition stops :: "string list \<Rightarrow> bool" where
  "stops args \<longleftrightarrow> (case args of [] \<Rightarrow> True
     | a # _ \<Rightarrow> length a < 2 \<or> hd a \<noteq> CHR ''-'' \<or> a = ''--'')"


section \<open>Facts\<close>

lemma split_value_joined:
  "CHR ''='' \<notin> set cs \<Longrightarrow> split_value (c # cs @ CHR ''='' # v) = (c # cs, Some v)"
  by (simp add: takeWhile_append dropWhile_append)

lemma split_value_bare: "CHR ''='' \<notin> set cs \<Longrightarrow> split_value (c # cs) = (c # cs, None)"
proof -
  assume "CHR ''='' \<notin> set cs"
  then have "takeWhile (\<lambda>x. x \<noteq> CHR ''='') cs = cs" "dropWhile (\<lambda>x. x \<noteq> CHR ''='') cs = []"
    by (auto simp: takeWhile_eq_all_conv dropWhile_eq_Nil_conv)
  then show ?thesis by (simp only: split_value.simps list.case)
qed

text \<open>A dash or two and a name that starts with neither a dash nor an equals sign.\<close>

lemma parseOne_dashes:
  assumes "c \<noteq> CHR ''-''" and "c \<noteq> CHR ''=''"
  shows "parseOne libs ((dashes y @ c # cs) # args) s = parse_flag libs (c # cs) args s"
  using assms by (auto simp: parseOne_def dashes_def Let_def)

lemma flag_name_shape:
  obtains c cs where "flag_name x = c # cs" and "c \<noteq> CHR ''-''" and "c \<noteq> CHR ''=''" and "CHR ''='' \<notin> set cs"
  by (cases x) simp_all

text \<open>The declared flag of a setting reads the text of the setting and stores it.\<close>

lemma set_flag_text:
  assumes "representable x"
  shows "\<exists>f. formal libs (flag_name x) = Some f \<and> (IsBoolFlag f \<longleftrightarrow> boolean x) \<and>
    set_flag f (flag_text x) (fl, w) = Some (assign x fl, w)"
  using assms int_value.Set_String bool_value.Set_String
  by (cases x) (simp_all add: formal_def program_flags_def)

lemma parse_written:
  assumes "representable x"
  shows "parseOne libs (written (y, x) @ args) (fl, w) = Seen args (assign x fl, w)"
proof -
  obtain f where f: "formal libs (flag_name x) = Some f" "IsBoolFlag f \<longleftrightarrow> boolean x"
    "set_flag f (flag_text x) (fl, w) = Some (assign x fl, w)"
    using set_flag_text [OF assms, of libs fl w] by (elim exE conjE)
  obtain c cs where c: "flag_name x = c # cs" "c \<noteq> CHR ''-''" "c \<noteq> CHR ''=''" "CHR ''='' \<notin> set cs"
    by (rule flag_name_shape)
  have joined: "parse_flag libs (c # cs @ CHR ''='' # flag_text x) args (fl, w) = Seen args (assign x fl, w)"
    unfolding parse_flag_def split_value_joined [OF c(4)] using f by (simp add: c(1) seen_if_def)
  consider "separate y" "x = LeaderElect True" | "separate y" "\<not> boolean x"
    | "\<not> (separate y \<and> x = LeaderElect True)" "\<not> (separate y \<and> \<not> boolean x)" by fastforce
  then show ?thesis
  proof cases
    case 1
    with f(3) have "set_flag f ''true'' (fl, w) = Some (assign x fl, w)"
      by (simp add: FormatBool_def)
    moreover have "IsBoolFlag f" using 1 f(2) by simp
    ultimately have "parse_flag libs (c # cs) args (fl, w) = Seen args (assign x fl, w)"
      unfolding parse_flag_def split_value_bare [OF c(4)] using f(1) by (simp add: c(1) seen_if_def)
    moreover have "written (y, x) = [dashes y @ flag_name x]"
      using 1 by (simp add: written_def)
    note this [unfolded c(1)]
    ultimately show ?thesis by (simp add: parseOne_dashes [OF c(2,3)])
  next
    case 2
    then have "parse_flag libs (c # cs) (flag_text x # args) (fl, w) = Seen args (assign x fl, w)"
      unfolding parse_flag_def split_value_bare [OF c(4)] using f by (simp add: c(1) seen_if_def)
    moreover have "written (y, x) = [dashes y @ c # cs, flag_text x]"
      using 2 c(1) unfolding written_def by auto
    ultimately show ?thesis by (simp add: parseOne_dashes [OF c(2,3)])
  next
    case 3
    then have "written (y, x) = [dashes y @ c # cs @ CHR ''='' # flag_text x]"
      using c(1) unfolding written_def by auto
    with joined show ?thesis by (simp add: parseOne_dashes [OF c(2,3)])
  qed
qed

lemma parseOne_stops: "stops args \<Longrightarrow> parseOne libs args s = NoFlag"
  by (auto simp: stops_def parseOne_def split: list.split)


lemma undefined_flag:
  assumes "formal libs (c # cs) = None" and "c \<noteq> CHR ''-''" and "c \<noteq> CHR ''=''" and "CHR ''='' \<notin> set cs"
    and "c # cs \<noteq> ''help''" and "c # cs \<noteq> ''h''"
  shows "flag_Parse libs ((dashes y @ c # cs) # args) s = InvalidFlags"
proof -
  have "parseOne libs ((dashes y @ c # cs) # args) s = BadFlag"
    unfolding parseOne_dashes [OF assms(2,3)] parse_flag_def split_value_bare [OF assms(4)]
    using assms(1,5,6) by (simp only: prod.case option.case if_False simp_thms)
  then show ?thesis by (simp add: flag_Parse.simps)
qed

text \<open>
  C36 (roundtrip): settings of the declared flags, written one after the other in any of the forms the
  command line allows, are read back by \<open>flag.Parse\<close> in their order, the last of the settings of a
  flag winning; where the parsing of flags stops, so does the reading.
\<close>

theorem command_line_read_back:
  assumes "\<forall>p \<in> set ps. representable (snd p)" and "stops rest"
  shows "flag_Parse libs (concat (map written ps) @ rest) (fl, w) =
    Parsed (fold (\<lambda>p. assign (snd p)) ps fl, w)"
  using assms(1)
proof (induction ps arbitrary: fl)
  case Nil
  show ?case by (simp add: flag_Parse.simps parseOne_stops [OF assms(2)])
next
  case (Cons p ps)
  then have "parseOne libs (written p @ concat (map written ps) @ rest) (fl, w) =
      Seen (concat (map written ps) @ rest) (assign (snd p) fl, w)"
    using parse_written [of "snd p" libs "fst p"] by simp
  with Cons show ?case by (simp add: flag_Parse.simps [of libs "_ @ _"])
qed

text \<open>
  C33 (safety): the operator starts its manager only on a command line that was read, with the flags
  read from it, and when everything is set up: the configuration was found, the manager made, all four
  controllers and the webhook registered and both checks added, in this order; the two controllers that
  create customers then share one StripeCustomers, and they and the webhook use one provider
  configuration. Otherwise nothing is started: the exit code is 2 for a bad command line and a flag
  declared twice, which come before everything else, 0 when help was asked for, and 1 when the set-up
  failed or the manager stopped with an error.
\<close>

theorem process_starts_complete:
  assumes "effects (main_process libs M args) s = es" and "fst (run_state (main_process libs M args) s) = code"
  shows "(\<exists>fl w cfg ok. flag_Parse libs args (default_flags, world s) = Parsed (fl, w) \<and>
      es = full_setup fl cfg @ [Start ok] \<and> code = (if ok then 0 else 1)) \<or>
    (\<forall>ok. Start ok \<notin> set es) \<and>
      (es = [] \<and> flag_Parse libs args (default_flags, world s) = HelpWanted \<and> code = 0 \<or>
       es = [] \<and> (redefined libs \<or> flag_Parse libs args (default_flags, world s) = InvalidFlags) \<and> code = 2 \<or>
       (\<exists>p. flag_Parse libs args (default_flags, world s) = Parsed p) \<and> code = 1)"
proof (cases "redefined libs")
  case True
  with assms show ?thesis by (auto simp: main_process_def effects_def)
next
  case False
  show ?thesis
  proof (cases "flag_Parse libs args (default_flags, world s)")
    case (Parsed p)
    obtain fl w where p: "p = (fl, w)" by fastforce
    have run: "run_state (main_process libs M args) s = run_state (main M fl) (s\<lparr>world := w\<rparr>)"
      using False Parsed p by (simp add: main_process_def)
    then have "effects (main M fl) (s\<lparr>world := w\<rparr>) = es" "fst (run_state (main M fl) (s\<lparr>world := w\<rparr>)) = code"
      using assms by (simp_all add: effects_def)
    from main_starts_or_exits [OF this] show ?thesis using Parsed p by blast
  next
    case InvalidFlags
    with assms False show ?thesis by (auto simp: main_process_def effects_def)
  next
    case HelpWanted
    with assms False show ?thesis by (auto simp: main_process_def effects_def)
  qed
qed

section \<open>Witnesses\<close>

definition sample_library_flags :: "unit library_flags" where
  "sample_library_flags = [''zap-devel'' \<mapsto> (True, \<lambda>v w. if ParseBool v = None then None else Some w),
     ''kubeconfig'' \<mapsto> (False, \<lambda>_ w. Some w)]"

definition sample_settings :: "(style \<times> setting) list" where
  "sample_settings =
     [(\<lparr>two_dashes = True, separate = False\<rparr>, LeaderElect True),
      (\<lparr>two_dashes = False, separate = True\<rparr>, Provider ''a=b''),
      (\<lparr>two_dashes = True, separate = True\<rparr>, WebhookPort 443),
      (\<lparr>two_dashes = True, separate = True\<rparr>, LeaderElect False)]"

theorem command_line_read_back_witness:
  "flag_Parse sample_library_flags
     [''--leader-elect=true'', ''-provider-name'', ''a=b'', ''--webhook-port'', ''443'', ''--leader-elect=false'', ''--'']
     (default_flags, ()) =
   Parsed (default_flags\<lparr>providerName := ''a=b'', webhookPort := 443, enableLeader := False\<rparr>, ())"
proof -
  have "digit 4 = CHR ''4''" "digit 3 = CHR ''3''"
    using digit_digit_val [of "CHR ''4''"] digit_digit_val [of "CHR ''3''"]
    by (simp_all add: is_digit_def digit_val_def)
  then have "show_int 443 = ''443''" by (simp add: show_int_def show_nat.simps)
  then have "concat (map written sample_settings) @ [''--''] =
      [''--leader-elect=true'', ''-provider-name'', ''a=b'', ''--webhook-port'', ''443'', ''--leader-elect=false'', ''--'']"
    by (simp add: sample_settings_def written_def dashes_def FormatBool_def)
  then show ?thesis
    using command_line_read_back [of sample_settings "[''--'']" sample_library_flags default_flags "()"]
    by (simp add: sample_settings_def stops_def int64_def)
qed

text \<open>The arguments of the deployment in \<open>config/base/manager\<close>, and the flags they mean.\<close>

definition deployment_args :: "string list" where
  "deployment_args =
     [''--leader-elect=true'', ''--leader-elect-namespace=kube-system'', ''--metrics-bind-address=:8080'',
      ''--health-probe-bind-address=:8081'', ''--webhook-port=9443'',
      ''--webhook-cert-dir=/tmp/k8s-webhook-server/serving-certs'', ''--provider-name=stripe'',
      ''--provider-config=default'']"

definition deployment_flags :: flags where
  "deployment_flags = default_flags\<lparr>enableLeader := True, leaderNS := ''kube-system'',
     webhookCertDir := ''/tmp/k8s-webhook-server/serving-certs''\<rparr>"

theorem process_starts_complete_witness:
  "\<exists>cfg. effects (main_process sample_library_flags sample_manager deployment_args)
     \<lparr>world = (), trace = []\<rparr> = full_setup deployment_flags cfg @ [Start True]"
proof -
  have parsed: "flag_Parse sample_library_flags deployment_args (default_flags, ()) = Parsed (deployment_flags, ())"
    by code_simp
  have "\<not> redefined sample_library_flags" by code_simp
  then have "fst (run_state (main_process sample_library_flags sample_manager deployment_args)
      \<lparr>world = (), trace = []\<rparr>) = 0"
    by (simp add: main_process_def parsed main_def run_manager_def or_exit_def SetupWithManager_def
        SetupWebhookWithManager_def NewStripeWebhook_def sample_manager_def Let_def)
  with process_starts_complete [OF refl refl, where libs = sample_library_flags and M = sample_manager
      and args = deployment_args and s = "\<lparr>world = (), trace = []\<rparr>"]
  show ?thesis by (auto simp: parsed split: if_splits)
qed

end
