(* ===== verification/Recovery.thy ===== *)
theory Recovery
  imports EnsureProtocol
begin

text \<open>
  What the search of \<open>findCustomerByBillingAccount\<close> is for: a controller that lost its local status,
  because a status patch failed, the \<open>StripeCustomer\<close> was deleted or the cluster was rebuilt, does not
  create a second customer, as long as Stripe's search shows the first by then. Nothing is assumed of the
  cluster's reads, so this holds where the bound of \<open>EnsureProtocol\<close> does not.
\<close>

section \<open>A search that shows the customer\<close>

definition uid_query :: "string \<Rightarrow> string" where
  "uid_query u = search_query ''billing_account_uid'' u"

text \<open>The search for the account's UID lists some customer with an ID, or reports an error.\<close>

definition search_shows :: "'w stripe_api \<Rightarrow> string \<Rightarrow> 'w \<Rightarrow> bool" where
  "search_shows S u w \<longleftrightarrow> (case fst (customers_search S (uid_query u) w) of (items, err) \<Rightarrow>
     (items = [] \<longrightarrow> err \<noteq> None) \<and> list_all (\<lambda>cu. cus_ID cu \<noteq> '''') items)"

text \<open>The calls to the cluster do not change what is true of Stripe.\<close>

definition cluster_apart :: "'w kube \<Rightarrow> ('w \<Rightarrow> bool) \<Rightarrow> bool" where
  "cluster_apart K H \<longleftrightarrow> (\<forall>w. H w \<longrightarrow>
     (\<forall>k. H (snd (read_sc K k w))) \<and> (\<forall>x. H (snd (create_sc K x w))) \<and>
     (\<forall>n. H (snd (list_spm K n w))) \<and> (\<forall>k. H (snd (get_pm K k w))) \<and>
     (\<forall>k. H (snd (get_spm K k w))) \<and> (\<forall>n. H (snd (list_bindings K n w))))"

lemma cluster_apartD:
  assumes "cluster_apart K H"
  shows "H w \<Longrightarrow> H (snd (read_sc K k w))" "H w \<Longrightarrow> H (snd (create_sc K x w))"
    "H w \<Longrightarrow> H (snd (list_spm K n w))" "H w \<Longrightarrow> H (snd (get_pm K k w))"
    "H w \<Longrightarrow> H (snd (get_spm K k w))" "H w \<Longrightarrow> H (snd (list_bindings K m w))"
  using assms by (simp_all only: cluster_apart_def)

lemma getOrCreate_keeps:
  assumes "cluster_apart (kube E) H"
  shows "keeps H (getOrCreate E ba)"
  unfolding getOrCreate_def by (intro keep_rules cluster_apartD [OF assms])

lemma account_spms_keeps:
  assumes "cluster_apart K H"
  shows "keeps H (account_spms K a spms)"
proof (induction spms)
  case (Cons x spms)
  then show ?case unfolding account_spms.simps by (intro keep_rules cluster_apartD [OF assms])
qed (simp add: keep_rules)

lemma known_customer_id_keeps:
  assumes "cluster_apart (kube E) H"
  shows "keeps H (known_customer_id E ba sc)"
  unfolding known_customer_id_def findExistingCustomerID_def accountStripePaymentMethods_def
  by (intro keep_rules account_spms_keeps cluster_apartD [OF assms] assms)

lemma buildCustomerDetails_keeps:
  assumes "cluster_apart K H"
  shows "keeps H (buildCustomerDetails K ba)"
  unfolding buildCustomerDetails_def findDefaultStripePaymentMethodID_def listBoundProjectNames_def
  by (intro keep_rules cluster_apartD [OF assms])

section \<open>A shown customer is adopted\<close>

lemma search_adopts:
  assumes "search_shows S (ak_UID a) (world s)" and "ak_UID a \<noteq> ''''" and "ak_Name a \<noteq> ''''"
  shows "created_ids (effects (EnsureCustomer S rt existing a d) s) = []"
proof (cases rule: EnsureCustomer_cases [of s S rt existing a d])
  case (updates c t)
  have "effects (EnsureCustomer S rt existing a d) s = effects (EnsureCustomer S rt c a d) t"
    using updates(2,3) by (simp add: effects_def)
  moreover obtain ok es where "effects (EnsureCustomer S rt c a d) t =
      CustomersUpdate c (applyCustomerDetails (account_params a) d) ok # es" "list_all (is_tax_effect c) es"
    using EnsureCustomer_existing [OF updates(1)] by blast
  ultimately show ?thesis by (simp add: tax_uncreated)
next
  case failed
  then show ?thesis by simp
next
  case (creates t)
  obtain items err w where r: "customers_search S (uid_query (ak_UID a)) (world s) = ((items, err), w)"
    by (metis prod.exhaust)
  with creates assms have "items = []"
    by (cases items) (auto simp: findCustomerByBillingAccount_def searchCustomer_def uid_query_def search_shows_def)
  with r assms obtain e where "err = Some e" by (auto simp: search_shows_def)
  with r \<open>items = []\<close> creates assms show ?thesis
    by (auto simp: findCustomerByBillingAccount_def searchCustomer_def uid_query_def)
qed

text \<open>All that \<open>Ensure\<close> creates is created by its call of the client, in a world that only lookups preceded.\<close>

lemma status_write_creates: "status_write sc c ws \<Longrightarrow> created_ids ws = []"
  by (auto simp: status_write_def)

lemma Ensure_created_ids:
  "created_ids (effects (Ensure E (EnsureCustomer S rt) ba) s) = [] \<or>
   (\<exists>x d t. created_ids (effects (Ensure E (EnsureCustomer S rt) ba) s) =
        created_ids (effects (EnsureCustomer S rt x (account_key_of ba) d) t) \<and>
      (\<forall>H. cluster_apart (kube E) H \<longrightarrow> H (world s) \<longrightarrow> H (world t)))"
  using tracked_client.Ensure_parts [of E S rt ba s]
proof (elim disjE exE conjE)
  assume "list_all (\<lambda>e. \<exists>sc ok. e = SCCreate sc ok) (effects (Ensure E (EnsureCustomer S rt) ba) s)"
  from creates_only [OF this] show ?thesis by simp
next
  fix pre sc s1 x s2
  assume pre: "list_all (\<lambda>e. \<exists>sc ok. e = SCCreate sc ok) pre"
    and g: "run_state (getOrCreate E ba) s = (Inr sc, s1)"
    and k: "run_state (known_customer_id E ba sc) s1 = (Inr x, s2)"
    and es: "effects (Ensure E (EnsureCustomer S rt) ba) s =
      pre @ effects (sync_customer E (EnsureCustomer S rt) ba sc x) s2"
  have before: "H (world s2)" if "cluster_apart (kube E) H" "H (world s)" for H
    using keepsD [OF known_customer_id_keeps k] keepsD [OF getOrCreate_keeps g] that by blast
  from tracked_client.sync_effects [of E S rt ba sc x s2] show ?thesis
  proof (elim disjE exE conjE)
    assume "effects (sync_customer E (EnsureCustomer S rt) ba sc x) s2 = []"
    with es creates_only [OF pre] show ?thesis by simp
  next
    fix d t c err t2 ws
    assume b: "run_state (buildCustomerDetails (kube E) ba) s2 = (Inr d, t)"
      and sync: "effects (sync_customer E (EnsureCustomer S rt) ba sc x) s2 =
        effects (EnsureCustomer S rt x (account_key_of ba) d) t @ ws"
      and ws: "status_write sc (if usable err then c else x) ws"
    have later: "H (world t)" if "cluster_apart (kube E) H" "H (world s)" for H
      by (rule keepsD [OF buildCustomerDetails_keeps [OF that(1)] b before [OF that]])
    have "created_ids (effects (Ensure E (EnsureCustomer S rt) ba) s) =
        created_ids (effects (EnsureCustomer S rt x (account_key_of ba) d) t)"
      using es sync creates_only [OF pre] status_write_creates [OF ws] by simp
    with later show ?thesis by blast
  qed
qed

lemma Ensure_creates_one: "length (created_ids (effects (Ensure E (EnsureCustomer S rt) ba) s)) \<le> 1"
proof -
  have "length (created_ids (effects (EnsureCustomer S rt x a d) t)) \<le> 1" for x a d t
    using tracked_client.creations [of S rt x a d t]
    by (cases "run_state (EnsureCustomer S rt x a d) t") fastforce
  then show ?thesis using Ensure_created_ids [of E S rt ba s] by auto
qed

lemma Ensure_adopts:
  assumes "cluster_apart (kube E) (search_shows S (UID (ba_meta ba)))"
    and "search_shows S (UID (ba_meta ba)) (world s)"
    and "UID (ba_meta ba) \<noteq> ''''" and "Name (ba_meta ba) \<noteq> ''''"
  shows "created_ids (effects (Ensure E (EnsureCustomer S rt) ba) s) = []"
proof -
  have "created_ids (effects (EnsureCustomer S rt x (account_key_of ba) d) t) = []"
    if "search_shows S (UID (ba_meta ba)) (world t)" for x d t
    using that assms(3,4) by (intro search_adopts) (simp_all add: account_key_of_def)
  then show ?thesis using Ensure_created_ids [of E S rt ba s] assms(1,2) by metis
qed

section \<open>Sequences of calls\<close>

text \<open>
  All calls are for the account with the UID \<open>u\<close>; once a customer was created for it, each later call
  starts in a world in which the search shows one.
\<close>

fun search_current :: "'w env \<Rightarrow> 'w stripe_api \<Rightarrow> 'w surroundings \<Rightarrow> string \<Rightarrow> ('w \<times> billing_account) list \<Rightarrow>
    effect list \<Rightarrow> bool" where
  "search_current E S rt u [] es \<longleftrightarrow> True"
| "search_current E S rt u ((w, ba) # calls) es \<longleftrightarrow>
     UID (ba_meta ba) = u \<and> Name (ba_meta ba) \<noteq> '''' \<and> (created_ids es \<noteq> [] \<longrightarrow> search_shows S u w) \<and>
     search_current E S rt u calls (es @ effects (Ensure E (EnsureCustomer S rt) ba) \<lparr>world = w, trace = es\<rparr>)"

lemma calls_create_one:
  assumes "cluster_apart (kube E) (search_shows S u)" and "u \<noteq> ''''"
    and "search_current E S rt u calls es" and "length (created_ids es) \<le> 1"
  shows "length (created_ids (ensure_calls E S rt calls es)) \<le> 1"
  using assms(3,4)
proof (induction calls arbitrary: es)
  case (Cons c calls)
  obtain w ba where c: "c = (w, ba)" by fastforce
  let ?es = "effects (Ensure E (EnsureCustomer S rt) ba) \<lparr>world = w, trace = es\<rparr>"
  from Cons.prems c have ba: "UID (ba_meta ba) = u" "Name (ba_meta ba) \<noteq> ''''"
    and shown: "created_ids es \<noteq> [] \<Longrightarrow> search_shows S u w"
    and rest: "search_current E S rt u calls (es @ ?es)" by auto
  have "created_ids ?es = []" if "created_ids es \<noteq> []"
    using assms(1,2) shown [OF that] ba by (intro Ensure_adopts) simp_all
  then have "length (created_ids (es @ ?es)) \<le> 1"
    using Cons.prems(2) Ensure_creates_one [of E S rt ba "\<lparr>world = w, trace = es\<rparr>"]
    by (cases "created_ids es = []") simp_all
  from Cons.IH [OF rest this] show ?case by (simp add: c)
qed simp

text \<open>
  C4 (safety): lost status does not duplicate customers. Over any number of Ensure calls for an account,
  whatever the cluster answers, status patches that fail and StripeCustomers that disappear
  included, at most one customer is created, as long as Stripe's search for the account's UID, once it
  was created, lists it or fails.
\<close>

theorem lost_status_creates_no_duplicate:
  assumes "cluster_apart (kube E) (search_shows S u)" and "u \<noteq> ''''" and "search_current E S rt u calls []"
  shows "length (created_ids (ensure_calls E S rt calls [])) \<le> 1"
  by (rule calls_create_one [OF assms]) simp

section \<open>Witnesses\<close>

text \<open>A cluster that forgets everything; the world says whether Stripe's search has the customer.\<close>

definition searching_stripe :: "bool stripe_api" where
  "searching_stripe = growing_stripe\<lparr>customers_search := \<lambda>_ w. ((if w then [sample_customer] else [], None), w)\<rparr>"

definition forgetful_env :: "bool env" where
  "forgetful_env = growing_env\<lparr>kube := sample_kube\<lparr>patch_sc_status := \<lambda>_ _. down\<rparr>, sdk := \<lambda>_. searching_stripe\<rparr>"

lemma searching_EnsureCustomer:
  "run_state (EnsureCustomer searching_stripe sample_os '''' (account_key_of sample_ba) growing_details)
      \<lparr>world = False, trace = es\<rparr> =
    ((''cus_1'', None), \<lparr>world = False, trace = es @ [CustomersNew (applyCustomerDetails
        (account_params (account_key_of sample_ba)) growing_details) (Some ''cus_1'')]\<rparr>)"
  by (simp add: EnsureCustomer_def findCustomerByBillingAccount_def searchCustomer_def with_tax_ids_def
      reconcileTaxIDs_def existing_tax_ids_def ok_id_def searching_stripe_def growing_stripe_def
      account_key_of_def Let_def customerDetailsFromBillingAccount_def empty_details_def sample_defs)

lemma forgetful_created:
  "created_ids (effects (Ensure forgetful_env (EnsureCustomer searching_stripe sample_os) sample_ba)
     \<lparr>world = False, trace = []\<rparr>) = [''cus_1'']"
proof -
  have kube: "kube forgetful_env = sample_kube\<lparr>patch_sc_status := \<lambda>_ _. down\<rparr>" "lib forgetful_env = sample_lib"
    by (simp_all add: forgetful_env_def growing_env_def sample_env_def)
  have get: "run_state (getOrCreate forgetful_env sample_ba) \<lparr>world = False, trace = es\<rparr> =
    (Inr ((new_stripe_customer sample_ba)\<lparr>sc_meta := sc_meta owned_sc\<rparr>), \<lparr>world = False, trace = es @
      [SCCreate ((new_stripe_customer sample_ba)\<lparr>sc_meta := sc_meta owned_sc\<rparr>) True]\<rparr>)" for es
    by (simp add: getOrCreate_def kube owned_sc_def new_stripe_customer_def sample_defs Let_def)
  have details: "run_state (buildCustomerDetails (kube forgetful_env) sample_ba) s = (Inr growing_details, s)"
    "run_state (findExistingCustomerID (kube forgetful_env) ns n) s = (Inr '''', s)" for s ns n
    by (simp_all add: kube buildCustomerDetails_def findDefaultStripePaymentMethodID_def
        listBoundProjectNames_def findExistingCustomerID_def accountStripePaymentMethods_def
        customerDetailsFromBillingAccount_def empty_details_def first_customer_id_def sample_defs)
  show ?thesis
    by (simp add: effects_def Ensure_def get known_customer_id_def new_stripe_customer_def
        empty_sc_status_def details sync_customer_def searching_EnsureCustomer record_synced_def patchStatus_def Let_def
        split: prod.split sum.split)
qed

theorem lost_status_creates_no_duplicate_witness:
  "length (created_ids (ensure_calls forgetful_env searching_stripe sample_os
     [(False, sample_ba), (True, sample_ba), (True, sample_ba)] [])) \<le> 1 \<and>
   created_ids (ensure_calls forgetful_env searching_stripe sample_os [(False, sample_ba)] []) = [''cus_1'']"
proof
  show "length (created_ids (ensure_calls forgetful_env searching_stripe sample_os
     [(False, sample_ba), (True, sample_ba), (True, sample_ba)] [])) \<le> 1"
  proof (rule lost_status_creates_no_duplicate)
    show "cluster_apart (kube forgetful_env) (search_shows searching_stripe ''u1'')"
      by (simp add: cluster_apart_def forgetful_env_def sample_kube_def missing_def answer_def)
    have "search_shows searching_stripe u True" for u
      by (simp add: search_shows_def searching_stripe_def sample_customer_def)
    moreover have "UID (ba_meta sample_ba) = ''u1''" "Name (ba_meta sample_ba) \<noteq> ''''"
      by (simp_all add: sample_ba_def new_object_meta_def)
    ultimately show "search_current forgetful_env searching_stripe sample_os ''u1''
        [(False, sample_ba), (True, sample_ba), (True, sample_ba)] []" by simp
  qed simp
  show "created_ids (ensure_calls forgetful_env searching_stripe sample_os [(False, sample_ba)] []) = [''cus_1'']"
    by (simp add: forgetful_created)
qed

end
