(* ===== verification/Wakeups.thy ===== *)
theory Wakeups
  imports Operator
begin

text \<open>
  Which changes of the cluster reach the account reconciler. What controller-runtime does with the
  registration that \<open>SetupWithManager\<close> makes (\<open>billingaccount_controller.go\<close>, a value in
  \<open>Operator\<close>) is a parameter, a \<open>controller_runtime\<close>, with its documented behaviour as a hypothesis: an update
  passes when all predicates hold of the old and the new object, a creation or deletion always; the watch of
  the reconciled kind enqueues the object, that of an owned kind the controller of the object, when it refers
  to the reconciled kind; a mapped watch enqueues what its function answers for every object of the event;
  and nothing else is enqueued. The details sent to Stripe are computed by the program from a cluster given
  as lists.
\<close>

section \<open>A cluster\<close>

record cluster =
  cl_accounts :: "billing_account list"
  cl_methods :: "payment_method list"
  cl_children :: "spm list"
  cl_bindings :: "binding list"

definition lookup_in :: "('a \<Rightarrow> object_meta) \<Rightarrow> object_key \<Rightarrow> 'a list \<Rightarrow> 'a option" where
  "lookup_in m k xs = find (\<lambda>x. key_of (m x) = k) xs"

definition or_missing :: "'a option \<Rightarrow> go_error + 'a" where
  "or_missing x = (case x of None \<Rightarrow> Inl (ApiError NotFound ''not found'') | Some x \<Rightarrow> Inr x)"

text \<open>A client whose reads of these kinds answer from the cluster.\<close>

definition reads_from :: "cluster \<Rightarrow> 'w kube \<Rightarrow> 'w kube" where
  "reads_from C K = K\<lparr>
     get_spm := \<lambda>k w. (or_missing (lookup_in spm_meta k (cl_children C)), w),
     get_pm := \<lambda>k w. (or_missing (lookup_in pm_meta k (cl_methods C)), w),
     list_bindings := \<lambda>ns w. (Inr (filter (\<lambda>b. Namespace (bab_meta b) = ns) (cl_bindings C)), w)\<rparr>"

section \<open>Events and what they enqueue\<close>

datatype 'a watch_event = CreateEvent 'a | UpdateEvent 'a 'a | DeleteEvent 'a

primrec event_objects :: "'a watch_event \<Rightarrow> 'a list" where
  "event_objects (CreateEvent x) = [x]"
| "event_objects (UpdateEvent x y) = [x, y]"
| "event_objects (DeleteEvent x) = [x]"

datatype object = AccountObject billing_account | BindingObject binding | MethodObject spm
  | CustomerObject stripe_customer | ParentObject payment_method

fun kind_of :: "object \<Rightarrow> kind" where
  "kind_of (AccountObject _) = BillingAccountKind"
| "kind_of (BindingObject _) = BillingAccountBindingKind"
| "kind_of (MethodObject _) = StripePaymentMethodKind"
| "kind_of (CustomerObject _) = StripeCustomerKind"
| "kind_of (ParentObject _) = PaymentMethodKind"

fun meta_of :: "object \<Rightarrow> object_meta" where
  "meta_of (AccountObject x) = ba_meta x"
| "meta_of (BindingObject x) = bab_meta x"
| "meta_of (MethodObject x) = spm_meta x"
| "meta_of (CustomerObject x) = sc_meta x"
| "meta_of (ParentObject x) = pm_meta x"

text \<open>The \<open>UpdateFunc\<close> of \<open>invoiceArrangementChanged\<close>, with its type assertions.\<close>

fun invoice_update_passes :: "object \<Rightarrow> object \<Rightarrow> bool" where
  "invoice_update_passes (AccountObject x) (AccountObject y) \<longleftrightarrow> invoiceArrangementChanged x y"
| "invoice_update_passes x y \<longleftrightarrow> False"

text \<open>The map functions, with their type assertions.\<close>

fun mapped :: "'w kube \<Rightarrow> mapper \<Rightarrow> object \<Rightarrow> ('w, object_key list) prog" where
  "mapped K MapBinding (BindingObject b) = ret (enqueueBillingAccountForBinding b)"
| "mapped K MapStripePaymentMethod (MethodObject x) = enqueueBillingAccountForStripePaymentMethod K x"
| "mapped K m x = ret []"

section \<open>The runtime and its documented behaviour\<close>

text \<open>
  What the controllers are run by: how it evaluates a predicate on an update, which owner references it takes
  to name a kind, and what it enqueues for an event of a registration, with a client for the map functions.
\<close>

record 'w controller_runtime =
  update_passes :: "update_filter \<Rightarrow> object \<Rightarrow> object \<Rightarrow> bool"
  refers_to :: "kind \<Rightarrow> owner_ref \<Rightarrow> bool"
  enqueued :: "registration \<Rightarrow> 'w kube \<Rightarrow> object watch_event \<Rightarrow> ('w, object_key list) prog"

abbreviation woken_by :: "'w controller_runtime \<Rightarrow> registration \<Rightarrow> 'w kube \<Rightarrow> object watch_event \<Rightarrow> ('w, effect) st \<Rightarrow>
    object_key list" where
  "woken_by R reg K ev s \<equiv> fst (run_state (enqueued R reg K ev) s)"

definition predicates_ok :: "'w controller_runtime \<Rightarrow> bool" where
  "predicates_ok R \<longleftrightarrow>
     (\<forall>x y. update_passes R GenerationChanged x y \<longleftrightarrow> Generation (meta_of x) \<noteq> Generation (meta_of y)) \<and>
     (\<forall>x y. update_passes R InvoiceArrangementChanged x y \<longleftrightarrow> invoice_update_passes x y) \<and>
     (\<forall>fs x y. update_passes R (AnyOf fs) x y \<longleftrightarrow> list_ex (\<lambda>f. update_passes R f x y) fs)"

primrec event_passes :: "(update_filter \<Rightarrow> object \<Rightarrow> object \<Rightarrow> bool) \<Rightarrow> update_filter list \<Rightarrow> object watch_event \<Rightarrow> bool" where
  "event_passes ok fs (CreateEvent x) \<longleftrightarrow> True"
| "event_passes ok fs (UpdateEvent x y) \<longleftrightarrow> list_all (\<lambda>f. ok f x y) fs"
| "event_passes ok fs (DeleteEvent x) \<longleftrightarrow> True"

text \<open>The keys a registration asks for, given what its map functions answer.\<close>

definition asked_for :: "lib \<Rightarrow> 'w controller_runtime \<Rightarrow> registration \<Rightarrow> (mapper \<Rightarrow> object \<Rightarrow> object_key \<Rightarrow> bool) \<Rightarrow>
    object watch_event \<Rightarrow> object_key \<Rightarrow> bool" where
  "asked_for L R reg maps ev k \<longleftrightarrow> (\<exists>x\<in>set (event_objects ev).
     kind_of x = For reg \<and> event_passes (update_passes R) (ForPredicates reg) ev \<and> k = key_of (meta_of x) \<or>
     (\<exists>fs owner. (kind_of x, fs) \<in> set (Owns reg) \<and> event_passes (update_passes R) fs ev \<and>
        GetControllerOf L (meta_of x) = Some owner \<and> refers_to R (For reg) owner \<and>
        k = (Namespace (meta_of x), or_Name owner)) \<or>
     (\<exists>m. (kind_of x, m) \<in> set (Watches reg) \<and> maps m x k))"

text \<open>
  All of it is enqueued, and nothing else; at which moment of the cache a map function runs is left open.
\<close>

definition enqueues_ok :: "lib \<Rightarrow> 'w controller_runtime \<Rightarrow> bool" where
  "enqueues_ok L R \<longleftrightarrow> (\<forall>reg K ev s k.
     (asked_for L R reg (\<lambda>m x k. \<forall>t. k \<in> set (fst (run_state (mapped K m x) t))) ev k \<longrightarrow>
        k \<in> set (woken_by R reg K ev s)) \<and>
     (k \<in> set (woken_by R reg K ev s) \<longrightarrow>
        asked_for L R reg (\<lambda>m x k. \<exists>t. k \<in> set (fst (run_state (mapped K m x) t))) ev k))"

definition controller_runtime_ok :: "lib \<Rightarrow> 'w controller_runtime \<Rightarrow> bool" where
  "controller_runtime_ok L R \<longleftrightarrow> predicates_ok R \<and> enqueues_ok L R"

lemma passes_simps:
  assumes "predicates_ok R"
  shows "update_passes R GenerationChanged x y \<longleftrightarrow> Generation (meta_of x) \<noteq> Generation (meta_of y)"
    and "update_passes R InvoiceArrangementChanged x y \<longleftrightarrow> invoice_update_passes x y"
    and "update_passes R (AnyOf fs) x y \<longleftrightarrow> list_ex (\<lambda>f. update_passes R f x y) fs"
  using assms by (simp_all add: predicates_ok_def)

lemma enqueuedI:
  "enqueues_ok L R \<Longrightarrow> asked_for L R reg (\<lambda>m x k. \<forall>t. k \<in> set (fst (run_state (mapped K m x) t))) ev k \<Longrightarrow>
   k \<in> set (woken_by R reg K ev s)"
  unfolding enqueues_ok_def by blast

lemma enqueuedD:
  "enqueues_ok L R \<Longrightarrow> k \<in> set (woken_by R reg K ev s) \<Longrightarrow>
   asked_for L R reg (\<lambda>m x k. \<exists>t. k \<in> set (fst (run_state (mapped K m x) t))) ev k"
  unfolding enqueues_ok_def by blast

section \<open>Changes of the cluster\<close>

datatype change = AccountChange "billing_account watch_event" | BindingChange "binding watch_event"
  | MethodChange "spm watch_event" | ParentChange "payment_method watch_event"

primrec observed :: "change \<Rightarrow> object watch_event" where
  "observed (AccountChange ev) = map_watch_event AccountObject ev"
| "observed (BindingChange ev) = map_watch_event BindingObject ev"
| "observed (MethodChange ev) = map_watch_event MethodObject ev"
| "observed (ParentChange ev) = map_watch_event ParentObject ev"

primrec stored :: "('a \<Rightarrow> object_meta) \<Rightarrow> 'a watch_event \<Rightarrow> 'a list \<Rightarrow> 'a list" where
  "stored m (CreateEvent x) xs = x # xs"
| "stored m (UpdateEvent x y) xs = map (\<lambda>z. if key_of (m z) = key_of (m x) then y else z) xs"
| "stored m (DeleteEvent x) xs = filter (\<lambda>z. key_of (m z) \<noteq> key_of (m x)) xs"

primrec after :: "change \<Rightarrow> cluster \<Rightarrow> cluster" where
  "after (AccountChange ev) C = C\<lparr>cl_accounts := stored ba_meta ev (cl_accounts C)\<rparr>"
| "after (BindingChange ev) C = C\<lparr>cl_bindings := stored bab_meta ev (cl_bindings C)\<rparr>"
| "after (MethodChange ev) C = C\<lparr>cl_children := stored spm_meta ev (cl_children C)\<rparr>"
| "after (ParentChange ev) C = C\<lparr>cl_methods := stored pm_meta ev (cl_methods C)\<rparr>"

text \<open>The event is one of the stored objects, which have distinct keys.\<close>

fun occurs_in :: "('a \<Rightarrow> object_meta) \<Rightarrow> 'a watch_event \<Rightarrow> 'a list \<Rightarrow> bool" where
  "occurs_in m (CreateEvent x) xs \<longleftrightarrow> key_of (m x) \<notin> (\<lambda>z. key_of (m z)) ` set xs"
| "occurs_in m (UpdateEvent x y) xs \<longleftrightarrow> x \<in> set xs \<and> key_of (m y) = key_of (m x) \<and> inj_on (\<lambda>z. key_of (m z)) (set xs)"
| "occurs_in m (DeleteEvent x) xs \<longleftrightarrow> x \<in> set xs \<and> inj_on (\<lambda>z. key_of (m z)) (set xs)"

primrec occurs :: "change \<Rightarrow> cluster \<Rightarrow> bool" where
  "occurs (AccountChange ev) C \<longleftrightarrow> occurs_in ba_meta ev (cl_accounts C)"
| "occurs (BindingChange ev) C \<longleftrightarrow> occurs_in bab_meta ev (cl_bindings C)"
| "occurs (MethodChange ev) C \<longleftrightarrow> occurs_in spm_meta ev (cl_children C)"
| "occurs (ParentChange ev) C \<longleftrightarrow> occurs_in pm_meta ev (cl_methods C)"

text \<open>What the program computes for the account with the key \<open>k\<close>, when there is one.\<close>

definition account_details ::
  "'w kube \<Rightarrow> ('w, effect) st \<Rightarrow> cluster \<Rightarrow> object_key \<Rightarrow> (go_error + customer_details) option" where
  "account_details K s C k =
     map_option (\<lambda>ba. fst (run_state (buildCustomerDetails (reads_from C K) ba) s)) (lookup_in ba_meta k (cl_accounts C))"

section \<open>Facts: the details as a function of the cluster\<close>

definition default_id :: "cluster \<Rightarrow> billing_account \<Rightarrow> string" where
  "default_id C ba = (case ba_DefaultPaymentMethodRef ba of None \<Rightarrow> ''''
     | Some r \<Rightarrow> (if r = '''' then '''' else case lookup_in spm_meta (Namespace (ba_meta ba), r) (cl_children C) of
         None \<Rightarrow> '''' | Some x \<Rightarrow> StripePaymentMethodID (spm_status x)))"

definition counts_for :: "billing_account \<Rightarrow> binding \<Rightarrow> bool" where
  "counts_for ba b \<longleftrightarrow> Namespace (bab_meta b) = Namespace (ba_meta ba) \<and> bound_to ba b"

definition projects_of :: "cluster \<Rightarrow> billing_account \<Rightarrow> string list" where
  "projects_of C ba = sort (map bab_ProjectRef (filter (counts_for ba) (cl_bindings C)))"

lemma build_from_cluster:
  "run_state (buildCustomerDetails (reads_from C K) ba) s =
    (Inr ((customerDetailsFromBillingAccount ba)\<lparr>dt_DefaultPaymentMethodID := default_id C ba,
       dt_Projects := projects_of C ba\<rparr>), s)"
proof -
  have "run_state (findDefaultStripePaymentMethodID (reads_from C K) ba) s = (Inr (default_id C ba), s)"
    by (simp add: findDefaultStripePaymentMethodID_def default_id_def reads_from_def or_missing_def
        split: option.split)
  moreover have "run_state (listBoundProjectNames (reads_from C K) ba) s = (Inr (projects_of C ba), s)"
    by (simp add: listBoundProjectNames_def projects_of_def counts_for_def [abs_def] reads_from_def filter_filter conj_commute)
  ultimately show ?thesis by (simp add: buildCustomerDetails_def Let_def)
qed

lemma account_details_eq:
  "account_details K s C k = map_option (\<lambda>ba. Inr ((customerDetailsFromBillingAccount ba)
     \<lparr>dt_DefaultPaymentMethodID := default_id C ba, dt_Projects := projects_of C ba\<rparr>)) (lookup_in ba_meta k (cl_accounts C))"
  by (simp add: account_details_def build_from_cluster)

lemma same_details [simp]:
  "(d :: customer_details)\<lparr>dt_DefaultPaymentMethodID := i, dt_Projects := ps\<rparr> =
     d\<lparr>dt_DefaultPaymentMethodID := j, dt_Projects := qs\<rparr> \<longleftrightarrow> i = j \<and> ps = qs"
  by (cases d) simp

lemma default_id_other [simp]:
  "default_id (C\<lparr>cl_accounts := as\<rparr>) ba = default_id C ba" "default_id (C\<lparr>cl_bindings := bs\<rparr>) ba = default_id C ba"
  "default_id (C\<lparr>cl_methods := ms\<rparr>) ba = default_id C ba"
  by (simp_all add: default_id_def split: option.split)

lemma projects_of_other [simp]:
  "projects_of (C\<lparr>cl_accounts := as\<rparr>) ba = projects_of C ba" "projects_of (C\<lparr>cl_children := cs\<rparr>) ba = projects_of C ba"
  "projects_of (C\<lparr>cl_methods := ms\<rparr>) ba = projects_of C ba"
  by (simp_all add: projects_of_def)

section \<open>Facts: what a change leaves alone\<close>

lemma filter_stored:
  assumes "occurs_in m ev xs" and "\<And>x. x \<in> set (event_objects ev) \<Longrightarrow> \<not> P x"
  shows "filter P (stored m ev xs) = filter P xs"
proof (cases ev)
  case (UpdateEvent x y)
  with assms(1) have same: "z = x" if "z \<in> set xs" "key_of (m z) = key_of (m x)" for z
    using that by (auto dest: inj_onD)
  have "\<not> P x" "\<not> P y" using assms(2) UpdateEvent by auto
  then have "filter P (map (\<lambda>z. if key_of (m z) = key_of (m x) then y else z) zs) = filter P zs"
    if "set zs \<subseteq> set xs" for zs
    using that same by (induction zs) auto
  with UpdateEvent show ?thesis by simp
next
  case (DeleteEvent x)
  with assms have "z = x" if "z \<in> set xs" "key_of (m z) = key_of (m x)" for z
    using that by (auto dest: inj_onD)
  moreover have "\<not> P x" using assms(2) DeleteEvent by simp
  ultimately have "filter P xs = filter (\<lambda>z. P z \<and> key_of (m z) \<noteq> key_of (m x)) xs"
    by (intro filter_cong) auto
  with DeleteEvent show ?thesis by (simp add: conj_commute)
qed (use assms(2) in simp)

lemma lookup_filter: "lookup_in m k xs = (case filter (\<lambda>x. key_of (m x) = k) xs of [] \<Rightarrow> None | x # _ \<Rightarrow> Some x)"
  by (induction xs) (auto simp: lookup_in_def)

lemma lookup_stored:
  assumes "occurs_in m ev xs" and "\<And>x. x \<in> set (event_objects ev) \<Longrightarrow> key_of (m x) \<noteq> k"
  shows "lookup_in m k (stored m ev xs) = lookup_in m k xs"
  unfolding lookup_filter by (subst filter_stored [OF assms]) simp_all

text \<open>Which object of an event an account depends on.\<close>

lemma projects_changed:
  assumes "occurs_in bab_meta ev (cl_bindings C)"
    and "projects_of (after (BindingChange ev) C) ba \<noteq> projects_of C ba"
  shows "\<exists>b \<in> set (event_objects ev). counts_for ba b"
proof (rule ccontr)
  assume "\<not> ?thesis"
  then have "filter (counts_for ba) (stored bab_meta ev (cl_bindings C)) = filter (counts_for ba) (cl_bindings C)"
    by (intro filter_stored [OF assms(1)]) blast
  with assms(2) show False by (simp add: projects_of_def)
qed

lemma default_changed:
  assumes "occurs_in spm_meta ev (cl_children C)"
    and "default_id (after (MethodChange ev) C) ba \<noteq> default_id C ba"
  shows "\<exists>r. ba_DefaultPaymentMethodRef ba = Some r \<and> r \<noteq> '''' \<and>
    (\<exists>x \<in> set (event_objects ev). key_of (spm_meta x) = (Namespace (ba_meta ba), r))"
proof (rule ccontr)
  assume no: "\<not> ?thesis"
  have "lookup_in spm_meta (Namespace (ba_meta ba), r) (stored spm_meta ev (cl_children C)) =
      lookup_in spm_meta (Namespace (ba_meta ba), r) (cl_children C)"
    if "ba_DefaultPaymentMethodRef ba = Some r" "r \<noteq> ''''" for r
    using no that by (intro lookup_stored [OF assms(1)]) blast
  then have "default_id (after (MethodChange ev) C) ba = default_id C ba"
    by (simp add: default_id_def split: option.split)
  with assms(2) show False by contradiction
qed

section \<open>Facts: what is enqueued\<close>

definition woken_by_method :: "cluster \<Rightarrow> spm \<Rightarrow> object_key list" where
  "woken_by_method C x = (if spm_PaymentMethodRef x = '''' then [] else
     case lookup_in pm_meta (Namespace (spm_meta x), spm_PaymentMethodRef x) (cl_methods C) of
       None \<Rightarrow> []
     | Some pm \<Rightarrow> (if pm_BillingAccountRef pm = '''' then [] else [(Namespace (pm_meta pm), pm_BillingAccountRef pm)]))"

fun mapped_keys :: "cluster \<Rightarrow> mapper \<Rightarrow> object \<Rightarrow> object_key list" where
  "mapped_keys C MapBinding (BindingObject b) = enqueueBillingAccountForBinding b"
| "mapped_keys C MapStripePaymentMethod (MethodObject x) = woken_by_method C x"
| "mapped_keys C m x = []"

lemma mapped_run: "run_state (mapped (reads_from C K) m x) s = (mapped_keys C m x, s)"
  by (cases "(C, m, x)" rule: mapped_keys.cases)
    (simp_all add: enqueueBillingAccountForStripePaymentMethod_def woken_by_method_def reads_from_def or_missing_def
      Let_def split: option.split)

lemma woken_run:
  assumes "enqueues_ok L R"
  shows "k \<in> set (woken_by R reg (reads_from C K) ev s) \<longleftrightarrow>
    asked_for L R reg (\<lambda>m x k. k \<in> set (mapped_keys C m x)) ev k"
  using enqueuedI [OF assms, of reg "reads_from C K" ev k s] enqueuedD [OF assms, of k reg "reads_from C K" ev s]
  by (auto simp: mapped_run)

section \<open>Facts: the kinds of changes\<close>

definition same_spec :: "billing_account \<Rightarrow> billing_account \<Rightarrow> bool" where
  "same_spec a b \<longleftrightarrow> ba_ContactInfo a = ba_ContactInfo b \<and> ba_TaxIDs a = ba_TaxIDs b \<and>
     ba_DefaultPaymentMethodRef a = ba_DefaultPaymentMethodRef b"

text \<open>The API server's rule: an update that leaves the generation alone leaves the spec alone.\<close>

definition generation_tracks_spec :: "change \<Rightarrow> bool" where
  "generation_tracks_spec ch \<longleftrightarrow> (\<forall>a b. ch = AccountChange (UpdateEvent a b) \<longrightarrow>
     Generation (ba_meta a) = Generation (ba_meta b) \<longrightarrow> same_spec a b)"

text \<open>The names the watcher gives (\<open>PaymentMethodWatch\<close>): a child is called like its parent.\<close>

definition children_named :: "change \<Rightarrow> bool" where
  "children_named ch \<longleftrightarrow> (\<forall>ev. ch = MethodChange ev \<longrightarrow>
     (\<forall>x \<in> set (event_objects ev). spm_PaymentMethodRef x = Name (spm_meta x)))"

text \<open>The default that an account names is a payment method of that account.\<close>

definition default_of_account :: "cluster \<Rightarrow> object_key \<Rightarrow> bool" where
  "default_of_account C k \<longleftrightarrow> (\<forall>ba r. lookup_in ba_meta k (cl_accounts C) = Some ba \<longrightarrow>
     ba_DefaultPaymentMethodRef ba = Some r \<longrightarrow> r \<noteq> '''' \<longrightarrow>
     (\<exists>pm. lookup_in pm_meta (fst k, r) (cl_methods C) = Some pm \<and> pm_BillingAccountRef pm = snd k))"

lemma lookup_SomeD: "lookup_in m k xs = Some x \<Longrightarrow> x \<in> set xs \<and> key_of (m x) = k"
  unfolding lookup_in_def by (drule find_SomeD) simp

lemma lookup_known:
  assumes "x \<in> set xs" and "inj_on (\<lambda>z. key_of (m z)) (set xs)"
  shows "lookup_in m (key_of (m x)) xs = Some x"
    and "key_of (m y) = key_of (m x) \<Longrightarrow>
      lookup_in m (key_of (m x)) (map (\<lambda>z. if key_of (m z) = key_of (m x) then y else z) xs) = Some y"
proof -
  obtain z where z: "lookup_in m (key_of (m x)) xs = Some z"
    using assms(1) by (cases "lookup_in m (key_of (m x)) xs") (auto simp: lookup_in_def find_None_iff)
  with lookup_SomeD [OF z] assms show "lookup_in m (key_of (m x)) xs = Some x" by (auto dest: inj_onD)
  have "lookup_in m (key_of (m x)) (map (\<lambda>z. if key_of (m z) = key_of (m x) then y else z) zs) = Some y"
    if "key_of (m y) = key_of (m x)" "x \<in> set zs" for zs
    using that by (induction zs) (auto simp: lookup_in_def)
  then show "key_of (m y) = key_of (m x) \<Longrightarrow>
      lookup_in m (key_of (m x)) (map (\<lambda>z. if key_of (m z) = key_of (m x) then y else z) xs) = Some y"
    using assms(1) by blast
qed

lemma event_objects_map: "event_objects (map_watch_event f ev) = map f (event_objects ev)"
  by (cases ev) simp_all

lemma woken_account:
  assumes "enqueues_ok L R" and "x \<in> set (event_objects ev)"
    and "event_passes (update_passes R) [AnyOf [GenerationChanged, InvoiceArrangementChanged]] (map_watch_event AccountObject ev)"
  shows "key_of (ba_meta x) \<in> set (woken_by R (account_registration addr n c) (reads_from C K)
     (observed (AccountChange ev)) s)"
  using assms(2,3) by (auto simp: woken_run [OF assms(1)] asked_for_def account_registration_def event_objects_map)

lemma woken_binding:
  assumes "enqueues_ok L R" and "x \<in> set (event_objects ev)" and "k \<in> set (enqueueBillingAccountForBinding x)"
  shows "k \<in> set (woken_by R (account_registration addr n c) (reads_from C K) (observed (BindingChange ev)) s)"
  using assms(2,3) by (auto simp: woken_run [OF assms(1)] asked_for_def account_registration_def event_objects_map)

lemma woken_method:
  assumes "enqueues_ok L R"
  shows "k \<in> set (woken_by R (account_registration addr n c) (reads_from C K) (observed (MethodChange ev)) s) \<longleftrightarrow>
    (\<exists>x\<in>set (event_objects ev). k \<in> set (woken_by_method C x))"
  by (auto simp: woken_run [OF assms] asked_for_def account_registration_def event_objects_map)

lemma account_change_wakes:
  assumes run: "controller_runtime_ok L R" and occ: "occurs (AccountChange ev) C" and gen: "generation_tracks_spec (AccountChange ev)"
    and change: "account_details K s (after (AccountChange ev) C) k \<noteq> account_details K s C k"
  shows "k \<in> set (woken_by R (account_registration addr n c) (reads_from (after (AccountChange ev) C) K)
     (observed (AccountChange ev)) s)"
proof -
  have R: "predicates_ok R" "enqueues_ok L R" using run by (simp_all add: controller_runtime_ok_def)
  let ?filters = "[AnyOf [GenerationChanged, InvoiceArrangementChanged]]"
  obtain x where x: "x \<in> set (event_objects ev)" "key_of (ba_meta x) = k"
  proof (rule ccontr)
    assume "\<not> thesis"
    with that have "lookup_in ba_meta k (stored ba_meta ev (cl_accounts C)) = lookup_in ba_meta k (cl_accounts C)"
      using occ by (intro lookup_stored) auto
    with change show False by (simp add: account_details_eq)
  qed
  have "event_passes (update_passes R) ?filters (map_watch_event AccountObject ev)"
  proof (cases ev)
    case (UpdateEvent a b)
    with occ x have ab: "a \<in> set (cl_accounts C)" "key_of (ba_meta b) = key_of (ba_meta a)" "key_of (ba_meta a) = k"
      and inj: "inj_on (\<lambda>z. key_of (ba_meta z)) (set (cl_accounts C))" by auto
    note look = lookup_known(1) [OF ab(1) inj, unfolded ab(3)] lookup_known(2) [OF ab(1) inj ab(2), unfolded ab(3)]
    show ?thesis
    proof (rule ccontr)
      assume "\<not> ?thesis"
      with UpdateEvent have "Generation (ba_meta a) = Generation (ba_meta b)" "\<not> invoiceArrangementChanged a b"
        by (auto simp: passes_simps [OF R(1)])
      moreover from this gen UpdateEvent have spec: "same_spec a b" by (simp add: generation_tracks_spec_def)
      moreover have ns: "Namespace (ba_meta b) = Namespace (ba_meta a)" "Name (ba_meta b) = Name (ba_meta a)"
        using ab(2) by (simp_all add: key_of_def)
      ultimately have "customerDetailsFromBillingAccount b = customerDetailsFromBillingAccount a"
        using update_filter_complete [of b a] by (simp add: same_spec_def)
      moreover have "default_id C b = default_id C a" using spec ns
        by (simp add: default_id_def same_spec_def split: option.split)
      moreover have "projects_of C b = projects_of C a"
        using ns by (simp add: projects_of_def counts_for_def [abs_def] bound_to_def)
      ultimately show False
        using change look ab(3) UpdateEvent by (simp add: account_details_eq)
    qed
  qed simp_all
  from woken_account [OF R(2) x(1) this] show ?thesis by (simp only: x(2))
qed

lemma binding_change_wakes:
  assumes run: "controller_runtime_ok L R" and occ: "occurs (BindingChange ev) C" and name: "snd k \<noteq> ''''"
    and change: "account_details K s (after (BindingChange ev) C) k \<noteq> account_details K s C k"
  shows "k \<in> set (woken_by R (account_registration addr n c) (reads_from (after (BindingChange ev) C) K)
     (observed (BindingChange ev)) s)"
proof -
  from change obtain ba where ba: "lookup_in ba_meta k (cl_accounts C) = Some ba"
    and proj: "projects_of (after (BindingChange ev) C) ba \<noteq> projects_of C ba"
    by (cases "lookup_in ba_meta k (cl_accounts C)") (auto simp: account_details_eq)
  obtain b where b: "b \<in> set (event_objects ev)" "counts_for ba b"
    using projects_changed [OF _ proj] occ by auto
  moreover have "key_of (ba_meta ba) = k" using lookup_SomeD [OF ba] by simp
  ultimately have "k \<in> set (enqueueBillingAccountForBinding b)"
    using name by (auto simp: counts_for_def bound_to_def enqueueBillingAccountForBinding_def key_of_def split: if_splits)
  moreover have "enqueues_ok L R" using run by (simp add: controller_runtime_ok_def)
  ultimately show ?thesis using b(1) by (intro woken_binding)
qed

text \<open>A payment method's event reaches an account exactly when it is the account's.\<close>

lemma method_change_wakes:
  assumes run: "controller_runtime_ok L R" and occ: "occurs (MethodChange ev) C" and name: "snd k \<noteq> ''''"
    and named: "children_named (MethodChange ev)"
    and change: "account_details K s (after (MethodChange ev) C) k \<noteq> account_details K s C k"
  shows "k \<in> set (woken_by R (account_registration addr n c) (reads_from (after (MethodChange ev) C) K)
     (observed (MethodChange ev)) s) \<longleftrightarrow> default_of_account C k"
proof -
  from change obtain ba where ba: "lookup_in ba_meta k (cl_accounts C) = Some ba"
    and id: "default_id (after (MethodChange ev) C) ba \<noteq> default_id C ba"
    by (cases "lookup_in ba_meta k (cl_accounts C)") (auto simp: account_details_eq)
  have k: "key_of (ba_meta ba) = k" using lookup_SomeD [OF ba] by simp
  obtain r x where r: "ba_DefaultPaymentMethodRef ba = Some r" "r \<noteq> ''''"
    and x: "x \<in> set (event_objects ev)" "key_of (spm_meta x) = (fst k, r)"
    using default_changed [OF _ id] occ k by (auto simp: key_of_def)
  have keys: "key_of (spm_meta y) = key_of (spm_meta x)" if "y \<in> set (event_objects ev)" for y
    using that x(1) occ by (cases ev) auto
  have fields: "spm_PaymentMethodRef y = r" "Namespace (spm_meta y) = fst k" if "y \<in> set (event_objects ev)" for y
    using named that keys [OF that] x(2) by (auto simp: children_named_def key_of_def)
  have "k \<in> set (woken_by_method (after (MethodChange ev) C) y) \<longleftrightarrow>
      (\<exists>pm. lookup_in pm_meta (fst k, r) (cl_methods C) = Some pm \<and> pm_BillingAccountRef pm = snd k)"
    if "y \<in> set (event_objects ev)" for y
  proof (cases "lookup_in pm_meta (fst k, r) (cl_methods C)")
    case (Some pm)
    with lookup_SomeD [OF Some] r(2) name fields [OF that] show ?thesis
      by (cases k) (auto simp: woken_by_method_def key_of_def)
  qed (use r(2) fields [OF that] in \<open>simp add: woken_by_method_def\<close>)
  with x(1) have "(\<exists>y\<in>set (event_objects ev). k \<in> set (woken_by_method (after (MethodChange ev) C) y)) \<longleftrightarrow>
      default_of_account C k"
    using ba r by (auto simp: default_of_account_def)
  moreover have "enqueues_ok L R" using run by (simp add: controller_runtime_ok_def)
  ultimately show ?thesis by (simp only: woken_method)
qed

text \<open>The details do not depend on the PaymentMethods.\<close>

lemma parent_change_same: "account_details K s (after (ParentChange ev) C) k = account_details K s C k"
  by (simp add: account_details_eq)

text \<open>
  C5 (liveness): which changes reach Stripe. Whatever account, binding, StripePaymentMethod or parent
  PaymentMethod is created, updated or deleted, when the details that the program computes for an account
  are not the same after it, the account reconciler is woken for that account, with one exception, which
  is exact: a change of the StripePaymentMethod that the account names as its default wakes the account if
  and only if the PaymentMethod of that name is still there and bound to the account. (When it was deleted
  before its child, or is bound to another account, the change is missed.) This needs that updates of an account's spec
  raise its generation, that children carry the name of their PaymentMethod, and that controller-runtime
  does what it documents.
\<close>

theorem details_changes_wake:
  assumes "controller_runtime_ok L R" and "occurs ch C" and "generation_tracks_spec ch" and "children_named ch"
    and "snd k \<noteq> ''''" and "account_details K s (after ch C) k \<noteq> account_details K s C k"
  shows "k \<in> set (woken_by R (account_registration addr n c) (reads_from (after ch C) K) (observed ch) s) \<longleftrightarrow>
    ((\<exists>ev. ch = MethodChange ev) \<longrightarrow> default_of_account C k)"
proof (cases ch)
  case (AccountChange ev)
  have "k \<in> set (woken_by R (account_registration addr n c) (reads_from (after ch C) K) (observed ch) s)"
    unfolding AccountChange by (rule account_change_wakes) (use assms AccountChange in simp_all)
  with AccountChange show ?thesis by simp
next
  case (BindingChange ev)
  have "k \<in> set (woken_by R (account_registration addr n c) (reads_from (after ch C) K) (observed ch) s)"
    unfolding BindingChange by (rule binding_change_wakes) (use assms BindingChange in simp_all)
  with BindingChange show ?thesis by simp
next
  case (MethodChange ev)
  have "k \<in> set (woken_by R (account_registration addr n c) (reads_from (after ch C) K) (observed ch) s) \<longleftrightarrow>
      default_of_account C k"
    unfolding MethodChange by (rule method_change_wakes) (use assms MethodChange in simp_all)
  with MethodChange show ?thesis by simp
next
  case (ParentChange ev)
  have False using assms(6) unfolding ParentChange parent_change_same by simp
  then show ?thesis ..
qed

text \<open>
  The exception occurs: when a payment method is gone before its child, as the garbage
  collector deletes them, the deletion of the child changes the details of the account that named it as the
  default, and wakes no account.
\<close>

lemma orphan_deletion_wakes_none:
  assumes "controller_runtime_ok L R"
    and "occurs (MethodChange (DeleteEvent x)) C" and "lookup_in ba_meta k (cl_accounts C) = Some ba"
    and "key_of (spm_meta x) = (fst k, r)" and "ba_DefaultPaymentMethodRef ba = Some r" and "r \<noteq> ''''"
    and "StripePaymentMethodID (spm_status x) \<noteq> ''''" and "spm_PaymentMethodRef x = r"
    and "lookup_in pm_meta (fst k, r) (cl_methods C) = None"
  shows "account_details K s (after (MethodChange (DeleteEvent x)) C) k \<noteq> account_details K s C k"
    and "woken_by R (account_registration addr n c) (reads_from (after (MethodChange (DeleteEvent x)) C) K)
      (observed (MethodChange (DeleteEvent x))) s = []"
proof -
  have k: "key_of (ba_meta ba) = k" using lookup_SomeD [OF assms(3)] by simp
  with assms(2,4) have "lookup_in spm_meta (fst k, r) (cl_children C) = Some x"
    using lookup_known(1) [of x "cl_children C" spm_meta] by simp
  moreover have "lookup_in spm_meta (fst k, r) (cl_children (after (MethodChange (DeleteEvent x)) C)) = None"
    using assms(4) by (auto simp: lookup_in_def find_None_iff)
  ultimately have "default_id (after (MethodChange (DeleteEvent x)) C) ba \<noteq> default_id C ba"
    using assms(5-7) k by (auto simp: default_id_def key_of_def)
  then show "account_details K s (after (MethodChange (DeleteEvent x)) C) k \<noteq> account_details K s C k"
    using assms(3) by (auto simp: account_details_eq)
  have R: "enqueues_ok L R" using assms(1) by (simp add: controller_runtime_ok_def)
  have "woken_by_method (after (MethodChange (DeleteEvent x)) C) x = []"
    using assms(4,8,9) by (simp add: woken_by_method_def key_of_def)
  then have "k' \<notin> set (woken_by R (account_registration addr n c) (reads_from (after (MethodChange (DeleteEvent x)) C) K)
      (observed (MethodChange (DeleteEvent x))) s)" for k'
    unfolding woken_method [OF R] by simp
  then show "woken_by R (account_registration addr n c) (reads_from (after (MethodChange (DeleteEvent x)) C) K)
      (observed (MethodChange (DeleteEvent x))) s = []" by (metis last_in_set)
qed

section \<open>Witnesses\<close>

text \<open>A runtime that works through the registration as it is written.\<close>

fun passes_by :: "update_filter \<Rightarrow> object \<Rightarrow> object \<Rightarrow> bool" where
  "passes_by GenerationChanged x y \<longleftrightarrow> Generation (meta_of x) \<noteq> Generation (meta_of y)"
| "passes_by InvoiceArrangementChanged x y \<longleftrightarrow> invoice_update_passes x y"
| "passes_by (AnyOf fs) x y \<longleftrightarrow> list_ex (\<lambda>f. passes_by f x y) fs"

primrec kind_text :: "kind \<Rightarrow> string" where
  "kind_text PaymentMethodKind = ''PaymentMethod''"
| "kind_text StripePaymentMethodKind = ''StripePaymentMethod''"
| "kind_text BillingAccountKind = ''BillingAccount''"
| "kind_text BillingAccountBindingKind = ''BillingAccountBinding''"
| "kind_text StripeCustomerKind = ''StripeCustomer''"
| "kind_text StripeProviderConfigKind = ''StripeProviderConfig''"

definition controller_key :: "lib \<Rightarrow> kind \<Rightarrow> object \<Rightarrow> object_key list" where
  "controller_key L k x = (case GetControllerOf L (meta_of x) of
       None \<Rightarrow> []
     | Some r \<Rightarrow> (if or_Kind r = kind_text k then [(Namespace (meta_of x), or_Name r)] else []))"

fun collect_keys :: "('w, object_key list) prog list \<Rightarrow> ('w, object_key list) prog" where
  "collect_keys [] = ret []"
| "collect_keys (p # ps) = do {
     ks \<leftarrow> p;
     ks' \<leftarrow> collect_keys ps;
     ret (ks @ ks')
   }"

definition requests_for :: "lib \<Rightarrow> registration \<Rightarrow> 'w kube \<Rightarrow> object watch_event \<Rightarrow> object \<Rightarrow>
    ('w, object_key list) prog list" where
  "requests_for L reg K ev x =
     ret (if kind_of x = For reg \<and> event_passes passes_by (ForPredicates reg) ev then [key_of (meta_of x)] else []) #
     map (\<lambda>(k, fs). ret (if kind_of x = k \<and> event_passes passes_by fs ev then controller_key L (For reg) x else []))
       (Owns reg) @
     map (\<lambda>(k, m). if kind_of x = k then mapped K m x else ret []) (Watches reg)"

definition eager_runtime :: "lib \<Rightarrow> 'w controller_runtime" where
  "eager_runtime L = \<lparr>update_passes = passes_by, refers_to = (\<lambda>k r. or_Kind r = kind_text k),
     enqueued = (\<lambda>reg K ev. collect_keys (concat (map (requests_for L reg K ev) (event_objects ev))))\<rparr>"

lemma collect_keys_Cons:
  "fst (run_state (collect_keys (p # ps)) s) =
     fst (run_state p s) @ fst (run_state (collect_keys ps) (snd (run_state p s)))"
  by (simp split: prod.split)

lemma collect_keysI: "p \<in> set ps \<Longrightarrow> \<forall>t. k \<in> set (fst (run_state p t)) \<Longrightarrow> k \<in> set (fst (run_state (collect_keys ps) s))"
  by (induction ps arbitrary: s) (auto simp: collect_keys_Cons simp del: collect_keys.simps)

lemma collect_keysD: "k \<in> set (fst (run_state (collect_keys ps) s)) \<Longrightarrow> \<exists>p\<in>set ps. \<exists>t. k \<in> set (fst (run_state p t))"
proof (induction ps arbitrary: s)
  case (Cons q qs)
  then show ?case unfolding collect_keys_Cons by auto
qed simp

lemma requests_for_some:
  assumes "p \<in> set (requests_for L reg (K :: 'w kube) ev x)" and "k \<in> set (fst (run_state p t))" and "x \<in> set (event_objects ev)"
  shows "asked_for L (eager_runtime L :: 'w controller_runtime) reg (\<lambda>m x k. \<exists>t. k \<in> set (fst (run_state (mapped K m x) t))) ev k"
  using assms unfolding asked_for_def
  by (intro bexI [OF _ assms(3)])
    (auto simp: requests_for_def controller_key_def eager_runtime_def split: option.splits if_splits)

lemma requests_for_all:
  assumes "asked_for L (eager_runtime L :: 'w controller_runtime) reg (\<lambda>m x k. \<forall>t. k \<in> set (fst (run_state (mapped K m x) t))) ev k"
  shows "\<exists>x\<in>set (event_objects ev). \<exists>p\<in>set (requests_for L reg (K :: 'w kube) ev x). \<forall>t. k \<in> set (fst (run_state p t))"
proof -
  from assms obtain x where x: "x \<in> set (event_objects ev)"
    and "kind_of x = For reg \<and> event_passes passes_by (ForPredicates reg) ev \<and> k = key_of (meta_of x) \<or>
     (\<exists>fs owner. (kind_of x, fs) \<in> set (Owns reg) \<and> event_passes passes_by fs ev \<and>
        GetControllerOf L (meta_of x) = Some owner \<and> or_Kind owner = kind_text (For reg) \<and>
        k = (Namespace (meta_of x), or_Name owner)) \<or>
     (\<exists>m. (kind_of x, m) \<in> set (Watches reg) \<and> (\<forall>t. k \<in> set (fst (run_state (mapped K m x) t))))"
    by (auto simp: asked_for_def eager_runtime_def)
  then have "\<exists>p\<in>set (requests_for L reg K ev x). \<forall>t. k \<in> set (fst (run_state p t))"
  proof (elim disjE exE conjE)
    fix fs owner
    assume "(kind_of x, fs) \<in> set (Owns reg)" "event_passes passes_by fs ev" "GetControllerOf L (meta_of x) = Some owner"
      "or_Kind owner = kind_text (For reg)" "k = (Namespace (meta_of x), or_Name owner)"
    then show ?thesis
      by (intro bexI [of _ "ret (controller_key L (For reg) x)"])
        (force simp: requests_for_def controller_key_def)+
  next
    fix m
    assume "(kind_of x, m) \<in> set (Watches reg)" "\<forall>t. k \<in> set (fst (run_state (mapped K m x) t))"
    then show ?thesis by (intro bexI [of _ "mapped K m x"]) (force simp: requests_for_def)+
  qed (simp add: requests_for_def)
  with x show ?thesis by blast
qed

lemma eager_runtime_meets: "controller_runtime_ok L (eager_runtime L)"
proof -
  have "enqueues_ok L (eager_runtime L :: 'w controller_runtime)" for L :: lib
    unfolding enqueues_ok_def
  proof (intro allI conjI impI)
    fix reg ev k and K :: "'w kube" and s
    let ?ps = "concat (map (requests_for L reg K ev) (event_objects ev))"
    have run: "woken_by (eager_runtime L) reg K ev s = fst (run_state (collect_keys ?ps) s)" by (simp add: eager_runtime_def)
    {
      assume "asked_for L (eager_runtime L :: 'w controller_runtime) reg (\<lambda>m x k. \<forall>t. k \<in> set (fst (run_state (mapped K m x) t))) ev k"
      from requests_for_all [OF this] show "k \<in> set (woken_by (eager_runtime L) reg K ev s)"
        unfolding run by (elim bexE) (rule collect_keysI, auto)
    next
      assume "k \<in> set (woken_by (eager_runtime L) reg K ev s)"
      from collect_keysD [OF this [unfolded run]] obtain x p t where x: "x \<in> set (event_objects ev)"
        and p: "p \<in> set (requests_for L reg K ev x)" "k \<in> set (fst (run_state p t))" by auto
      from requests_for_some [OF p x]
      show "asked_for L (eager_runtime L :: 'w controller_runtime) reg (\<lambda>m x k. \<exists>t. k \<in> set (fst (run_state (mapped K m x) t))) ev k" .
    }
  qed
  then show ?thesis by (simp add: controller_runtime_ok_def predicates_ok_def eager_runtime_def)
qed

text \<open>An account with a default card, whose child is confirmed.\<close>

definition card_account :: billing_account where
  "card_account = sample_ba\<lparr>ba_DefaultPaymentMethodRef := Some ''card-1''\<rparr>"

definition confirmed_child :: spm where
  "confirmed_child = sample_spm\<lparr>spm_status := empty_spm_status\<lparr>StripePaymentMethodID := ''pm_1''\<rparr>\<rparr>"

definition card_cluster :: cluster where
  "card_cluster = \<lparr>cl_accounts = [card_account], cl_methods = [sample_pm], cl_children = [sample_spm], cl_bindings = []\<rparr>"

lemmas card_defs = card_account_def confirmed_child_def card_cluster_def sample_ba_def sample_spm_def sample_pm_def
  new_object_meta_def key_of_def lookup_in_def

theorem details_changes_wake_witness:
  "(''org'', ''acme'') \<in> set (woken_by (eager_runtime sample_lib) (account_registration 0 ''default'' None)
     (reads_from (after (MethodChange (UpdateEvent sample_spm confirmed_child)) card_cluster) sample_kube)
     (observed (MethodChange (UpdateEvent sample_spm confirmed_child))) (st0 ()))"
proof -
  let ?ch = "MethodChange (UpdateEvent sample_spm confirmed_child)"
  have "occurs ?ch card_cluster" by (simp add: card_defs)
  moreover have "generation_tracks_spec ?ch" by (simp add: generation_tracks_spec_def)
  moreover have "children_named ?ch" by (simp add: children_named_def card_defs)
  moreover have "account_details sample_kube (st0 ()) (after ?ch card_cluster) (''org'', ''acme'') \<noteq>
      account_details sample_kube (st0 ()) card_cluster (''org'', ''acme'')"
    by (simp add: account_details_eq default_id_def card_defs empty_spm_status_def)
  moreover have "default_of_account card_cluster (''org'', ''acme'')"
    by (simp add: default_of_account_def card_defs)
  ultimately show ?thesis
    using details_changes_wake [OF eager_runtime_meets [of sample_lib], of ?ch card_cluster "(''org'', ''acme'')"] by simp
qed

text \<open>The payment method is deleted, then its child.\<close>

definition orphan_cluster :: cluster where
  "orphan_cluster = card_cluster\<lparr>cl_methods := [], cl_children := [confirmed_child]\<rparr>"

lemma orphan_deletion_wakes_none_witness:
  "woken_by (eager_runtime sample_lib) (account_registration 0 ''default'' None)
     (reads_from (after (MethodChange (DeleteEvent confirmed_child)) orphan_cluster) sample_kube)
     (observed (MethodChange (DeleteEvent confirmed_child))) (st0 ()) = []"
  by (rule orphan_deletion_wakes_none(2) [OF eager_runtime_meets, where k = "(''org'', ''acme'')" and ba = card_account
      and r = "''card-1''"])
    (simp_all add: orphan_cluster_def card_defs)

end
