(* ===== verification/Settling.thy ===== *)
theory Settling
  imports Wakeups EnsureProtocol
begin

text \<open>
  The account reconciler comes to rest. Its status writes raise no generation and so do not
  wake it again (\<open>Owns\<close> with \<open>GenerationChangedPredicate\<close>, as the runtime documents it), and a call of \<open>Ensure\<close> that ends like
  the one before finds nothing to write (the comparison in \<open>patchStatus\<close>). A \<open>StripeCustomer\<close>
  that somebody deletes wakes its account.
\<close>

section \<open>The status, written twice\<close>

text \<open>The documented behaviour of the condition helper on a condition that is there already.\<close>

definition conditions_settle :: "lib \<Rightarrow> bool" where
  "conditions_settle L \<longleftrightarrow> (\<forall>cs c. find_condition cs (c_Type c) = Some c \<longrightarrow> SetStatusCondition L cs c = cs)"

lemma synced_status_again:
  assumes "conditions_ok L" and "conditions_settle L" and "c_Type r \<noteq> c_Type t" and "sc_meta sc' = sc_meta sc"
    and "sc_status sc' = synced_status L sc c r (Some t)"
  shows "synced_status L sc' c r (Some t) = sc_status sc'"
proof -
  let ?r = "r\<lparr>c_ObservedGeneration := Generation (sc_meta sc)\<rparr>"
    and ?t = "t\<lparr>c_ObservedGeneration := Generation (sc_meta sc)\<rparr>"
  let ?cs = "SetStatusCondition L (SetStatusCondition L (sc_Conditions (sc_status sc)) ?r) ?t"
  have "find_condition ?cs (c_Type ?r) = Some ?r" "find_condition ?cs (c_Type ?t) = Some ?t"
    using assms(3) by (simp_all add: find_SetStatusCondition [OF assms(1)])
  then have "SetStatusCondition L ?cs ?r = ?cs" "SetStatusCondition L ?cs ?t = ?cs"
    using assms(2) unfolding conditions_settle_def by blast+
  then show ?thesis using assms(4,5) by (simp add: synced_status_def Let_def)
qed

text \<open>The status says what a call that ends with the customer \<open>c\<close> and the tax ID error \<open>u\<close> records.\<close>

definition says :: "lib \<Rightarrow> stripe_customer \<Rightarrow> string \<Rightarrow> go_error option \<Rightarrow> bool" where
  "says L sc c u \<longleftrightarrow> synced_status L sc c (ready_synced c) (Some (tax_ids_condition u)) = sc_status sc"

definition tax_error :: "go_error option \<Rightarrow> go_error option" where
  "tax_error err = Option.bind err As_TaxIDError"

text \<open>The StripeCustomer that is stored after the writes, when \<open>sc\<close> was stored before.\<close>

primrec sc_after :: "stripe_customer \<Rightarrow> effect list \<Rightarrow> stripe_customer" where
  "sc_after sc [] = sc"
| "sc_after sc (e # es) = sc_after (case e of SCStatusPatch sc' ok \<Rightarrow> if ok then sc' else sc | _ \<Rightarrow> sc) es"

lemma sc_after_append [simp]: "sc_after sc (es @ es') = sc_after (sc_after sc es) es'"
  by (induction es arbitrary: sc) simp_all

lemma sc_after_apart: "list_all (\<lambda>e. \<not> is_sc_effect e) es \<Longrightarrow> sc_after sc es = sc"
proof (induction es arbitrary: sc)
  case (Cons e es)
  then show ?case by (cases e) simp_all
qed simp

lemma sc_after_creates: "list_all (\<lambda>e. \<exists>x ok. e = SCCreate x ok) es \<Longrightarrow> sc_after sc es = sc"
  by (induction es arbitrary: sc) auto

section \<open>One call\<close>

lemma condition_types_differ: "c_Type (ready_synced c) \<noteq> c_Type (tax_ids_condition u)"
  by (simp add: StripeCustomerConditionReady_def StripeCustomerConditionTaxIDsApplied_def)

text \<open>What a call that ends with the customer \<open>c\<close> writes to the cluster in the end.\<close>

definition synced_writes :: "lib \<Rightarrow> stripe_customer \<Rightarrow> string \<Rightarrow> go_error option \<Rightarrow> effect list" where
  "synced_writes L sc c u = (if says L sc c u then []
     else [SCStatusPatch (sc\<lparr>sc_status := synced_status L sc c (ready_synced c) (Some (tax_ids_condition u))\<rparr>) True])"

lemma says_after_writes:
  assumes "conditions_ok L" and "conditions_settle L"
  shows "says L (sc_after sc (synced_writes L sc c u)) c u"
    and "sc_StripeCustomerID (sc_status (sc_after sc (synced_writes L sc c u))) = c"
    and "sc_meta (sc_after sc (synced_writes L sc c u)) = sc_meta sc"
proof -
  let ?sc = "sc_after sc (synced_writes L sc c u)"
  have st: "sc_status ?sc = synced_status L sc c (ready_synced c) (Some (tax_ids_condition u))"
    and meta: "sc_meta ?sc = sc_meta sc"
    by (simp_all add: synced_writes_def says_def)
  from synced_status_again [OF assms condition_types_differ meta st] show "says L ?sc c u" by (simp add: says_def)
  from st show "sc_StripeCustomerID (sc_status ?sc) = c" by (simp add: synced_status_def Let_def)
  from meta show "sc_meta ?sc = sc_meta sc" .
qed

lemma record_synced_ends:
  assumes "kube_errors_ok E" and "run_state (record_synced E sc i e u) s = ((c, err), s')" and "usable err"
  shows "c = i" and "err = e" and "effects (record_synced E sc i e u) s = synced_writes (lib E) sc i u"
proof -
  obtain p s1 where p: "run_state (patchStatus E sc i (ready_synced i) (Some (tax_ids_condition u))) s = (p, s1)"
    by fastforce
  have "p = None"
  proof (cases p)
    case (Some e')
    with p assms(2) have "err = Some e'" by (simp add: record_synced_def)
    with patchStatus_error [OF assms(1) p [unfolded Some]] assms(3) show ?thesis by simp
  qed
  with p assms(2) show "c = i" "err = e" by (simp_all add: record_synced_def)
  show "effects (record_synced E sc i e u) s = synced_writes (lib E) sc i u"
    using p \<open>p = None\<close> by (auto simp: effects_def record_synced_def patchStatus_def synced_writes_def says_def Let_def
        split: prod.splits sum.splits if_splits)
qed

context customer_ensurer
begin

lemma sync_ends:
  assumes "kube_errors_ok E" and "run_state (sync_customer E ensure ba sc x) s = ((c, err), s')" and "usable err"
  shows "(x \<noteq> '''' \<longrightarrow> c = x) \<and> (\<exists>pre. list_all (\<lambda>e. \<not> is_sc_effect e) pre \<and>
    effects (sync_customer E ensure ba sc x) s = pre @ synced_writes (lib E) sc c (tax_error err))"
proof -
  obtain b s1 where b: "run_state (buildCustomerDetails (kube E) ba) s = (b, s1)" by fastforce
  have tr1: "trace s1 = trace s" by (rule silent [OF buildCustomerDetails_emits b])
  show ?thesis
  proof (cases b)
    case (Inl e)
    with b assms(2,3) answersD [OF buildCustomerDetails_plain [OF assms(1)] b] show ?thesis
      by (auto simp: sync_customer_def)
  next
    case (Inr d)
    let ?call = "ensure x (account_key_of ba) d"
    obtain i e s2 where c: "run_state ?call s1 = ((i, e), s2)" by (metis prod.exhaust)
    have tr2: "trace s2 = trace s1 @ effects ?call s1"
      using emits_trace [OF stripe_only, of x "account_key_of ba" d s1] c by simp
    have "e = None \<or> (\<exists>e' u. e = Some e' \<and> As_TaxIDError e' = Some u)"
    proof (rule ccontr)
      assume "\<not> ?thesis"
      then obtain e' where e': "e = Some e'" "As_TaxIDError e' = None" by auto
      with b Inr c assms(2) have "run_state (record_failure E sc x e') s2 = ((c, err), s')"
        by (simp add: sync_customer_def)
      from record_failure_unusable [OF assms(1) e'(2) this] assms(3) show False by simp
    qed
    then have run: "run_state (sync_customer E ensure ba sc x) s = run_state (record_synced E sc i e (tax_error e)) s2"
      using b Inr c by (auto simp: sync_customer_def tax_error_def)
    note ends = record_synced_ends [OF assms(1) assms(2) [unfolded run] assms(3)]
    have "effects (sync_customer E ensure ba sc x) s =
        effects ?call s1 @ effects (record_synced E sc i e (tax_error e)) s2"
      using emits_trace [OF record_synced_emits, of E sc i e "tax_error e" s2]
      by (intro effects_eqI) (simp add: run tr1 tr2)
    moreover have "x \<noteq> '''' \<longrightarrow> i = x" using known_id [of x "account_key_of ba" d s1] c by simp
    ultimately show ?thesis using ends emits_effects [OF stripe_only, of x "account_key_of ba" d s1] by auto
  qed
qed

lemma Ensure_ends:
  assumes "kube_errors_ok E" and "run_state (Ensure E ensure ba) s = ((c, err), s')" and "usable err"
  shows "\<exists>sc s1 pre. run_state (getOrCreate E ba) s = (Inr sc, s1) \<and> list_all (\<lambda>e. \<not> is_sc_effect e) pre \<and>
    (sc_StripeCustomerID (sc_status sc) \<noteq> '''' \<longrightarrow> c = sc_StripeCustomerID (sc_status sc)) \<and>
    effects (Ensure E ensure ba) s =
      effects (getOrCreate E ba) s @ pre @ synced_writes (lib E) sc c (tax_error err)"
proof -
  obtain g s1 where g: "run_state (getOrCreate E ba) s = (g, s1)" by fastforce
  with assms answersD [OF getOrCreate_plain [OF assms(1)] g] obtain sc where sc: "g = Inr sc"
    by (cases g) (auto simp: Ensure_def)
  obtain k s2 where k: "run_state (known_customer_id E ba sc) s1 = (k, s2)" by fastforce
  with g sc assms answersD [OF known_customer_id_plain [OF assms(1)] k] obtain x where x: "k = Inr x"
    by (cases k) (auto simp: Ensure_def)
  have run: "run_state (Ensure E ensure ba) s = run_state (sync_customer E ensure ba sc x) s2"
    using g sc k x by (simp add: Ensure_def)
  obtain pre where pre: "list_all (\<lambda>e. \<not> is_sc_effect e) pre"
    "effects (sync_customer E ensure ba sc x) s2 = pre @ synced_writes (lib E) sc c (tax_error err)"
    and c: "x \<noteq> '''' \<longrightarrow> c = x"
    using sync_ends [OF assms(1) assms(2) [unfolded run] assms(3)] by blast
  have known: "sc_StripeCustomerID (sc_status sc) \<noteq> '''' \<longrightarrow> x = sc_StripeCustomerID (sc_status sc)"
    using k x by (auto simp: known_customer_id_def)
  have "trace s1 = trace s @ effects (getOrCreate E ba) s" using emits_trace [OF getOrCreate_emits, of E ba s] g by simp
  moreover have "trace s2 = trace s1" by (rule silent [OF known_customer_id_emits k])
  moreover have "trace (snd (run_state (sync_customer E ensure ba sc x) s2)) =
      trace s2 @ effects (sync_customer E ensure ba sc x) s2"
    by (rule emits_trace [OF sync_emits])
  ultimately have "effects (Ensure E ensure ba) s =
      effects (getOrCreate E ba) s @ effects (sync_customer E ensure ba sc x) s2"
    by (intro effects_eqI) (simp add: run)
  with g sc pre c known show ?thesis by auto
qed

end

section \<open>What the reconciler's own writes wake\<close>

text \<open>A status write raises no generation, and wakes nobody.\<close>

lemma status_write_wakes_none:
  assumes "controller_runtime_ok L R" and "Generation (sc_meta sc') = Generation (sc_meta sc)"
  shows "woken_by R (account_registration addr n r) K (UpdateEvent (CustomerObject sc) (CustomerObject sc')) u = []"
proof -
  have R: "predicates_ok R" "enqueues_ok L R" using assms(1) by (simp_all add: controller_runtime_ok_def)
  have "k \<notin> set (woken_by R (account_registration addr n r) K (UpdateEvent (CustomerObject sc) (CustomerObject sc')) u)" for k
    using enqueuedD [OF R(2), of k "account_registration addr n r" K "UpdateEvent (CustomerObject sc) (CustomerObject sc')" u]
      assms(2) by (auto simp: asked_for_def account_registration_def passes_simps [OF R(1)])
  then show ?thesis by (metis last_in_set)
qed

text \<open>A StripeCustomer that is lost wakes the account that controls it.\<close>

lemma lost_customer_wakes:
  assumes "controller_runtime_ok L R" and "GetControllerOf L (sc_meta sc) = Some owner" and "refers_to R BillingAccountKind owner"
    and "or_Name owner = Name (ba_meta ba)" and "Namespace (sc_meta sc) = Namespace (ba_meta ba)"
  shows "key_of (ba_meta ba) \<in> set (woken_by R (account_registration addr n r) K (DeleteEvent (CustomerObject sc)) u)"
  using assms by (intro enqueuedI [of L]) (simp_all add: controller_runtime_ok_def asked_for_def account_registration_def key_of_def)

section \<open>Properties\<close>

text \<open>
  C6 (liveness): a reconciled account comes to rest. After a call of Ensure that returned a customer (and no
  error but one of the tax IDs), none of its status writes wakes the account reconciler again, and a
  later call that reads the StripeCustomer as the first one left it and ends with the same error works on
  the same customer and writes nothing to the cluster.
\<close>

theorem reconciled_account_rests:
  assumes "kube_errors_ok E" and "conditions_ok (lib E)" and "conditions_settle (lib E)" and "controller_runtime_ok (lib E) R"
    and "run_state (getOrCreate E ba) s = (Inr sc, s1)"
    and "run_state (Ensure E (EnsureCustomer S rt) ba) s = ((c, err), s')" and "usable err" and "c \<noteq> ''''"
    and "read_sc (kube E) (key_of (ba_meta ba)) (world t) =
      (Inr (sc_after sc (effects (Ensure E (EnsureCustomer S rt) ba) s)), w)"
    and "run_state (Ensure E (EnsureCustomer S' rt') ba) t = ((c', err), t')"
  shows "(\<forall>x. SCStatusPatch x True \<in> set (effects (Ensure E (EnsureCustomer S rt) ba) s) \<longrightarrow>
      woken_by R (account_registration addr n r) K (UpdateEvent (CustomerObject sc) (CustomerObject x)) u = []) \<and>
    c' = c \<and> list_all (\<lambda>e. \<not> is_sc_effect e) (effects (Ensure E (EnsureCustomer S' rt') ba) t)"
proof -
  let ?u = "tax_error err" and ?es = "effects (Ensure E (EnsureCustomer S rt) ba) s"
  obtain pre where pre: "list_all (\<lambda>e. \<not> is_sc_effect e) pre"
    and es: "?es = effects (getOrCreate E ba) s @ pre @ synced_writes (lib E) sc c ?u"
    using stripe_client.Ensure_ends [OF assms(1,6,7)] assms(5) by auto
  have creates: "list_all (\<lambda>e. \<exists>x ok. e = SCCreate x ok) (effects (getOrCreate E ba) s)"
    by (rule emits_effects [OF getOrCreate_emits])
  have stored: "sc_after sc ?es = sc_after sc (synced_writes (lib E) sc c ?u)"
    using es sc_after_creates [OF creates] sc_after_apart [OF pre] by simp
  note left = says_after_writes [OF assms(2,3), of sc c ?u, folded stored]
  obtain sc2 t1 pre2 where get: "run_state (getOrCreate E ba) t = (Inr sc2, t1)"
    and pre2: "list_all (\<lambda>e. \<not> is_sc_effect e) pre2" "sc_StripeCustomerID (sc_status sc2) \<noteq> '''' \<longrightarrow>
      c' = sc_StripeCustomerID (sc_status sc2)" "effects (Ensure E (EnsureCustomer S' rt') ba) t =
      effects (getOrCreate E ba) t @ pre2 @ synced_writes (lib E) sc2 c' ?u"
    using stripe_client.Ensure_ends [OF assms(1,10,7)] by blast
  have sc2: "sc2 = sc_after sc ?es" and quiet: "effects (getOrCreate E ba) t = []"
    using get assms(9) by (auto simp: getOrCreate_def effects_def Let_def split: option.splits if_splits)
  have c': "c' = c" using pre2(2) left(2) assms(8) sc2 by simp
  with left(1) sc2 have "synced_writes (lib E) sc2 c' ?u = []" by (simp add: synced_writes_def)
  moreover have "woken_by R (account_registration addr n r) K (UpdateEvent (CustomerObject sc) (CustomerObject x)) u = []" if "SCStatusPatch x True \<in> set ?es" for x
  proof -
    from that es creates pre have "SCStatusPatch x True \<in> set (synced_writes (lib E) sc c ?u)"
      by (fastforce simp: list_all_iff)
    then show ?thesis
      by (intro status_write_wakes_none [OF assms(4)]) (auto simp: synced_writes_def split: if_splits)
  qed
  ultimately show ?thesis using pre2(1,3) quiet c' by simp
qed

section \<open>Witnesses\<close>

text \<open>A cluster that stores the StripeCustomer: the world is the one that is stored.\<close>

definition accepting_stripe :: "stripe_customer stripe_api" where
  "accepting_stripe = sample_stripe\<lparr>customers_update := \<lambda>_ _. answer sample_customer\<rparr>"

definition storing_env :: "stripe_customer env" where
  "storing_env = sample_env\<lparr>kube := sample_kube\<lparr>read_sc := \<lambda>_ w. (Inr w, w),
     patch_sc_status := \<lambda>_ x w. (Inr x, x)\<rparr>, sdk := \<lambda>_. accepting_stripe\<rparr>"

lemma sample_conditions_settle: "conditions_settle sample_lib"
proof -
  have "find_condition cs (c_Type c) = Some c \<Longrightarrow> set_condition cs c = cs" for cs c
    by (induction cs) (auto simp: find_condition_def)
  then show ?thesis by (simp add: conditions_settle_def sample_lib_def)
qed

lemma storing_env_fields [simp]:
  "lib storing_env = sample_lib" "read_sc (kube storing_env) k w = (Inr w, w)"
  "patch_sc_status (kube storing_env) sc x w = (Inr x, x)"
  by (simp_all add: storing_env_def sample_env_def)

lemma storing_errors: "kube_errors_ok storing_env"
  by (simp add: kube_errors_ok_def foreign_errors_def storing_env_def sample_defs)

text \<open>A call over a cluster that stores \<open>sc\<close>, which publishes the customer.\<close>

lemma storing_run:
  assumes "sc_meta sc = sc_meta owned_sc" and "sc_StripeCustomerID (sc_status sc) = ''cus_1''"
  shows "run_state (getOrCreate storing_env sample_ba) \<lparr>world = sc, trace = []\<rparr> = (Inr sc, \<lparr>world = sc, trace = []\<rparr>)"
    and "fst (run_state (Ensure storing_env (EnsureCustomer accepting_stripe sample_os) sample_ba)
      \<lparr>world = sc, trace = []\<rparr>) = (''cus_1'', None)"
proof -
  show get: "run_state (getOrCreate storing_env sample_ba) \<lparr>world = sc, trace = []\<rparr> =
      (Inr sc, \<lparr>world = sc, trace = []\<rparr>)"
    using assms(1) by (simp add: getOrCreate_def Let_def owned_sc_def sample_defs)
  have details: "run_state (buildCustomerDetails (kube storing_env) sample_ba) s = (Inr growing_details, s)" for s
    by (simp add: buildCustomerDetails_def findDefaultStripePaymentMethodID_def listBoundProjectNames_def
        customerDetailsFromBillingAccount_def empty_details_def storing_env_def sample_defs)
  have call: "run_state (EnsureCustomer accepting_stripe sample_os ''cus_1'' a growing_details) s =
      ((''cus_1'', None), s\<lparr>trace := trace s @ [CustomersUpdate ''cus_1'' (applyCustomerDetails (account_params a)
        growing_details) True]\<rparr>)" for a s
    by (simp add: EnsureCustomer_def with_tax_ids_def reconcileTaxIDs_def existing_tax_ids_def accepting_stripe_def
        customerDetailsFromBillingAccount_def empty_details_def Let_def sample_defs)
  show "fst (run_state (Ensure storing_env (EnsureCustomer accepting_stripe sample_os) sample_ba)
      \<lparr>world = sc, trace = []\<rparr>) = (''cus_1'', None)"
    by (simp add: Ensure_def get known_customer_id_def assms(2) sync_customer_def details call record_synced_def
        patchStatus_def Let_def)
qed

theorem reconciled_account_rests_witness:
  "\<exists>x. SCStatusPatch x True \<in> set (effects (Ensure storing_env (EnsureCustomer accepting_stripe sample_os) sample_ba)
       \<lparr>world = owned_sc, trace = []\<rparr>) \<and>
     list_all (\<lambda>e. \<not> is_sc_effect e) (effects (Ensure storing_env (EnsureCustomer accepting_stripe sample_os) sample_ba)
       \<lparr>world = x, trace = []\<rparr>)"
proof -
  let ?run = "\<lambda>sc. run_state (Ensure storing_env (EnsureCustomer accepting_stripe sample_os) sample_ba)
    \<lparr>world = sc, trace = []\<rparr>"
  let ?es = "\<lambda>sc. effects (Ensure storing_env (EnsureCustomer accepting_stripe sample_os) sample_ba)
    \<lparr>world = sc, trace = []\<rparr>"
  have id: "sc_StripeCustomerID (sc_status owned_sc) = ''cus_1''" by (simp add: owned_sc_def)
  note get = storing_run(1) [OF refl id]
  obtain s' where first: "?run owned_sc = ((''cus_1'', None), s')"
    using storing_run(2) [OF refl id] by (metis prod.collapse)
  obtain sc s1 pre where g: "run_state (getOrCreate storing_env sample_ba) \<lparr>world = owned_sc, trace = []\<rparr> = (Inr sc, s1)"
    and "?es owned_sc = effects (getOrCreate storing_env sample_ba) \<lparr>world = owned_sc, trace = []\<rparr> @ pre @
      synced_writes (lib storing_env) sc ''cus_1'' (tax_error None)" "list_all (\<lambda>e. \<not> is_sc_effect e) pre"
    using stripe_client.Ensure_ends [OF storing_errors first] by auto
  moreover have "\<not> says sample_lib owned_sc ''cus_1'' None" using owned_unsynced by (simp add: says_def owned_env_def sample_env_def)
  ultimately obtain x where x: "SCStatusPatch x True \<in> set (?es owned_sc)" "sc_after owned_sc (?es owned_sc) = x"
    "sc_meta x = sc_meta owned_sc" "sc_StripeCustomerID (sc_status x) = ''cus_1''"
    using get by (auto simp: synced_writes_def tax_error_def sc_after_apart effects_def synced_status_def Let_def)
  obtain t' where second: "?run x = ((''cus_1'', None), t')"
    using storing_run(2) [OF x(3,4)] by (metis prod.collapse)
  have "list_all (\<lambda>e. \<not> is_sc_effect e) (?es x)"
    using reconciled_account_rests [OF storing_errors _ _ eager_runtime_meets get first _ _ _ second, where w = x and addr = 0
        and n = "''''" and r = None and K = sample_kube and u = "st0 ()"] x(2) sample_lib_conditions sample_conditions_settle by simp
  with x(1) show ?thesis by blast
qed

end
