(* ===== verification/Scheme.thy ===== *)
theory Scheme
  imports GoErrors "HOL-Library.Multiset"
begin

text \<open>
  The registration of the API types with the scheme (\<open>api/v1alpha1/groupversion_info.go\<close>, the
  \<open>init\<close> functions beside the types, and that of \<open>cmd/main.go\<close>). The scheme and the builder of
  apimachinery are parameters. \<open>AddToScheme\<close> is a method value, made when the package's variables are
  initialised, before any \<open>init\<close> runs: it is bound to the address of the builder, so the
  types that the \<open>init\<close> functions register afterwards are in it.
\<close>

section \<open>The library\<close>

record group_version =
  gv_Group :: string
  gv_Version :: string

datatype api_type = TypeStripeCustomer | TypeStripeCustomerList | TypeStripePaymentMethod
  | TypeStripePaymentMethodList | TypeStripeProviderConfig | TypeStripeProviderConfigList

record ('s, 'b) runtime_lib =
  EmptyBuilder :: 'b
  BuilderRegister :: "('s \<Rightarrow> go_error option \<times> 's) \<Rightarrow> 'b \<Rightarrow> 'b"
  BuilderAddToScheme :: "'b \<Rightarrow> 's \<Rightarrow> go_error option \<times> 's"
  AddKnownTypes :: "group_version \<Rightarrow> api_type list \<Rightarrow> 's \<Rightarrow> 's"
  AddToGroupVersion :: "group_version \<Rightarrow> 's \<Rightarrow> 's"
  Recognizes :: "'s \<Rightarrow> group_version \<Rightarrow> api_type \<Rightarrow> bool"

text \<open>The builder applies its functions in order up to the first error; a scheme forgets no type.\<close>

definition runtime_ok :: "('s, 'b) runtime_lib \<Rightarrow> bool" where
  "runtime_ok R \<longleftrightarrow>
     (\<forall>s. BuilderAddToScheme R (EmptyBuilder R) s = (None, s)) \<and>
     (\<forall>f b s. BuilderAddToScheme R (BuilderRegister R f b) s =
        (case BuilderAddToScheme R b s of (Some e, t) \<Rightarrow> (Some e, t) | (None, t) \<Rightarrow> f t)) \<and>
     (\<forall>gv ts s gv' t. Recognizes R (AddKnownTypes R gv ts s) gv' t \<longleftrightarrow>
        gv' = gv \<and> t \<in> set ts \<or> Recognizes R s gv' t) \<and>
     (\<forall>gv s gv' t. Recognizes R s gv' t \<longrightarrow> Recognizes R (AddToGroupVersion R gv s) gv' t)"

section \<open>Registrations\<close>

definition GroupVersion :: group_version where
  "GroupVersion = \<lparr>gv_Group = ''stripe.billing.miloapis.com'', gv_Version = ''v1alpha1''\<rparr>"

definition schemeBuilder_Register ::
  "('s, 'b) runtime_lib \<Rightarrow> group_version \<Rightarrow> api_type list \<Rightarrow> 'b \<Rightarrow> 'b" where
  "schemeBuilder_Register R groupVersion objs b = BuilderRegister R (\<lambda>s.
     let s = AddKnownTypes R groupVersion objs s;
         s = AddToGroupVersion R groupVersion s
     in (None, s)) b"

definition init_StripeCustomer :: "api_type list" where
  "init_StripeCustomer = [TypeStripeCustomer, TypeStripeCustomerList]"

definition init_StripePaymentMethod :: "api_type list" where
  "init_StripePaymentMethod = [TypeStripePaymentMethod, TypeStripePaymentMethodList]"

definition init_StripeProviderConfig :: "api_type list" where
  "init_StripeProviderConfig = [TypeStripeProviderConfig, TypeStripeProviderConfigList]"

text \<open>The \<open>init\<close> functions of the package; the language does not fix the order of its files.\<close>

definition package_inits :: "api_type list list" where
  "package_inits = [init_StripeCustomer, init_StripePaymentMethod, init_StripeProviderConfig]"

definition SchemeBuilder :: "('s, 'b) runtime_lib \<Rightarrow> api_type list list \<Rightarrow> 'b" where
  "SchemeBuilder R inits = foldl (\<lambda>b objs. schemeBuilder_Register R GroupVersion objs b) (EmptyBuilder R) inits"

definition AddToScheme :: "('s, 'b) runtime_lib \<Rightarrow> api_type list list \<Rightarrow> 's \<Rightarrow> go_error option \<times> 's" where
  "AddToScheme R inits = BuilderAddToScheme R (SchemeBuilder R inits)"

text \<open>The generated defaults of \<open>internal/config\<close>.\<close>

definition RegisterDefaults :: "'s \<Rightarrow> go_error option \<times> 's" where
  "RegisterDefaults s = (None, s)"

text \<open>\<open>init\<close> of the program: \<open>utilruntime.Must\<close> panics on an error, which is \<open>None\<close> here.\<close>

definition must :: "go_error option \<times> 's \<Rightarrow> 's option" where
  "must r = (case fst r of None \<Rightarrow> Some (snd r) | Some e \<Rightarrow> None)"

definition main_init ::
  "('s, 'b) runtime_lib \<Rightarrow> api_type list list \<Rightarrow> ('s \<Rightarrow> go_error option \<times> 's) \<Rightarrow> ('s \<Rightarrow> go_error option \<times> 's)
    \<Rightarrow> 's \<Rightarrow> 's option" where
  "main_init R inits clientgo billing scheme =
     Option.bind (must (clientgo scheme)) (\<lambda>s. Option.bind (must (billing s)) (\<lambda>s. must (AddToScheme R inits s)))"

section \<open>Facts\<close>

lemma AddToScheme_adds:
  assumes "runtime_ok R"
  shows "fst (AddToScheme R inits s) = None"
    and "t \<in> set (concat inits) \<Longrightarrow> Recognizes R (snd (AddToScheme R inits s)) GroupVersion t"
proof -
  have both: "fst (AddToScheme R inits s) = None \<and>
      (\<forall>t\<in>set (concat inits). Recognizes R (snd (AddToScheme R inits s)) GroupVersion t)"
  proof (induction inits rule: rev_induct)
    case Nil
    then show ?case using assms by (simp add: AddToScheme_def SchemeBuilder_def runtime_ok_def)
  next
    case (snoc objs inits)
    obtain s1 where s1: "AddToScheme R inits s = (None, s1)" using snoc by (metis prod.collapse)
    then have "AddToScheme R (inits @ [objs]) s =
        (None, AddToGroupVersion R GroupVersion (AddKnownTypes R GroupVersion objs s1))"
      using assms by (simp add: AddToScheme_def SchemeBuilder_def schemeBuilder_Register_def runtime_ok_def)
    with snoc s1 show ?case using assms by (auto simp: runtime_ok_def)
  qed
  show "fst (AddToScheme R inits s) = None" using both by blast
  show "t \<in> set (concat inits) \<Longrightarrow> Recognizes R (snd (AddToScheme R inits s)) GroupVersion t" using both by blast
qed

text \<open>
  Whatever the order of the package's \<open>init\<close> functions: the program's \<open>init\<close> panics only when
  one of the other two schemes cannot be added, and otherwise the scheme knows every type and list of the group.
\<close>

lemma scheme_complete:
  assumes "runtime_ok R" and "mset inits = mset package_inits"
    and "fst (clientgo scheme) = None" and "fst (billing (snd (clientgo scheme))) = None"
  shows "\<exists>s. main_init R inits clientgo billing scheme = Some s \<and> (\<forall>t. Recognizes R s GroupVersion t)"
proof -
  have "set inits = set package_inits" using assms(2) by (rule mset_eq_setD)
  then have all: "t \<in> set (concat inits)" for t
    by (cases t) (simp_all add: package_inits_def init_StripeCustomer_def init_StripePaymentMethod_def
        init_StripeProviderConfig_def)
  have "Recognizes R (snd (AddToScheme R inits s)) GroupVersion t" for s t
    by (rule AddToScheme_adds(2) [OF assms(1) all])
  moreover have "main_init R inits clientgo billing scheme =
      Some (snd (AddToScheme R inits (snd (billing (snd (clientgo scheme))))))"
    using assms(3,4) by (simp add: main_init_def must_def AddToScheme_adds(1) [OF assms(1)])
  ultimately show ?thesis by blast
qed

section \<open>Witnesses\<close>

text \<open>A scheme as a list of what was added, a builder as a list of functions.\<close>

definition sample_runtime :: "((group_version \<times> api_type) list, ((group_version \<times> api_type) list \<Rightarrow>
    go_error option \<times> (group_version \<times> api_type) list) list) runtime_lib" where
  "sample_runtime = \<lparr>EmptyBuilder = [], BuilderRegister = (\<lambda>f fs. fs @ [f]),
     BuilderAddToScheme = (\<lambda>fs s. foldl (\<lambda>r f. case r of (Some e, t) \<Rightarrow> (Some e, t) | (None, t) \<Rightarrow> f t) (None, s) fs),
     AddKnownTypes = (\<lambda>gv ts s. map (Pair gv) ts @ s), AddToGroupVersion = (\<lambda>_ s. s),
     Recognizes = (\<lambda>s gv t. (gv, t) \<in> set s)\<rparr>"

lemma scheme_complete_witness:
  "\<exists>s. main_init sample_runtime (rev package_inits) (Pair None) (Pair None) [] = Some s \<and>
     (GroupVersion, TypeStripePaymentMethod) \<in> set s"
proof -
  have "runtime_ok sample_runtime" by (auto simp: runtime_ok_def sample_runtime_def)
  from scheme_complete [OF this, of "rev package_inits" "Pair None" "[]" "Pair None"]
  show ?thesis by (auto simp: sample_runtime_def)
qed

end
