(* ===== verification/Issuance.thy ===== *)
theory Issuance
  imports Lifecycle
begin

text \<open>
  What one reconcile of a StripePaymentMethod (\<open>stripepaymentmethod_controller.go\<close>) costs in Stripe: the
  SetupIntents it creates are paid for by a status that becomes settled, by a status patch that is lost, or
  by a SetupIntent that expired; an event (\<open>internal/webhook/http.go\<close>) settles the status it writes.
  \<open>StaleIssuance\<close> adds this up over the life of a resource.
\<close>

section \<open>Counting\<close>

definition setup_intents :: "effect list \<Rightarrow> nat" where
  "setup_intents es = length (filter (\<lambda>e. \<exists>p. e = SetupIntentsNew p True) es)"

definition lost_statuses :: "effect list \<Rightarrow> nat" where
  "lost_statuses es = length (filter (\<lambda>e. \<exists>y. e = SPMStatusPatch y False) es)"

text \<open>The status that is stored after the writes, when \<open>st\<close> was stored before.\<close>

primrec status_after :: "spm_status \<Rightarrow> effect list \<Rightarrow> spm_status" where
  "status_after st [] = st"
| "status_after st (e # es) = status_after (case e of SPMStatusPatch y ok \<Rightarrow> if ok then spm_status y else st | _ \<Rightarrow> st) es"

text \<open>A SetupIntent that the user can confirm, or a phase that the reconciler does not leave.\<close>

definition usable_setup_intent :: "spm_status \<Rightarrow> bool" where
  "usable_setup_intent st \<longleftrightarrow> (case SetupIntent st of None \<Rightarrow> False | Some si \<Rightarrow> si_ClientSecret si \<noteq> '''')"

definition settled :: "spm_status \<Rightarrow> bool" where
  "settled st \<longleftrightarrow> usable_setup_intent st \<or> Phase st = Active \<or> Phase st = Failed"

text \<open>The clock, read after the resource, is past the expiry of its SetupIntent.\<close>

definition expired_at :: "'w env \<Rightarrow> spm \<Rightarrow> 'w \<Rightarrow> bool" where
  "expired_at E x w \<longleftrightarrow> usable_setup_intent (spm_status x) \<and>
     (case Option.bind (SetupIntent (spm_status x)) si_ExpiresAt of None \<Rightarrow> False | Some t \<Rightarrow> t < fst (clock (os E) w))"

lemma usable_iff: "usable_setup_intent st \<longleftrightarrow> (\<exists>si. SetupIntent st = Some si \<and> si_ClientSecret si \<noteq> '''')"
  by (simp add: usable_setup_intent_def split: option.split)

lemma counts_append [simp]:
  "setup_intents (es @ es') = setup_intents es + setup_intents es'"
  "lost_statuses (es @ es') = lost_statuses es + lost_statuses es'"
  "status_after st (es @ es') = status_after (status_after st es) es'"
  by (simp_all add: setup_intents_def lost_statuses_def) (induction es arbitrary: st, simp_all)

lemma counts_Nil [simp]: "setup_intents [] = 0" "lost_statuses [] = 0"
  by (simp_all add: setup_intents_def lost_statuses_def)

abbreviation aside :: "effect \<Rightarrow> bool" where
  "aside e \<equiv> (\<forall>p. e \<noteq> SetupIntentsNew p True) \<and> (\<forall>y. e \<noteq> SPMStatusPatch y True \<and> e \<noteq> SPMStatusPatch y False)"

lemma aside_counts:
  assumes "list_all aside es"
  shows "setup_intents es = 0" and "lost_statuses es = 0" and "status_after st es = st"
proof -
  show "setup_intents es = 0" "lost_statuses es = 0"
    using assms by (auto simp: setup_intents_def lost_statuses_def list_all_iff filter_empty_conv)
  show "status_after st es = st" using assms
  proof (induction es arbitrary: st)
    case (Cons e es)
    then show ?case by (cases e) simp_all
  qed simp
qed

section \<open>One reconcile\<close>

text \<open>
  What a program may do to a resource with the status \<open>st\<close>: each SetupIntent it creates is paid for, by
  a status that becomes settled, by a lost patch, or out of \<open>n\<close>.
\<close>

definition balanced :: "spm_status \<Rightarrow> nat \<Rightarrow> effect list \<Rightarrow> bool" where
  "balanced st n es \<longleftrightarrow> setup_intents es + of_bool (settled st) \<le> of_bool (settled (status_after st es)) + lost_statuses es + n"

lemma balanced_aside: "list_all aside es \<Longrightarrow> balanced st n es"
  by (simp add: balanced_def aside_counts)

lemma balanced_before: "list_all aside es \<Longrightarrow> balanced st n es' \<Longrightarrow> balanced st n (es @ es')"
  by (simp add: balanced_def aside_counts)

lemma emits_balanced: "emits aside m \<Longrightarrow> balanced st n (effects m s)"
  by (rule balanced_aside [OF emits_effects])

definition secrets_given :: "'w env \<Rightarrow> bool" where
  "secrets_given E \<longleftrightarrow> (\<forall>cfg p w si w'. setup_intents_new (NewClient E cfg) p w = (Inr si, w') \<longrightarrow> ssi_ClientSecret si \<noteq> '''')"

lemma publish_balanced:
  assumes "secrets_given E" and "settled (spm_status x) \<Longrightarrow> 1 \<le> n"
  shows "balanced (spm_status x) n (effects (publishSetupIntent E rc (NewClient E cfg) x c taxErr) s)"
proof (cases "c = ''''")
  case True
  then have "effects (publishSetupIntent E rc (NewClient E cfg) x c taxErr) s = []"
    by (simp add: publishSetupIntent_def CreateSetupIntent_def effects_def)
  then show ?thesis by (simp add: balanced_aside)
next
  case False
  let ?p = "setup_intent_params_for c (Namespace (spm_meta x)) (Name (spm_meta x))"
  obtain r w where r: "setup_intents_new (NewClient E cfg) ?p (world s) = (r, w)" by fastforce
  show ?thesis
  proof (cases r)
    case (Inl e)
    with r False have "effects (publishSetupIntent E rc (NewClient E cfg) x c taxErr) s = [SetupIntentsNew ?p False]"
      by (simp add: publishSetupIntent_def CreateSetupIntent_def effects_def Let_def)
    then show ?thesis by (simp add: balanced_aside)
  next
    case (Inr si)
    obtain now w' where now: "clock (os E) w = (now, w')" by fastforce
    let ?res = "\<lparr>sir_ID = ssi_ID si, sir_ClientSecret = ssi_ClientSecret si, sir_Status = ssi_Status si, sir_ExpiresAt = None\<rparr>"
    let ?y = "x\<lparr>spm_status := awaiting_status E x c ?res (now + setup_intent_ttl rc) taxErr\<rparr>"
    let ?s = "s\<lparr>trace := trace s @ [SetupIntentsNew ?p True], world := w'\<rparr>"
    have "run_state (publishSetupIntent E rc (NewClient E cfg) x c taxErr) s =
        run_state (publish_status E x ?y (setup_intent_ttl rc)) ?s"
      using r Inr False now by (simp add: publishSetupIntent_def CreateSetupIntent_def Let_def)
    moreover obtain ok es where es: "effects (publish_status E x ?y (setup_intent_ttl rc)) ?s = SPMStatusPatch ?y ok # es"
      "list_all (\<lambda>e. \<exists>pm ok. e = PMStatusPatch pm ok) es" using publish_status_effects by blast
    moreover have "trace (snd (run_state (publish_status E x ?y (setup_intent_ttl rc)) ?s)) =
        trace ?s @ effects (publish_status E x ?y (setup_intent_ttl rc)) ?s"
      by (rule emits_trace [OF publish_status_emits])
    ultimately have run: "effects (publishSetupIntent E rc (NewClient E cfg) x c taxErr) s =
        [SetupIntentsNew ?p True, SPMStatusPatch ?y ok] @ es"
      by (intro effects_eqI) simp
    have "list_all aside es" using es(2) by (auto simp: list_all_iff)
    note rest = aside_counts [OF this]
    have "ssi_ClientSecret si \<noteq> ''''" using assms(1) r Inr unfolding secrets_given_def by blast
    then have "settled (spm_status ?y)"
      by (simp add: settled_def usable_setup_intent_def awaiting_status_def Let_def)
    moreover have "setup_intents [SetupIntentsNew ?p True, SPMStatusPatch ?y ok] = 1"
      "lost_statuses [SetupIntentsNew ?p True, SPMStatusPatch ?y ok] = of_bool (\<not> ok)"
      by (simp_all add: setup_intents_def lost_statuses_def)
    ultimately show ?thesis using assms(2)
      unfolding run balanced_def counts_append rest
      by (cases ok; cases "settled (spm_status x)") simp_all
  qed
qed

text \<open>A program whose every run is balanced.\<close>

definition paid :: "spm_status \<Rightarrow> nat \<Rightarrow> ('w, effect, 'a) io \<Rightarrow> bool" where
  "paid st n m \<longleftrightarrow> (\<forall>s. \<exists>es. trace (snd (run_state m s)) = trace s @ es \<and> balanced st n es)"

lemma paidI: "emits P m \<Longrightarrow> (\<And>s. balanced st n (effects m s)) \<Longrightarrow> paid st n m"
  unfolding paid_def using emits_trace by blast

lemma paid_effects:
  assumes "paid st n m"
  shows "balanced st n (effects m s)"
  using assms effects_eqI [of m s] unfolding paid_def by force

lemma paid_aside: "emits aside m \<Longrightarrow> paid st n m"
  by (rule paidI, assumption) (rule emits_balanced)

lemma paid_bind:
  assumes "emits aside m" and "\<And>x. paid st n (k x)"
  shows "paid st n (State_Monad.bind m k)"
  unfolding paid_def
proof
  fix s
  obtain x t where m: "run_state m s = (x, t)" by fastforce
  obtain es' where "trace (snd (run_state (k x) t)) = trace t @ es'" "balanced st n es'"
    using assms(2) unfolding paid_def by blast
  moreover have "trace t = trace s @ effects m s" using emits_trace [OF assms(1), of s] m by simp
  ultimately show "\<exists>es. trace (snd (run_state (State_Monad.bind m k) s)) = trace s @ es \<and> balanced st n es"
    using balanced_before [OF emits_effects [OF assms(1)], of st n es' s] m by (intro exI [of _ "effects m s @ es'"]) simp
qed

lemma paid_sum: "(\<And>e. paid st n (f e)) \<Longrightarrow> (\<And>y. paid st n (g y)) \<Longrightarrow> paid st n (case x of Inl e \<Rightarrow> f e | Inr y \<Rightarrow> g y)"
  by (cases x) simp_all

lemma paid_option: "paid st n f \<Longrightarrow> (\<And>y. paid st n (g y)) \<Longrightarrow> paid st n (case x of None \<Rightarrow> f | Some y \<Rightarrow> g y)"
  by (cases x) simp_all

lemma paid_prod: "(\<And>a b. paid st n (f a b)) \<Longrightarrow> paid st n (case x of (a, b) \<Rightarrow> f a b)"
  by (cases x) simp_all

lemma paid_if: "paid st n f \<Longrightarrow> paid st n g \<Longrightarrow> paid st n (if b then f else g)"
  by simp

lemma paid_ret: "paid st n (ret x)"
  by (rule paid_aside) (rule emits_ret)

lemma publish_paid:
  assumes "secrets_given E" and "settled (spm_status x) \<Longrightarrow> 1 \<le> n"
  shows "paid (spm_status x) n (publishSetupIntent E rc (NewClient E cfg) x c taxErr)"
  by (rule paidI [OF publishSetupIntent_emits]) (rule publish_balanced [OF assms])

lemma issue_paid:
  assumes "secrets_given E" and "settled (spm_status x) \<Longrightarrow> 1 \<le> n"
  shows "paid (spm_status x) n (reconcileSetupIntent E rc x)"
proof -
  have "emits aside (Ensure E (EnsureCustomer S rt) ba)" for S rt ba
    by (rule emits_mono [OF Ensure_emits])
      (auto simp: is_ensure_effect_def is_sc_effect_def creates_customer_def is_tax_effect_def)
  then show ?thesis
    unfolding reconcileSetupIntent_def Let_def
    by (intro paid_bind paid_sum paid_option paid_prod paid_if paid_ret emits_ask ResolveConfig_emits
        publish_paid [OF assms]) simp_all
qed

lemma noted_settled: "noted E x y \<Longrightarrow> settled (spm_status y) \<longleftrightarrow> settled (spm_status x)"
  by (auto simp: noted_def settled_def usable_setup_intent_def)

text \<open>The deletion creates no SetupIntent, and its writes keep what makes a status settled.\<close>

lemma noting_balanced:
  assumes "list_all (status_writes (noted E x)) es" and "setup_intents es = 0"
  shows "balanced (spm_status x) n es"
proof -
  have "settled (status_after st es) \<longleftrightarrow> settled (spm_status x)" if "settled st \<longleftrightarrow> settled (spm_status x)" for st
    using assms(1) that
  proof (induction es arbitrary: st)
    case (Cons e es)
    then have "settled (status_after st [e]) \<longleftrightarrow> settled (spm_status x)"
      using noted_settled [of E x] by (cases e) auto
    with Cons show ?case using counts_append(3) [of st "[e]" es] by simp
  qed simp
  with assms(2) show ?thesis by (simp add: balanced_def)
qed

lemma reconcileDelete_paid: "paid (spm_status x) n (reconcileDelete E rc x)"
proof (rule paidI [OF reconcileDelete_writes])
  fix s
  have "list_all (\<lambda>e. \<forall>p. e \<noteq> SetupIntentsNew p True) (effects (reconcileDelete E rc x) s)"
    using emits_effects [OF reconcileDelete_emits, of E rc x s] by (auto simp: list_all_iff)
  then have "setup_intents (effects (reconcileDelete E rc x) s) = 0"
    by (auto simp: setup_intents_def list_all_iff filter_empty_conv)
  then show "balanced (spm_status x) n (effects (reconcileDelete E rc x) s)"
    using noting_balanced [OF emits_effects [OF reconcileDelete_writes]] by blast
qed

text \<open>What a reconcile does about a SetupIntent that waits: nothing but to wait, or replace it when it expired.\<close>

definition replaces :: "'w env \<Rightarrow> spm_reconciler \<Rightarrow> spm \<Rightarrow> string \<Rightarrow> ('w, result) prog" where
  "replaces E rc x i = do { _ \<leftarrow> cancel_expired E rc i; reconcileSetupIntent E rc x }"

definition waits :: "'w env \<Rightarrow> spm \<Rightarrow> ('w, result) prog" where
  "waits E x = do {
     a \<leftarrow> ensurePaymentMethodAwaiting E x;
     case a of
       Some e \<Rightarrow> ret (Inl e)
     | None \<Rightarrow> do { d \<leftarrow> requeueUntilExpiry E (SetupIntent (spm_status x)); ret (Inr d) }
   }"

definition awaiting :: "lib \<Rightarrow> spm \<Rightarrow> setup_intent_status \<Rightarrow> bool" where
  "awaiting L x si \<longleftrightarrow> DeletionTimestamp (spm_meta x) = None \<and>
     ContainsFinalizer L (spm_meta x) stripePaymentMethodFinalizer \<and>
     \<not> (Phase (spm_status x) = Active \<or> Phase (spm_status x) = Failed) \<and>
     SetupIntent (spm_status x) = Some si \<and> si_ClientSecret si \<noteq> ''''"

lemma expired_replaced:
  assumes "awaiting (lib E) x si" and "expired_at E x (world s)"
  shows "effects (reconcile_spm E rc x) s =
    effects (replaces E rc x (si_ID si)) (s\<lparr>world := snd (clock (os E) (world s))\<rparr>)"
proof -
  obtain now w where clock: "clock (os E) (world s) = (now, w)" by fastforce
  with assms obtain t where "si_ExpiresAt si = Some t" "t < now"
    by (auto simp: awaiting_def expired_at_def split: option.splits)
  with assms(1) clock show ?thesis
    by (simp add: awaiting_def reconcile_spm_def setupIntentExpired_def replaces_def effects_def)
qed

lemma fresh_waits:
  assumes "awaiting (lib E) x si" and "\<not> expired_at E x (world s)"
  obtains s' where "effects (reconcile_spm E rc x) s = effects (waits E x) s'"
proof -
  obtain now w where clock: "clock (os E) (world s) = (now, w)" by fastforce
  with assms obtain s' where "run_state (setupIntentExpired E (Some si)) s = (False, s')" "trace s' = trace s"
    by (cases "si_ExpiresAt si") (auto simp: awaiting_def usable_setup_intent_def expired_at_def setupIntentExpired_def)
  with assms(1) have "effects (reconcile_spm E rc x) s = effects (waits E x) s'"
    by (simp add: awaiting_def reconcile_spm_def waits_def effects_def cong: option.case_cong)
  then show thesis by (rule that)
qed

lemma setup_calls_aside: "emits aside (ensurePaymentMethodAwaiting E x)" "emits aside (cancel_expired E rc i)"
  unfolding cancel_expired_def
  by (intro effect_rules emits_mono [OF CancelSetupIntent_emits] emits_mono [OF ensurePaymentMethodAwaiting_emits]; auto)+

lemma adopt_balanced:
  assumes "secrets_given E" and "awaiting (lib E) x si"
  shows "balanced (spm_status x) (of_bool (expired_at E x (world s))) (effects (reconcile_spm E rc x) s)"
proof (cases "expired_at E x (world s)")
  case True
  have "paid (spm_status x) 1 (replaces E rc x (si_ID si))"
    unfolding replaces_def by (intro paid_bind setup_calls_aside issue_paid [OF assms(1)]) simp
  then show ?thesis using True by (simp add: expired_replaced [OF assms(2)] paid_effects)
next
  case False
  have "paid (spm_status x) 0 (waits E x)"
    unfolding waits_def by (intro paid_bind paid_option paid_ret setup_calls_aside requeueUntilExpiry_emits)
  moreover obtain s' where "effects (reconcile_spm E rc x) s = effects (waits E x) s'"
    by (rule fresh_waits [OF assms(2) False])
  ultimately show ?thesis using False by (simp add: paid_effects)
qed

lemma reconcile_balanced:
  assumes "secrets_given E"
  shows "balanced (spm_status x) (of_bool (expired_at E x (world s))) (effects (reconcile_spm E rc x) s)"
    (is "balanced _ ?n _")
proof -
  let ?deleted = "DeletionTimestamp (spm_meta x) \<noteq> None"
  let ?bare = "\<not> ContainsFinalizer (lib E) (spm_meta x) stripePaymentMethodFinalizer"
  let ?done = "Phase (spm_status x) = Active \<or> Phase (spm_status x) = Failed"
  consider "?deleted" | "\<not> ?deleted" "?bare" | "\<not> ?deleted" "\<not> ?bare" "?done"
    | "\<not> ?deleted" "\<not> ?bare" "\<not> ?done" "usable_setup_intent (spm_status x)"
    | "\<not> ?deleted" "\<not> ?bare" "\<not> ?done" "\<not> usable_setup_intent (spm_status x)"
    by blast
  then show ?thesis
  proof cases
    case 1
    then have "reconcile_spm E rc x = reconcileDelete E rc x" by (simp add: reconcile_spm_def)
    then show ?thesis by (simp add: paid_effects [OF reconcileDelete_paid] del: of_bool_eq_iff)
  next
    case 2
    have "list_all (\<lambda>e. \<exists>y ok. e = SPMUpdate y ok) (effects (reconcile_spm E rc x) s)"
      using unguarded_effects 2 by (auto simp: list_all_iff)
    then show ?thesis by (intro balanced_aside) (auto simp: list_all_iff)
  next
    case 3
    then have "reconcile_spm E rc x = ret (Inr 0)" by (simp add: reconcile_spm_def)
    then show ?thesis by (simp add: effects_def balanced_aside)
  next
    case 4
    then obtain si where "awaiting (lib E) x si" by (auto simp: awaiting_def usable_iff)
    then show ?thesis by (rule adopt_balanced [OF assms])
  next
    case 5
    then have "reconcile_spm E rc x = reconcileSetupIntent E rc x"
      by (auto simp: reconcile_spm_def usable_setup_intent_def split: option.splits)
    moreover have "\<not> settled (spm_status x)" using 5 by (simp add: settled_def)
    ultimately show ?thesis using paid_effects [OF issue_paid [OF assms, of x ?n rc]] by simp
  qed
qed

section \<open>One event\<close>

lemma event_phases: "Phase (success_status L x si pm now) = Active" "Phase (failure_status L x si) = Failed"
  by (simp_all add: success_status_def failure_status_def Let_def split: option.split)

lemma event_settles: "writes E rc wh StripeEvent x y \<Longrightarrow> settled (spm_status y)"
  by (erule writes_cases) (auto simp: settled_def confirmed_def declined_def event_phases)

section \<open>A sample cluster\<close>

text \<open>A cluster that shows one resource, with the account of \<open>owned_env\<close>.\<close>

definition reading :: "spm \<Rightarrow> unit env" where
  "reading x = owned_env\<lparr>kube := (kube owned_env)\<lparr>get_spm := \<lambda>_. answer x\<rparr>\<rparr>"

lemma reading_fields [simp]:
  "lib (reading x) = lib owned_env" "os (reading x) = os owned_env" "NewClient (reading x) cfg = NewClient owned_env cfg"
  "get_spm (kube (reading x)) k w = (Inr x, w)" "get_pm (kube (reading x)) = get_pm (kube owned_env)"
  "get_ba (kube (reading x)) = get_ba (kube owned_env)" "read_sc (kube (reading x)) = read_sc (kube owned_env)"
  "create_sc (kube (reading x)) = create_sc (kube owned_env)" "list_spm (kube (reading x)) = list_spm (kube owned_env)"
  "list_bindings (kube (reading x)) = list_bindings (kube owned_env)" "get_cfg (kube (reading x)) = get_cfg (kube owned_env)"
  "patch_sc_status (kube (reading x)) = patch_sc_status (kube owned_env)"
  "patch_spm_status (kube (reading x)) = patch_spm_status (kube owned_env)"
  "patch_pm_status (kube (reading x)) = patch_pm_status (kube owned_env)"
  by (simp_all add: reading_def NewClient_def answer_def)

lemma reading_Ensure:
  "run_state (Ensure (reading x) f sample_ba) s = run_state (Ensure owned_env f sample_ba) s"
proof -
  have "ba_DefaultPaymentMethodRef sample_ba = None" by (simp add: sample_ba_def)
  then have details: "buildCustomerDetails (kube (reading x)) sample_ba = buildCustomerDetails (kube owned_env) sample_ba"
    by (simp add: buildCustomerDetails_def findDefaultStripePaymentMethodID_def listBoundProjectNames_def)
  have "account_spms (kube (reading x)) a l = account_spms (kube owned_env) a l" for a l
    by (induction l) (simp_all cong: sum.case_cong if_cong)
  then have found: "findExistingCustomerID (kube (reading x)) ns a = findExistingCustomerID (kube owned_env) ns a" for ns a
    by (simp add: findExistingCustomerID_def accountStripePaymentMethods_def cong: sum.case_cong)
  have object: "getOrCreate (reading x) ba = getOrCreate owned_env ba" for ba
    unfolding getOrCreate_def reading_fields by (rule refl)
  have status: "record_synced (reading x) sc c e u = record_synced owned_env sc c e u"
    "record_failure (reading x) sc c e' = record_failure owned_env sc c e'" for sc c e u e'
    unfolding record_synced_def record_failure_def patchStatus_def reading_fields by (rule refl)+
  show ?thesis
    unfolding Ensure_def sync_customer_def known_customer_id_def details found object status by (rule refl)
qed

lemma reading_ResolveConfig: "run_state (ResolveConfig (reading x) n) s = (Inr owned_config, s\<lparr>world := ()\<rparr>)"
  by (simp add: ResolveConfig_def) (simp add: owned_config_def owned_env_def sample_defs)

lemma reading_secrets: "secrets_given (reading x)"
  by (auto simp: secrets_given_def updating_stripe_def answer_def)

text \<open>A SetupIntent that is issued there is published.\<close>

lemma reading_publishes:
  fixes s :: "(unit, effect) st"
  shows "\<exists>y es. effects (publishSetupIntent (reading x) sample_rc updating_stripe x ''cus_1'' None) s =
      [SetupIntentsNew (setup_intent_params_for ''cus_1'' (Namespace (spm_meta x)) (Name (spm_meta x))) True,
       SPMStatusPatch y True] @ es \<and> list_all aside es"
proof -
  let ?pub = "publishSetupIntent (reading x) sample_rc updating_stripe x ''cus_1'' None"
  let ?p = "setup_intent_params_for ''cus_1'' (Namespace (spm_meta x)) (Name (spm_meta x))"
  have patch: "patch_spm_status (kube owned_env) y y' w = (Inr y', w)" for y y' w
    by (simp add: owned_env_def sample_kube_def answer_def)
  obtain si where si: "setup_intents_new updating_stripe p w = (Inr si, w)" for p and w :: unit
    by (simp add: updating_stripe_def answer_def)
  define y where "y = x\<lparr>spm_status := awaiting_status (reading x) x ''cus_1'' \<lparr>sir_ID = ssi_ID si,
    sir_ClientSecret = ssi_ClientSecret si, sir_Status = ssi_Status si, sir_ExpiresAt = None\<rparr>
    (0 + setup_intent_ttl sample_rc) None\<rparr>"
  let ?wait = "do { a \<leftarrow> ensurePaymentMethodAwaiting (reading x) y;
    case a of Some e \<Rightarrow> ret (Inl e) | None \<Rightarrow> ret (Inr (setup_intent_ttl sample_rc)) }"
  let ?s = "s\<lparr>trace := trace s @ [SetupIntentsNew ?p True, SPMStatusPatch y True]\<rparr>"
  have "run_state ?pub s = run_state ?wait ?s"
    by (simp add: publishSetupIntent_def CreateSetupIntent_def publish_status_def Let_def si patch y_def
        cong: option.case_cong)
  moreover have wait: "emits aside ?wait"
    by (intro effect_rules setup_calls_aside)
  then have "trace (snd (run_state ?wait ?s)) = trace ?s @ effects ?wait ?s" by (rule emits_trace)
  ultimately have "effects ?pub s = [SetupIntentsNew ?p True, SPMStatusPatch y True] @ effects ?wait ?s"
    by (intro effects_eqI) simp
  with emits_effects [OF wait] show ?thesis by blast
qed

text \<open>A reconcile that issues a SetupIntent there: one is created, and the patch of the status is stored.\<close>

lemma reading_issues:
  fixes s :: "(unit, effect) st"
  obtains es p y es' where "effects (reconcileSetupIntent (reading x) sample_rc x) s =
      es @ [SetupIntentsNew p True, SPMStatusPatch y True] @ es'"
    and "list_all aside es" and "list_all aside es'"
proof -
  let ?pub = "publishSetupIntent (reading x) sample_rc updating_stripe x ''cus_1'' None"
  obtain s4 es where s4: "run_state (Ensure (reading x) (EnsureCustomer updating_stripe sample_os) sample_ba) s
      = ((''cus_1'', None), s4)" "trace s4 = trace s @ es" "list_all aside es"
    using owned_Ensure_from by (auto simp: reading_Ensure)
  obtain p y es' where pub: "effects ?pub s4 = [SetupIntentsNew p True, SPMStatusPatch y True] @ es'" "list_all aside es'"
    using reading_publishes by blast
  have "run_state (reconcileSetupIntent (reading x) sample_rc x) s = run_state ?pub s4"
    using reconcileSetupIntent_run [of "reading x" x s sample_pm "()" sample_ba "()" sample_rc
        owned_config s "''cus_1''" None s4 None] s4(1)
    by (simp add: reading_ResolveConfig)
  moreover have "trace (snd (run_state ?pub s4)) = trace s4 @ effects ?pub s4"
    by (rule emits_trace [OF publishSetupIntent_emits])
  ultimately have "effects (reconcileSetupIntent (reading x) sample_rc x) s =
      es @ [SetupIntentsNew p True, SPMStatusPatch y True] @ es'"
    unfolding pub(1) by (intro effects_eqI) (simp add: s4(2))
  then show thesis by (rule that [OF _ s4(3) pub(2)])
qed

abbreviation new_resource :: spm where
  "new_resource \<equiv> live_spm empty_spm_status"

end
