(* ===== verification/StaleIssuance.thy ===== *)
theory StaleIssuance
  imports Issuance StaleWrites
begin

text \<open>
  How many SetupIntents a resource costs over its life. Any number of reconciles
  (\<open>stripepaymentmethod_controller.go\<close>) and of events (\<open>internal/webhook/http.go\<close>) touch its status, each
  starting from the status it read, which may be older than the one that is stored when its patches land
  as merge patches. A SetupIntent is created for one that expired, for one whose status patch was lost,
  from an outdated reading, after an event that was recorded from an outdated reading, and once more.
\<close>

section \<open>Where the patches land\<close>

text \<open>The statuses of the API server, the last first, after the patches a program makes against \<open>b\<close>.\<close>

primrec landings :: "merge \<Rightarrow> spm_status \<Rightarrow> spm_status list \<Rightarrow> effect list \<Rightarrow> spm_status list" where
  "landings mg b hs [] = hs"
| "landings mg b hs (e # es) =
     landings mg b (case e of SPMStatusPatch y ok \<Rightarrow> if ok then mg b (spm_status y) (hd hs) # hs else hs | _ \<Rightarrow> hs) es"

text \<open>
  \<open>bill mg E rc wh req hs made lost expired outdated\<close>: the resource was created, any number of reconciles
  and events have happened, and the API server has had the statuses \<open>hs\<close>, the last first. \<open>made\<close>
  SetupIntents have been created for it. Of the reconciles that read the status that was stored when their
  patches landed, \<open>lost\<close> patches of the status failed, and \<open>expired\<close> found the SetupIntent expired;
  \<open>outdated\<close> counts the SetupIntents that were created from an older status and the events that were
  recorded from one.
\<close>

inductive bill ::
  "merge \<Rightarrow> 'w env \<Rightarrow> spm_reconciler \<Rightarrow> webhook \<Rightarrow> object_key \<Rightarrow> spm_status list \<Rightarrow> nat \<Rightarrow> nat \<Rightarrow> nat \<Rightarrow> nat \<Rightarrow> bool"
  for mg E rc wh req where
  created: "bill mg E rc wh req [empty_spm_status] 0 0 0 0"
| reconciled: "bill mg E rc wh req (c # cs) made lost expired outdated \<Longrightarrow>
    get_spm (kube E) req (world s) = (Inr x, w) \<Longrightarrow> spm_status x = c \<Longrightarrow>
    es = effects (Reconcile_StripePaymentMethod E rc req) s \<Longrightarrow>
    bill mg E rc wh req (landings mg c (c # cs) es) (made + setup_intents es) (lost + lost_statuses es)
      (expired + of_bool (expired_at E x w)) outdated"
| reconciled_late: "bill mg E rc wh req (c # cs) made lost expired outdated \<Longrightarrow>
    get_spm (kube E) req (world s) = (Inr x, w) \<Longrightarrow> spm_status x \<in> set cs \<Longrightarrow>
    es = effects (Reconcile_StripePaymentMethod E rc req) s \<Longrightarrow>
    bill mg E rc wh req (landings mg (spm_status x) (c # cs) es) (made + setup_intents es) lost expired
      (outdated + setup_intents es)"
| event: "bill mg E rc wh req (c # cs) made lost expired outdated \<Longrightarrow> writes E rc wh StripeEvent x y \<Longrightarrow>
    spm_status x = c \<Longrightarrow> bill mg E rc wh req (spm_status y # c # cs) made lost expired outdated"
| event_late: "bill mg E rc wh req (c # cs) made lost expired outdated \<Longrightarrow> writes E rc wh StripeEvent x y \<Longrightarrow>
    spm_status x \<in> set cs \<Longrightarrow>
    bill mg E rc wh req (mg (spm_status x) (spm_status y) c # c # cs) made lost expired (outdated + 1)"

section \<open>Facts: what a landing patch keeps\<close>

text \<open>A status of a reconcile: it issues a SetupIntent with its secret, or notes a failed cleanup.\<close>

definition offered :: "'w env \<Rightarrow> spm \<Rightarrow> spm \<Rightarrow> bool" where
  "offered E x y \<longleftrightarrow> noted E x y \<or> issued E x y \<and> usable_setup_intent (spm_status y)"

abbreviation usable_writes :: "effect \<Rightarrow> bool" where
  "usable_writes \<equiv> status_writes (\<lambda>y. usable_setup_intent (spm_status y))"

lemma secrets_givenD:
  "secrets_given E \<Longrightarrow> setup_intents_new (NewClient E cfg) p w = (Inr si, w') \<Longrightarrow> ssi_ClientSecret si \<noteq> ''''"
  unfolding secrets_given_def by blast

lemma publish_usable:
  assumes "secrets_given E"
  shows "emits usable_writes (publishSetupIntent E rc (NewClient E cfg) x c taxErr)"
proof -
  have "emits usable_writes (ensurePaymentMethodAwaiting E z)" for z
    by (rule emits_mono [OF ensurePaymentMethodAwaiting_emits]) auto
  moreover have "emits usable_writes (CreateSetupIntent S c ns n)" for S ns n
    by (rule emits_mono [OF CreateSetupIntent_emits]) auto
  moreover have "sir_ClientSecret si \<noteq> ''''"
    if "run_state (CreateSetupIntent (NewClient E cfg) c ns n) s = (Inr si, s')" for ns n s si s'
    using that unfolding CreateSetupIntent_def
    by (auto simp: Let_def dest: secrets_givenD [OF assms] split: if_splits prod.splits sum.splits)
  ultimately show ?thesis
    unfolding publishSetupIntent_def publish_status_def
    by (intro emits_bind_run effect_rules) (auto simp: usable_iff awaiting_status_def Let_def)
qed

lemma reconcile_usable:
  assumes "secrets_given E"
  shows "emits (status_writes (\<lambda>y. noted E x y \<or> usable_setup_intent (spm_status y))) (reconcile_spm E rc x)"
proof -
  let ?P = "status_writes (\<lambda>y. noted E x y \<or> usable_setup_intent (spm_status y))"
  have "emits usable_writes (Ensure E (EnsureCustomer S rt) ba)" for S rt ba
    by (rule emits_mono [OF Ensure_emits])
      (auto simp: is_ensure_effect_def is_sc_effect_def creates_customer_def is_tax_effect_def)
  then have "emits usable_writes (reconcileSetupIntent E rc x)"
    unfolding reconcileSetupIntent_def Let_def by (intro effect_rules publish_usable [OF assms])
  then have "emits ?P (reconcileSetupIntent E rc x)" by (rule emits_mono) simp
  moreover have "emits ?P (cancel_expired E rc i)" "emits ?P (ensurePaymentMethodAwaiting E x)" for i
    by (rule emits_mono [OF setup_calls_aside(2)] emits_mono [OF setup_calls_aside(1)], metis (full_types))+
  moreover have "emits ?P (reconcileDelete E rc x)" by (rule emits_mono [OF reconcileDelete_writes]) simp
  ultimately show ?thesis unfolding reconcile_spm_def by (intro effect_rules) simp_all
qed

lemma reconcile_offers:
  assumes "secrets_given E" and "SPMStatusPatch y ok \<in> set (effects (reconcile_spm E rc x) s)"
  shows "offered E x y"
  using emitsD [OF reconcile_writes assms(2)] emitsD [OF reconcile_usable [OF assms(1)] assms(2)]
  unfolding offered_def by blast

text \<open>Before the first SetupIntent is issued there is none, and nothing is ever \<open>Initializing\<close>.\<close>

definition begun :: "spm_status \<Rightarrow> bool" where
  "begun st \<longleftrightarrow> Phase st \<noteq> Initializing \<and> (Phase st = PhaseUnset \<longrightarrow> SetupIntent st = None)"

lemma landing_begun:
  assumes "merge_patch_ok mg" and "writes E rc wh a x y" and "reached (spm_status x) c"
    and "begun (spm_status x)" and "begun c"
  shows "begun (mg (spm_status x) (spm_status y) c)"
  using assms(2)
proof (cases rule: writes_cases)
  case issued
  then obtain cu si t taxErr where "spm_status y = awaiting_status E x cu si t taxErr" by (auto simp: issued_def)
  then have "Phase (mg (spm_status x) (spm_status y) c) \<in> {Phase c, AwaitingConfirmation}"
    "Phase (spm_status x) \<noteq> AwaitingConfirmation \<Longrightarrow>
      Phase (mg (spm_status x) (spm_status y) c) = AwaitingConfirmation"
    by (auto simp: merge_fields [OF assms(1)] merged_field_def written_fields)
  with assms(3-5) show ?thesis by (auto simp: begun_def reached_def)
next
  case noted
  with assms(5) show ?thesis
    by (auto simp: noted_def begun_def merge_fields [OF assms(1)] merged_field_def merged_setup_intent_def)
next
  case confirmed
  then have "Phase (spm_status y) = Active" by (auto simp: confirmed_def written_fields)
  with assms(3-5) show ?thesis
    by (auto simp: begun_def reached_def merge_fields(1) [OF assms(1)] merged_field_def)
next
  case declined
  then have "Phase (spm_status y) = Failed" by (auto simp: declined_def written_fields)
  with assms(3-5) show ?thesis
    by (auto simp: begun_def reached_def merge_fields(1) [OF assms(1)] merged_field_def)
qed

lemma history_begun:
  assumes "merge_patch_ok mg" and "history mg E rc wh hs" and "d \<in> set hs"
  shows "begun d"
  using assms(2,3)
proof (induction arbitrary: d rule: history.induct)
  case created
  then show ?case by (simp add: begun_def empty_spm_status_def)
next
  case (lands c cs x a y)
  have "begun (mg (spm_status x) (spm_status y) c)"
    by (rule landing_begun [OF assms(1) lands.hyps(3) history_reached [OF assms(1) lands.hyps(1,2)]
          lands.IH [OF lands.hyps(2)] lands.IH]) simp
  with lands.IH [of d] lands.prems show ?case by auto
qed

lemma issued_over_none:
  assumes "merge_patch_ok mg" and "\<not> usable_setup_intent x" and "usable_setup_intent y"
  shows "usable_setup_intent (mg x y c)"
proof -
  obtain i where i: "SetupIntent y = Some i" "si_ClientSecret i \<noteq> ''''"
    using assms(3) by (auto simp: usable_iff)
  have "si_ClientSecret (case SetupIntent x of None \<Rightarrow> empty_setup_intent | Some j \<Rightarrow> j) = ''''"
    using assms(2) by (auto simp: usable_iff empty_setup_intent_def split: option.split)
  with i assms(2) show ?thesis
    unfolding usable_iff merge_fields(4) [OF assms(1)]
    by (auto simp: merged_setup_intent_def merged_field_def Let_def)
qed

lemma issued_over_usable:
  assumes "merge_patch_ok mg" and "usable_setup_intent y" and "usable_setup_intent c"
  shows "usable_setup_intent (mg x y c)"
  using assms(2,3) unfolding usable_iff merge_fields(4) [OF assms(1)]
  by (auto simp: merged_setup_intent_def merged_field_def Let_def)

lemma landing_keeps_settled:
  assumes "merge_patch_ok mg" and "history mg E rc wh (c # cs)" and "spm_status x \<in> set (c # cs)"
    and "offered E x y" and "settled c"
  shows "settled (mg (spm_status x) (spm_status y) c)"
proof (cases "noted E x y")
  case True
  with assms(5) show ?thesis
    by (auto simp: noted_def settled_def usable_iff merge_fields [OF assms(1)] merged_field_def merged_setup_intent_def)
next
  case False
  with assms(4) have y: "issued E x y" "usable_setup_intent (spm_status y)" by (simp_all add: offered_def)
  from assms(5) consider "usable_setup_intent c" | "Phase c = Active \<or> Phase c = Failed"
    by (auto simp: settled_def)
  then show ?thesis
  proof cases
    case 1
    then show ?thesis using issued_over_usable [OF assms(1) y(2)] by (simp add: settled_def)
  next
    case 2
    have terminal: "Phase (spm_status x) \<noteq> Active" "Phase (spm_status x) \<noteq> Failed"
      using y(1) by (simp_all add: issued_def)
    show ?thesis
    proof (cases "Phase (spm_status x)")
      case PhaseUnset
      then have "\<not> usable_setup_intent (spm_status x)"
        using history_begun [OF assms(1-3)] by (simp add: begun_def usable_setup_intent_def)
      then show ?thesis using issued_over_none [OF assms(1) _ y(2)] by (simp add: settled_def)
    next
      case AwaitingConfirmation
      with y(1) 2 show ?thesis
        by (auto simp: settled_def issued_def written_fields merge_fields [OF assms(1)] merged_field_def)
    qed (use terminal history_begun [OF assms(1-3)] in \<open>simp_all add: begun_def\<close>)
  qed
qed

lemma landing_settles:
  assumes "merge_patch_ok mg" and "offered E x y" and "\<not> settled (spm_status x)" and "settled (spm_status y)"
  shows "settled (mg (spm_status x) (spm_status y) c)"
proof -
  have "issued E x y" "usable_setup_intent (spm_status y)"
    using assms noted_settled by (auto simp: offered_def)
  then show ?thesis using issued_over_none [OF assms(1)] assms(3) by (simp add: settled_def)
qed

section \<open>Facts: a whole reconcile\<close>

definition lands_from :: "'w env \<Rightarrow> spm_reconciler \<Rightarrow> webhook \<Rightarrow> spm \<Rightarrow> effect list \<Rightarrow> bool" where
  "lands_from E rc wh x es \<longleftrightarrow>
     (\<forall>y. SPMStatusPatch y True \<in> set es \<longrightarrow> writes E rc wh Reconciler x y \<and> offered E x y)"

lemma reconcile_lands:
  assumes "secrets_given E" and "get_spm (kube E) req (world s) = (Inr x, w)"
  shows "lands_from E rc wh x (effects (Reconcile_StripePaymentMethod E rc req) s)"
  using writes.reconcile [OF assms(2)] reconcile_offers [OF assms(1)]
  unfolding lands_from_def by (auto simp: Reconcile_read [OF assms(2)])

lemma landings_history:
  assumes "merge_patch_ok mg" and "history mg E rc wh (c # cs)" and "spm_status x \<in> set (c # cs)"
    and "lands_from E rc wh x es"
  obtains d ds where "landings mg (spm_status x) (c # cs) es = d # ds" and "history mg E rc wh (d # ds)"
    and "settled c \<Longrightarrow> settled d"
  using assms(2-4)
proof (induction es arbitrary: c cs thesis)
  case Nil
  then show ?case by simp
next
  case (Cons e es)
  then have es: "lands_from E rc wh x es" by (simp add: lands_from_def)
  show ?case
  proof (cases "\<exists>y. e = SPMStatusPatch y True")
    case True
    then obtain y where e: "e = SPMStatusPatch y True" by blast
    with Cons.prems(4) have y: "writes E rc wh Reconciler x y" "offered E x y"
      by (simp_all add: lands_from_def)
    let ?z = "mg (spm_status x) (spm_status y) c"
    have "settled c \<Longrightarrow> settled ?z" by (rule landing_keeps_settled [OF assms(1) Cons.prems(2,3) y(2)])
    moreover have "history mg E rc wh (?z # c # cs)" by (rule history.lands [OF Cons.prems(2,3) y(1)])
    ultimately show ?thesis
      using Cons.IH [of ?z "c # cs"] Cons.prems(1,3) es by (auto simp: e)
  next
    case False
    then have "landings mg (spm_status x) (c # cs) (e # es) = landings mg (spm_status x) (c # cs) es"
      by (cases e) auto
    with Cons.IH [OF _ Cons.prems(2,3) es] Cons.prems(1) show ?thesis by metis
  qed
qed

text \<open>Patches that would settle a status where they started also settle the one where they land.\<close>

lemma landings_settle:
  assumes "merge_patch_ok mg" and "\<not> settled (spm_status x)" and "lands_from E rc wh x es"
    and "settled st \<Longrightarrow> settled (hd hs)" and "settled (status_after st es)"
  shows "settled (hd (landings mg (spm_status x) hs es))"
  using assms(3-5)
proof (induction es arbitrary: st hs)
  case (Cons e es)
  then have es: "lands_from E rc wh x es" by (simp add: lands_from_def)
  show ?case
  proof (cases "\<exists>y. e = SPMStatusPatch y True")
    case True
    then obtain y where e: "e = SPMStatusPatch y True" by blast
    with Cons.prems(1) have "offered E x y" by (simp add: lands_from_def)
    then have "settled (spm_status y) \<Longrightarrow> settled (mg (spm_status x) (spm_status y) (hd hs))"
      by (rule landing_settles [OF assms(1) _ assms(2)])
    with Cons.IH [OF es, of "spm_status y"] Cons.prems(3) show ?thesis by (simp add: e)
  next
    case False
    then have "landings mg (spm_status x) hs (e # es) = landings mg (spm_status x) hs es"
      "status_after st (e # es) = status_after st es" by (cases e; auto)+
    with Cons.IH [OF es Cons.prems(2)] Cons.prems(3) show ?thesis by simp
  qed
qed simp

text \<open>A reconcile of the stored status pays for its SetupIntents also with what lands.\<close>

lemma reconcile_lands_balanced:
  assumes "merge_patch_ok mg" and "secrets_given E" and "history mg E rc wh (spm_status x # cs)"
    and "get_spm (kube E) req (world s) = (Inr x, w)"
    and "es = effects (Reconcile_StripePaymentMethod E rc req) s"
  obtains d ds where "landings mg (spm_status x) (spm_status x # cs) es = d # ds" and "history mg E rc wh (d # ds)"
    and "setup_intents es + of_bool (settled (spm_status x)) \<le>
      of_bool (settled d) + lost_statuses es + of_bool (expired_at E x w)"
proof -
  let ?st = "spm_status x"
  have from_x: "lands_from E rc wh x es" unfolding assms(5) by (rule reconcile_lands [OF assms(2,4)])
  have "?st \<in> set (?st # cs)" by simp
  then obtain d ds where d: "landings mg ?st (?st # cs) es = d # ds" "history mg E rc wh (d # ds)"
    "settled ?st \<Longrightarrow> settled d"
    using landings_history [OF assms(1,3) _ from_x] by metis
  have "settled d" if "settled (status_after ?st es)"
    using d(1,3) landings_settle [OF assms(1) _ from_x _ that, of "?st # cs"] by (cases "settled ?st") simp_all
  moreover have "balanced ?st (of_bool (expired_at E x w)) es"
    using reconcile_balanced [OF assms(2), of x "s\<lparr>world := w\<rparr>" rc] by (simp add: assms(5) Reconcile_read [OF assms(4)])
  ultimately have "setup_intents es + of_bool (settled ?st) \<le>
      of_bool (settled d) + lost_statuses es + of_bool (expired_at E x w)"
    unfolding balanced_def by (cases "settled (status_after ?st es)"; cases "settled d") simp_all
  with d that show thesis by blast
qed

lemma bill_settled:
  assumes "merge_patch_ok mg" and "secrets_given E" and "bill mg E rc wh req hs made lost expired outdated"
  obtains c cs where "hs = c # cs" and "history mg E rc wh (c # cs)"
    and "made \<le> of_bool (settled c) + lost + expired + outdated"
  using assms(3)
proof (induction arbitrary: thesis rule: bill.induct)
  case created
  then show ?case using history.created by blast
next
  case (reconciled c cs made lost expired outdated s x w es)
  obtain "history mg E rc wh (c # cs)" "made \<le> of_bool (settled c) + lost + expired + outdated"
    by (rule reconciled.IH) simp
  with reconciled.hyps(3) obtain d ds where
    "landings mg c (c # cs) es = d # ds" "history mg E rc wh (d # ds)"
    "setup_intents es + of_bool (settled c) \<le> of_bool (settled d) + lost_statuses es + of_bool (expired_at E x w)"
    using reconcile_lands_balanced [OF assms(1,2) _ reconciled.hyps(2,4)] by metis
  with \<open>made \<le> _\<close> reconciled.prems show ?case by simp
next
  case (reconciled_late c cs made lost expired outdated s x w es)
  obtain hist: "history mg E rc wh (c # cs)" and le: "made \<le> of_bool (settled c) + lost + expired + outdated"
    by (rule reconciled_late.IH) simp
  have "lands_from E rc wh x es"
    unfolding reconciled_late.hyps(4) by (rule reconcile_lands [OF assms(2) reconciled_late.hyps(2)])
  then obtain d ds where d: "landings mg (spm_status x) (c # cs) es = d # ds" "history mg E rc wh (d # ds)"
    "settled c \<Longrightarrow> settled d"
    using landings_history [OF assms(1) hist] reconciled_late.hyps(3) by (metis list.set_intros(2))
  then have "made + setup_intents es \<le> of_bool (settled d) + lost + expired + (outdated + setup_intents es)"
    using le by (cases "settled c") simp_all
  with d reconciled_late.prems show ?case by blast
next
  case (event c cs made lost expired outdated x y)
  obtain hist: "history mg E rc wh (c # cs)" and le: "made \<le> of_bool (settled c) + lost + expired + outdated"
    by (rule event.IH) simp
  have "history mg E rc wh (spm_status y # c # cs)"
    using history.lands [OF hist _ event.hyps(2)] event.hyps(3) by (simp add: merge_fields(11) [OF assms(1)])
  moreover have "made \<le> of_bool (settled (spm_status y)) + lost + expired + outdated"
    using le event_settles [OF event.hyps(2)] by (cases "settled c") simp_all
  ultimately show ?case using event.prems by blast
next
  case (event_late c cs made lost expired outdated x y)
  obtain hist: "history mg E rc wh (c # cs)" and le: "made \<le> of_bool (settled c) + lost + expired + outdated"
    by (rule event_late.IH) simp
  have "history mg E rc wh (mg (spm_status x) (spm_status y) c # c # cs)"
    using history.lands [OF hist _ event_late.hyps(2)] event_late.hyps(3) by simp
  moreover have "made \<le> of_bool (settled (mg (spm_status x) (spm_status y) c)) + lost + expired + (outdated + 1)"
    using le by (cases "settled c") simp_all
  ultimately show ?case using event_late.prems by blast
qed

section \<open>Properties\<close>

text \<open>
  C7 (bounds): what a resource costs in Stripe: however often it is reconciled, whatever events arrive in
  between, and however old what each of them read, a SetupIntent is created for it once, and beyond that
  only in place of one that expired or whose status patch was lost, from an outdated reading, or after an
  event that was recorded from one. While neither a SetupIntent nor an outcome is recorded, not even that one.
\<close>

theorem setup_intents_bounded:
  assumes "merge_patch_ok mg" and "secrets_given E" and "bill mg E rc wh req hs made lost expired outdated"
  shows "made \<le> lost + expired + outdated + 1 \<and> (\<not> settled (hd hs) \<longrightarrow> made \<le> lost + expired + outdated)"
proof -
  obtain c cs where "hs = c # cs" "made \<le> of_bool (settled c) + lost + expired + outdated"
    by (rule bill_settled [OF assms])
  then show ?thesis by (cases "settled c") simp_all
qed

section \<open>Witnesses\<close>

text \<open>A new resource: the reconcile creates a SetupIntent and its status patch is stored.\<close>

lemma new_reconcile:
  fixes s :: "(unit, effect) st"
  obtains es p y es' where
    "effects (Reconcile_StripePaymentMethod (reading new_resource) sample_rc (''org'', ''card-1'')) (st0 ()) =
      es @ [SetupIntentsNew p True, SPMStatusPatch y True] @ es'"
    and "list_all aside es" and "list_all aside es'"
proof -
  let ?E = "reading new_resource"
  obtain es p y es' where run: "effects (reconcileSetupIntent ?E sample_rc new_resource) (st0 ()) =
      es @ [SetupIntentsNew p True, SPMStatusPatch y True] @ es'" and aside: "list_all aside es" "list_all aside es'"
    by (rule reading_issues)
  have "reconcile_spm ?E sample_rc new_resource = reconcileSetupIntent ?E sample_rc new_resource"
    by (simp add: reconcile_spm_def) (simp add: empty_spm_status_def)
  then have "effects (Reconcile_StripePaymentMethod ?E sample_rc (''org'', ''card-1'')) (st0 ()) =
      es @ [SetupIntentsNew p True, SPMStatusPatch y True] @ es'"
    using Reconcile_read [of ?E "(''org'', ''card-1'')" "st0 ()" new_resource "()" sample_rc] run by simp
  then show thesis by (rule that [OF _ aside])
qed

lemma landings_aside: "list_all aside es \<Longrightarrow> landings mg b hs (es @ es') = landings mg b hs es'"
proof (induction es)
  case (Cons e es)
  then show ?case by (cases e) auto
qed simp

text \<open>
  Two reconciles of a new resource, the second from a cache that does not show the first one's patch: two
  SetupIntents, one of them outdated, and the bound is met exactly.
\<close>

theorem setup_intents_bounded_witness:
  "\<exists>hs. bill merge_by_field (reading new_resource) sample_rc sample_wh (''org'', ''card-1'') hs 2 0 0 1 \<and>
     (2 :: nat) \<le> 0 + 0 + 1 + 1"
proof -
  let ?E = "reading new_resource"
  let ?bill = "bill merge_by_field ?E sample_rc sample_wh (''org'', ''card-1'')"
  let ?es = "effects (Reconcile_StripePaymentMethod ?E sample_rc (''org'', ''card-1'')) (st0 ())"
  obtain es p y es' where es: "?es = es @ [SetupIntentsNew p True, SPMStatusPatch y True] @ es'"
    and aside: "list_all aside es" "list_all aside es'" by (rule new_reconcile)
  have made: "setup_intents ?es = 1" "lost_statuses ?es = 0"
    unfolding es counts_append aside_counts [OF aside(1)] aside_counts [OF aside(2)]
    by (simp_all add: setup_intents_def lost_statuses_def)
  have land: "landings merge_by_field b (c # cs) ?es = merge_by_field b (spm_status y) c # c # cs" for b c cs
    using landings_aside [OF aside(2), of merge_by_field b _ "[]"]
    unfolding es landings_aside [OF aside(1)] by simp
  have read: "get_spm (kube ?E) (''org'', ''card-1'') (world (st0 ())) = (Inr new_resource, ())" by simp
  have fresh: "\<not> expired_at ?E new_resource ()"
    by (simp add: expired_at_def usable_setup_intent_def) (simp add: empty_spm_status_def)
  have "?bill (landings merge_by_field empty_spm_status [empty_spm_status] ?es) (0 + setup_intents ?es)
      (0 + lost_statuses ?es) (0 + of_bool (expired_at ?E new_resource ())) 0"
    by (rule bill.reconciled [OF bill.created read _ refl]) simp
  then have first: "?bill [merge_by_field empty_spm_status (spm_status y) empty_spm_status, empty_spm_status] 1 0 0 0"
    by (simp add: land made fresh)
  have "?bill (landings merge_by_field (spm_status new_resource)
      [merge_by_field empty_spm_status (spm_status y) empty_spm_status, empty_spm_status] ?es)
      (1 + setup_intents ?es) 0 0 (0 + setup_intents ?es)"
    by (rule bill.reconciled_late [OF first read _ refl]) simp
  then obtain hs where "?bill hs 2 0 0 1"
    unfolding land made by (auto simp: numeral_2_eq_2)
  with setup_intents_bounded [OF merge_by_field_ok reading_secrets this] show ?thesis by auto
qed

end
