(* ===== verification/Renewal.thy ===== *)
theory Renewal
  imports Issuance
begin

text \<open>
  A SetupIntent that expires, across the two programs that see it: the reconciler
  (\<open>stripepaymentmethod_controller.go\<close>) cancels it and publishes its successor, and the webhook
  (\<open>internal/webhook/http.go\<close>) then receives the event of that cancellation, which Stripe stamps with
  the metadata of the resource. And what a reconcile ends with, so that a resource that waits is looked at
  again.
\<close>

section \<open>The replacement\<close>

definition resolves :: "'w env \<Rightarrow> string \<Rightarrow> bool" where
  "resolves E n \<longleftrightarrow> (\<forall>s. \<exists>cfg. fst (run_state (ResolveConfig E n) s) = Inr cfg)"

lemma cancel_expired_effects:
  assumes "resolves E (ProviderConfigName rc)" and "i \<noteq> ''''"
  shows "\<exists>r. effects (cancel_expired E rc i) s = [SetupIntentsCancel i r]"
proof -
  obtain cfg s1 where cfg: "run_state (ResolveConfig E (ProviderConfigName rc)) s = (Inr cfg, s1)"
    using assms(1) unfolding resolves_def by (metis prod.collapse)
  have "trace s1 = trace s" by (rule silent [OF ResolveConfig_emits cfg])
  moreover obtain r w where "setup_intents_cancel (NewClient E cfg) i (world s1) = (r, w)" by fastforce
  ultimately have "effects (cancel_expired E rc i) s = [SetupIntentsCancel i (failure r)]"
    using assms(2) cfg by (intro effects_eqI) (simp add: cancel_expired_def CancelSetupIntent_def split: sum.split)
  then show ?thesis by blast
qed

lemma replaces_effects:
  "\<exists>t. effects (replaces E rc x i) s = effects (cancel_expired E rc i) s @ effects (reconcileSetupIntent E rc x) t"
  unfolding replaces_def by (intro exI, rule effects_bind [OF setup_calls_aside(2) reconcileSetupIntent_stamped])

text \<open>What a reconcile does that finds the SetupIntent expired and publishes a status.\<close>

lemma renewal_effects:
  assumes "awaiting (lib E) x old" and "si_ID old \<noteq> ''''" and "expired_at E x (world s)"
    and "resolves E (ProviderConfigName rc)"
    and "SPMStatusPatch y ok \<in> set (effects (reconcile_spm E rc x) s)"
  shows "\<exists>r es. effects (reconcile_spm E rc x) s = SetupIntentsCancel (si_ID old) r # es"
    and "issued E x y"
proof -
  let ?s = "s\<lparr>world := snd (clock (os E) (world s))\<rparr>"
  obtain r where r: "effects (cancel_expired E rc (si_ID old)) ?s = [SetupIntentsCancel (si_ID old) r]"
    using cancel_expired_effects [OF assms(4,2)] by blast
  obtain t where t: "effects (reconcile_spm E rc x) s =
      SetupIntentsCancel (si_ID old) r # effects (reconcileSetupIntent E rc x) t"
    using expired_replaced [OF assms(1,3), of rc] replaces_effects [of E rc x "si_ID old" ?s] r by auto
  then show "\<exists>r es. effects (reconcile_spm E rc x) s = SetupIntentsCancel (si_ID old) r # es" by blast
  have "Phase (spm_status x) \<noteq> Active" "Phase (spm_status x) \<noteq> Failed" using assms(1) by (auto simp: awaiting_def)
  from emitsD [OF reconcileSetupIntent_writes [OF this]] assms(5) show "issued E x y"
    unfolding t by fastforce
qed

section \<open>The event of the cancellation\<close>

lemma cancellation_effects:
  assumes "ev_Type ev = ''setup_intent.canceled''" and "decodeSetupIntent (os W) ev = Inr si"
    and "sp_Metadata si = sip_Metadata (setup_intent_params_for c ns n)" and "ns \<noteq> ''''" and "n \<noteq> ''''"
    and "get_spm (kube W) (ns, n) (world t) = (Inr y, w)"
  shows "\<exists>ok es. effects (dispatch W wh ev) t = SPMStatusPatch (y\<lparr>spm_status := failure_status (lib W) y si\<rparr>) ok # es"
proof -
  have "metadata_value si ''stripe_payment_method_namespace'' = ns"
    "metadata_value si ''stripe_payment_method_name'' = n"
    using assms(3) by (simp_all add: metadata_value_def setup_intent_params_for_def)
  then have "effects (dispatch W wh ev) t = effects (record_setup_failure W wh y si) (t\<lparr>world := w\<rparr>)"
    using assms by (simp add: dispatch_def handleSetupIntentFailed_def with_resource_def
        findStripePaymentMethod_def effects_def split: prod.split)
  then show ?thesis using record_setup_failure_effects [of W wh y si "t\<lparr>world := w\<rparr>"] by auto
qed

lemma terminal_reconcile_idle:
  assumes "Phase (spm_status x) = Failed" and "DeletionTimestamp (spm_meta x) = None"
    and "ContainsFinalizer (lib E) (spm_meta x) stripePaymentMethodFinalizer"
  shows "effects (reconcile_spm E rc x) s = []"
  using assms by (simp add: reconcile_spm_def effects_def)

section \<open>Nothing that waits is forgotten\<close>

text \<open>A reconcile that neither fails, so that it is retried, nor asks to be called again after some time.\<close>

definition lets_go :: "result \<Rightarrow> bool" where
  "lets_go r \<longleftrightarrow> (\<exists>d. r = Inr d \<and> d \<le> 0)"

text \<open>
  Why the issuing of a SetupIntent, begun in the state \<open>t\<close>, is given up: the parent is gone, or the namespace
  is being deleted, which \<open>Ensure\<close> found out for the account of the parent.
\<close>

definition gives_up :: "'w env \<Rightarrow> spm_reconciler \<Rightarrow> spm \<Rightarrow> ('w, effect) st \<Rightarrow> bool" where
  "gives_up E rc x t \<longleftrightarrow>
     (case get_pm (kube E) (Namespace (spm_meta x), spm_PaymentMethodRef x) (world t) of
        (Inl e, _) \<Rightarrow> IsNotFound e
      | (Inr pm, w) \<Rightarrow>
          (case get_ba (kube E) (Namespace (pm_meta pm), pm_BillingAccountRef pm) w of
             (Inl _, _) \<Rightarrow> False
           | (Inr ba, w) \<Rightarrow>
               (case run_state (ResolveConfig E (ProviderConfigName rc)) (t\<lparr>world := w\<rparr>) of
                  (Inl _, _) \<Rightarrow> False
                | (Inr cfg, t) \<Rightarrow>
                    (case run_state (Ensure E (EnsureCustomer (NewClient E cfg) (os E)) ba) t of
                       ((_, None), _) \<Rightarrow> False
                     | ((_, Some e), _) \<Rightarrow> Is_NamespaceTerminating e))))"

text \<open>The state in which a reconcile starts to issue, when it does.\<close>

definition issuing_state :: "'w env \<Rightarrow> spm_reconciler \<Rightarrow> spm \<Rightarrow> ('w, effect) st \<Rightarrow> ('w, effect) st" where
  "issuing_state E rc x s =
     (case SetupIntent (spm_status x) of
        None \<Rightarrow> s
      | Some si \<Rightarrow>
          if si_ClientSecret si = '''' then s
          else snd (run_state (do { _ \<leftarrow> setupIntentExpired E (Some si); cancel_expired E rc (si_ID si) }) s))"

lemma publish_requeues: "answers (\<lambda>r. \<not> lets_go r) (publishSetupIntent E rc S x c taxErr)"
  unfolding publishSetupIntent_def publish_status_def
  by (intro answer_rules) (simp_all add: lets_go_def setup_intent_ttl_def defaultSetupIntentTTL_def second_def)

lemma waiting_requeues: "answers (\<lambda>d. 0 < d) (requeueUntilExpiry E si)"
  unfolding requeueUntilExpiry_def
  by (intro answer_rules) (simp_all add: defaultSetupIntentTTL_def second_def)

lemma issue_lets_go:
  assumes "run_state (reconcileSetupIntent E rc x) t = (r, t')" and "lets_go r"
  shows "gives_up E rc x t"
proof -
  let ?key = "(Namespace (spm_meta x), spm_PaymentMethodRef x)"
  obtain p w1 where p: "get_pm (kube E) ?key (world t) = (p, w1)" by fastforce
  show ?thesis
  proof (cases p)
    case (Inl e)
    with p assms show ?thesis
      by (simp add: reconcileSetupIntent_def Let_def gives_up_def lets_go_def split: if_splits)
  next
    case (Inr pm)
    obtain b w2 where b: "get_ba (kube E) (Namespace (pm_meta pm), pm_BillingAccountRef pm) w1 = (b, w2)" by fastforce
    show ?thesis
    proof (cases b)
      case (Inl e)
      with p b Inr assms show ?thesis by (auto simp: reconcileSetupIntent_def Let_def lets_go_def)
    next
      case ba: (Inr ba)
      obtain g t3 where g: "run_state (ResolveConfig E (ProviderConfigName rc)) (t\<lparr>world := w2\<rparr>) = (g, t3)" by fastforce
      show ?thesis
      proof (cases g)
        case (Inl e)
        with p b g Inr ba assms show ?thesis by (auto simp: reconcileSetupIntent_def Let_def lets_go_def)
      next
        case cfg: (Inr cfg)
        obtain c err t4 where c: "run_state (Ensure E (EnsureCustomer (NewClient E cfg) (os E)) ba) t3 = ((c, err), t4)"
          by (metis prod.collapse)
        note runs = p b g c Inr ba cfg
        have publish: "\<not> lets_go r" if "run_state (publishSetupIntent E rc (NewClient E cfg) x c u) t4 = (r, t')" for u
          using answersD [OF publish_requeues that] by simp
        show ?thesis
        proof (cases err)
          case None
          with runs assms publish show ?thesis by (auto simp: reconcileSetupIntent_def Let_def)
        next
          case (Some e)
          with runs assms publish show ?thesis
            by (auto simp: reconcileSetupIntent_def Let_def gives_up_def lets_go_def split: if_splits option.splits)
        qed
      qed
    qed
  qed
qed

section \<open>Properties\<close>

text \<open>
  C21 (functional): what becomes of a card whose SetupIntent expires, across both programs. The reconcile
  that replaces the SetupIntent first asks Stripe to cancel the old one, and publishes the resource as
  awaiting the confirmation of the new one. When the event of that cancellation arrives, with the metadata
  that the old SetupIntent was stamped with, the webhook's first call patches the resource that waits on the
  new SetupIntent to Failed, under the ID of the old one; and no reconcile that reads the resource so, while
  it is not being deleted, does anything about it.
\<close>

theorem renewal_fails_itself:
  fixes E :: "'w env"
  assumes "get_spm (kube E) req (world s) = (Inr x, w)"
    and "awaiting (lib E) x old" and "si_ID old \<noteq> ''''" and "expired_at E x w"
    and "resolves E (ProviderConfigName rc)"
    and "SPMStatusPatch y True \<in> set (effects (Reconcile_StripePaymentMethod E rc req) s)"
    and "ev_Type ev = ''setup_intent.canceled''" and "decodeSetupIntent (os W) ev = Inr si" and "sp_ID si = si_ID old"
    and "sp_Metadata si = sip_Metadata (setup_intent_params_for c (Namespace (spm_meta x)) (Name (spm_meta x)))"
    and "Namespace (spm_meta x) \<noteq> ''''" and "Name (spm_meta x) \<noteq> ''''"
    and "get_spm (kube W) (key_of (spm_meta x)) (world t) = (Inr y, w')"
  shows "\<exists>r es z ok es'.
    effects (Reconcile_StripePaymentMethod E rc req) s = SetupIntentsCancel (si_ID old) r # es \<and>
    Phase (spm_status y) = AwaitingConfirmation \<and>
    effects (dispatch W wh ev) t = SPMStatusPatch z ok # es' \<and> spm_meta z = spm_meta y \<and>
    Phase (spm_status z) = Failed \<and> map_option si_ID (SetupIntent (spm_status z)) = Some (si_ID old) \<and>
    (\<forall>(F :: 'w env) rc' u. DeletionTimestamp (spm_meta z) = None \<longrightarrow>
       ContainsFinalizer (lib F) (spm_meta z) stripePaymentMethodFinalizer \<longrightarrow>
       effects (reconcile_spm F rc' z) u = [])"
proof -
  let ?z = "y\<lparr>spm_status := failure_status (lib W) y si\<rparr>"
  note read = Reconcile_read [OF assms(1)]
  have expired: "expired_at E x (world (s\<lparr>world := w\<rparr>))" using assms(4) by simp
  note renewal = renewal_effects [OF assms(2,3) expired assms(5) assms(6) [unfolded read]]
  obtain r es where "effects (Reconcile_StripePaymentMethod E rc req) s = SetupIntentsCancel (si_ID old) r # es"
    using renewal(1) unfolding read by blast
  moreover have "Phase (spm_status y) = AwaitingConfirmation"
    using renewal(2) by (auto simp: issued_def awaiting_status_def Let_def)
  moreover obtain ok es' where "effects (dispatch W wh ev) t = SPMStatusPatch ?z ok # es'"
    using cancellation_effects [OF assms(7,8,10-12) assms(13) [unfolded key_of_def]] by blast
  moreover have "Phase (spm_status ?z) = Failed" by (simp add: event_phases)
  moreover have "map_option si_ID (SetupIntent (spm_status ?z)) = Some (si_ID old)"
    using assms(9) by (simp add: failure_status_def Let_def split: option.split)
  ultimately show ?thesis using terminal_reconcile_idle [of ?z]
    by (intro exI [of _ r] exI [of _ es] exI [of _ ?z] exI [of _ ok] exI [of _ es'] conjI allI impI) simp_all
qed

text \<open>
  C29 (liveness): a resource that waits for its user is not forgotten: a reconcile of a live resource that is
  neither Active nor Failed ends with an error, for which it is retried, or asks to be called again after a
  positive time, unless it only adds the finalizer, which is a change of the resource that wakes the
  reconciler by itself, or it finds, when it issues a SetupIntent, that the parent is gone or that the
  namespace is being deleted, and the resource with it.
\<close>

theorem waiting_resource_requeued:
  assumes "DeletionTimestamp (spm_meta x) = None" and "Phase (spm_status x) \<noteq> Active" and "Phase (spm_status x) \<noteq> Failed"
    and "run_state (reconcile_spm E rc x) s = (r, s')"
  shows "(\<exists>e. r = Inl e) \<or> (\<exists>d. r = Inr d \<and> 0 < d) \<or>
    effects (reconcile_spm E rc x) s = [SPMUpdate (add_finalizer (lib E) x) True] \<or>
    gives_up E rc x (issuing_state E rc x s)"
proof (cases "ContainsFinalizer (lib E) (spm_meta x) stripePaymentMethodFinalizer")
  case False
  with assms show ?thesis
    by (auto simp: reconcile_spm_def Let_def effects_def split: prod.splits sum.splits)
next
  case True
  have issued: "\<not> lets_go r \<or> gives_up E rc x t" if "run_state (reconcileSetupIntent E rc x) t = (r, s')" for t
    using issue_lets_go [OF that] by blast
  have "\<not> lets_go r \<or> gives_up E rc x (issuing_state E rc x s)"
  proof (cases "\<exists>si. SetupIntent (spm_status x) = Some si \<and> si_ClientSecret si \<noteq> ''''")
    case False
    with True assms have "run_state (reconcileSetupIntent E rc x) s = (r, s')" "issuing_state E rc x s = s"
      by (auto simp: reconcile_spm_def issuing_state_def split: option.splits)
    with issued show ?thesis by metis
  next
    case secret: True
    then obtain si where si: "SetupIntent (spm_status x) = Some si" "si_ClientSecret si \<noteq> ''''" by blast
    obtain expired s1 where e: "run_state (setupIntentExpired E (Some si)) s = (expired, s1)" by fastforce
    show ?thesis
    proof (cases expired)
      case True
      obtain u s2 where "run_state (cancel_expired E rc (si_ID si)) s1 = (u, s2)" by (rule prod.exhaust)
      with True si e \<open>ContainsFinalizer _ _ _\<close> assms have "run_state (reconcileSetupIntent E rc x) s2 = (r, s')"
        "issuing_state E rc x s = s2"
        by (simp_all add: reconcile_spm_def issuing_state_def)
      with issued show ?thesis by metis
    next
      case False
      have wait: "answers (\<lambda>r. \<not> lets_go r) (do { d \<leftarrow> requeueUntilExpiry E (Some si); ret (Inr d) })"
        by (intro answers_bind answers_ret) (auto dest: answersD [OF waiting_requeues] simp: lets_go_def)
      have "answers (\<lambda>r. \<not> lets_go r) (waits E x)"
        unfolding waits_def si(1)
        by (rule answers_bind, rule answers_option, rule wait, rule answers_ret) (simp add: lets_go_def)
      moreover have "run_state (waits E x) s1 = (r, s')"
        unfolding waits_def si(1)
        using False si e \<open>ContainsFinalizer _ _ _\<close> assms by (simp add: reconcile_spm_def)
      ultimately show ?thesis using answersD by metis
    qed
  qed
  then show ?thesis by (cases r) (auto simp: lets_go_def not_less)
qed

section \<open>Witnesses\<close>

lemma reading_resolves: "resolves (reading x) n"
  by (simp add: resolves_def reading_ResolveConfig)

definition old_setup_intent :: setup_intent_status where
  "old_setup_intent = \<lparr>si_ID = ''seti_0'', si_ClientSecret = ''secret_0'', si_Status = ''requires_payment_method'',
     si_ExpiresAt = Some (- 1)\<rparr>"

definition overdue :: spm where
  "overdue = live_spm (empty_spm_status\<lparr>Phase := AwaitingConfirmation, SetupIntent := Some old_setup_intent\<rparr>)"

definition canceled_payload :: setup_intent_payload where
  "canceled_payload = sample_payload\<lparr>sp_ID := ''seti_0'', sp_Status := ''canceled'',
     sp_Metadata := sip_Metadata (setup_intent_params_for ''cus_1'' ''org'' ''card-1'')\<rparr>"

definition canceled_event :: stripe_event where
  "canceled_event = sample_event\<lparr>ev_Type := ''setup_intent.canceled''\<rparr>"

lemma overdue_awaiting:
  "awaiting (lib (reading overdue)) overdue old_setup_intent" "expired_at (reading overdue) overdue w"
  "spm_meta overdue = spm_meta (live_spm st)"
  by (auto simp: awaiting_def expired_at_def usable_setup_intent_def overdue_def old_setup_intent_def live_spm_def
      sample_lib_def stripePaymentMethodFinalizer_def new_object_meta_def)

theorem renewal_fails_itself_witness:
  "\<exists>y z ok es. SPMStatusPatch y True \<in> set (effects (Reconcile_StripePaymentMethod (reading overdue) sample_rc
       (''org'', ''card-1'')) (st0 ())) \<and> Phase (spm_status y) = AwaitingConfirmation \<and>
     effects (dispatch (event_env canceled_payload y) sample_wh canceled_event) (st0 ()) = SPMStatusPatch z ok # es \<and>
     Phase (spm_status z) = Failed"
proof -
  let ?E = "reading overdue"
  let ?es = "effects (Reconcile_StripePaymentMethod ?E sample_rc (''org'', ''card-1'')) (st0 ())"
  have "effects (reconcile_spm ?E sample_rc overdue) (st0 ()) = effects (replaces ?E sample_rc overdue ''seti_0'') (st0 ())"
    using expired_replaced [OF overdue_awaiting(1,2), of sample_rc "st0 ()"] by (simp add: old_setup_intent_def)
  moreover obtain t where "effects (replaces ?E sample_rc overdue ''seti_0'') (st0 ()) =
      effects (cancel_expired ?E sample_rc ''seti_0'') (st0 ()) @ effects (reconcileSetupIntent ?E sample_rc overdue) t"
    using replaces_effects by blast
  moreover obtain es p y es' where "effects (reconcileSetupIntent ?E sample_rc overdue) t =
      es @ [SetupIntentsNew p True, SPMStatusPatch y True] @ es'" by (rule reading_issues)
  moreover have "get_spm (kube ?E) (''org'', ''card-1'') (world (st0 ())) = (Inr overdue, ())" by simp
  ultimately have y: "SPMStatusPatch y True \<in> set ?es"
    using Reconcile_read [of ?E "(''org'', ''card-1'')" "st0 ()" overdue "()" sample_rc] by simp
  let ?W = "event_env canceled_payload y"
  have names: "Namespace (spm_meta overdue) = ''org''" "Name (spm_meta overdue) = ''card-1''"
    by (simp_all add: overdue_def live_spm_def new_object_meta_def)
  have event: "ev_Type canceled_event = ''setup_intent.canceled''" "sp_ID canceled_payload = si_ID old_setup_intent"
    "decodeSetupIntent (os ?W) canceled_event = Inr canceled_payload" "si_ID old_setup_intent \<noteq> ''''"
    "get_spm (kube ?W) (key_of (spm_meta overdue)) (world (st0 ())) = (Inr y, ())"
    by (simp_all add: canceled_event_def canceled_payload_def old_setup_intent_def decodeSetupIntent_def
        event_env_def sample_event_def answer_def)
  have "sp_Metadata canceled_payload = sip_Metadata (setup_intent_params_for ''cus_1''
      (Namespace (spm_meta overdue)) (Name (spm_meta overdue)))"
    by (simp add: canceled_payload_def names)
  from renewal_fails_itself [OF _ overdue_awaiting(1) event(4) overdue_awaiting(2) reading_resolves y event(1,3,2)
      this _ _ event(5), of "()" sample_wh] names y show ?thesis by auto
qed

text \<open>A fresh SetupIntent with a hundred nanoseconds left.\<close>

theorem waiting_resource_requeued_witness:
  "\<exists>r s'. run_state (reconcile_spm (spm_env (live_spm fresh_status)) sample_rc (live_spm fresh_status)) (st0 ()) = (r, s') \<and>
     r = Inr 100 \<and> (\<exists>d. r = Inr d \<and> 0 < d)"
proof -
  let ?x = "live_spm fresh_status" and ?E = "spm_env (live_spm fresh_status)"
  obtain r s' where run: "run_state (reconcile_spm ?E sample_rc ?x) (st0 ()) = (r, s')" by (rule prod.exhaust)
  have "fst (run_state (reconcile_spm ?E sample_rc ?x) (st0 ())) = Inr 100"
    by (simp add: reconcile_spm_def fresh_status_def empty_spm_status_def setupIntentExpired_def
        ensurePaymentMethodAwaiting_def requeueUntilExpiry_def Let_def sample_pm_def spm_env_def sample_env_def
        sample_kube_def answer_def sample_os_def)
  then have r: "r = Inr 100" using run by simp
  have "Phase (spm_status ?x) \<noteq> Active" "Phase (spm_status ?x) \<noteq> Failed"
    by (simp_all add: fresh_status_def)
  with waiting_resource_requeued [OF _ _ _ run] run r show ?thesis by auto
qed

end
