(* ===== verification/ParentWrites.thy ===== *)
theory ParentWrites
  imports Renewal StaleWrites
begin

text \<open>
  The status of the parent \<open>PaymentMethod\<close>, which the reconciler
  (\<open>ensurePaymentMethodAwaiting\<close> in \<open>stripepaymentmethod_controller.go\<close>) and the webhook
  (\<open>projectOntoPaymentMethod\<close> and \<open>projectFailureOntoPaymentMethod\<close> in \<open>internal/webhook/http.go\<close>) patch
  without excluding each other, as they do the status of the child: here are all interleavings of their
  patches of one parent, with reads as old as one likes, in the way of \<open>StaleWrites\<close>.
\<close>

section \<open>The writes\<close>

text \<open>The three functions that patch a parent, each with the parent that it read.\<close>

definition parent_key :: "spm \<Rightarrow> object_key" where
  "parent_key x = (Namespace (spm_meta x), spm_PaymentMethodRef x)"

inductive parent_writes ::
  "'w env \<Rightarrow> webhook \<Rightarrow> object_key \<Rightarrow> writer \<Rightarrow> payment_method \<Rightarrow> payment_method \<Rightarrow> bool" for E wh k where
  awaits: "parent_key x = k \<Longrightarrow> get_pm (kube E) k (world s) = (Inr p, w) \<Longrightarrow>
    PMStatusPatch q True \<in> set (effects (ensurePaymentMethodAwaiting E x) s) \<Longrightarrow>
    parent_writes E wh k Reconciler p q"
| succeeds: "parent_key x = k \<Longrightarrow> get_pm (kube E) k (world s) = (Inr p, w) \<Longrightarrow>
    PMStatusPatch q True \<in> set (effects (projectOntoPaymentMethod E wh x d) s) \<Longrightarrow>
    parent_writes E wh k StripeEvent p q"
| fails: "parent_key x = k \<Longrightarrow> get_pm (kube E) k (world s) = (Inr p, w) \<Longrightarrow>
    PMStatusPatch q True \<in> set (effects (projectFailureOntoPaymentMethod E wh x si) s) \<Longrightarrow>
    parent_writes E wh k StripeEvent p q"

section \<open>Merge patches of a parent\<close>

type_synonym parent_merge = "payment_method \<Rightarrow> payment_method \<Rightarrow> payment_method \<Rightarrow> payment_method"

text \<open>The details are merged field by field; of these only that they are there is said.\<close>

definition parent_merge_ok :: "parent_merge \<Rightarrow> bool" where
  "parent_merge_ok mg \<longleftrightarrow> (\<forall>x y c.
     pm_Phase (mg x y c) = merged_field (pm_Phase x) (pm_Phase y) (pm_Phase c) \<and>
     pm_FailureReason (mg x y c) = merged_field (pm_FailureReason x) (pm_FailureReason y) (pm_FailureReason c) \<and>
     pm_FailureMessage (mg x y c) = merged_field (pm_FailureMessage x) (pm_FailureMessage y) (pm_FailureMessage c) \<and>
     pm_Conditions (mg x y c) = merged_field (pm_Conditions x) (pm_Conditions y) (pm_Conditions c) \<and>
     (pm_Details x = pm_Details y \<longrightarrow> pm_Details (mg x y c) = pm_Details c) \<and>
     (pm_Details x \<noteq> pm_Details y \<and> pm_Details y \<noteq> None \<longrightarrow> pm_Details (mg x y c) \<noteq> None))"

lemma parent_merge_fields:
  assumes "parent_merge_ok mg"
  shows "pm_Phase (mg x y c) = merged_field (pm_Phase x) (pm_Phase y) (pm_Phase c)"
    and "pm_FailureReason (mg x y c) = merged_field (pm_FailureReason x) (pm_FailureReason y) (pm_FailureReason c)"
    and "pm_FailureMessage (mg x y c) = merged_field (pm_FailureMessage x) (pm_FailureMessage y) (pm_FailureMessage c)"
    and "pm_Conditions (mg x y c) = merged_field (pm_Conditions x) (pm_Conditions y) (pm_Conditions c)"
    and "pm_Details x = pm_Details y \<Longrightarrow> pm_Details (mg x y c) = pm_Details c"
    and "pm_Details x \<noteq> pm_Details y \<Longrightarrow> pm_Details y \<noteq> None \<Longrightarrow> pm_Details (mg x y c) \<noteq> None"
  using assms unfolding parent_merge_ok_def by blast+

text \<open>The parents the API server has had, the last first, from one that somebody else created.\<close>

inductive parent_history :: "parent_merge \<Rightarrow> 'w env \<Rightarrow> webhook \<Rightarrow> object_key \<Rightarrow> payment_method list \<Rightarrow> bool"
  for mg E wh k where
  found: "parent_history mg E wh k [p]"
| lands: "parent_history mg E wh k (c # cs) \<Longrightarrow> p \<in> set (c # cs) \<Longrightarrow> parent_writes E wh k a p q \<Longrightarrow>
    parent_history mg E wh k (mg p q c # c # cs)"

section \<open>Facts: what is written\<close>

definition taken_up :: "payment_method \<Rightarrow> bool" where
  "taken_up p \<longleftrightarrow> pm_Phase p = PMAwaitingConfirmation \<or> pm_Phase p = PMActive \<or> pm_Phase p = PMFailed"

definition awaiting_pm :: "lib \<Rightarrow> payment_method \<Rightarrow> payment_method" where
  "awaiting_pm L p = p\<lparr>pm_Phase := PMAwaitingConfirmation, pm_Conditions := SetStatusCondition L (pm_Conditions p)
     (awaiting_condition L (Generation (pm_meta p)))\<rparr>"

lemma parent_writes_cases:
  assumes "parent_writes E wh k a p q"
  obtains (awaiting) "a = Reconciler" "\<not> taken_up p" "q = awaiting_pm (lib E) p"
  | (active) d where "a = StripeEvent" "q = active_pm (lib E) p d"
  | (failed) si where "a = StripeEvent" "q = failed_pm (lib E) p si"
  using assms
proof (cases rule: parent_writes.cases)
  case (awaits x s w)
  then have "\<not> taken_up p" "q = awaiting_pm (lib E) p"
    by (auto simp: ensurePaymentMethodAwaiting_def parent_key_def effects_def taken_up_def awaiting_pm_def Let_def
        split: if_splits prod.splits sum.splits)
  with awaits(1) show thesis by (rule awaiting)
next
  case (succeeds x s w d)
  then have "q = active_pm (lib E) p d"
    by (auto simp: projectOntoPaymentMethod_def get_parent_def parent_key_def recordPaymentMethodEvent_def effects_def Let_def
        split: if_splits prod.splits sum.splits)
  with succeeds(1) show thesis by (rule active)
next
  case (fails x s w si)
  then have "q = failed_pm (lib E) p si"
    by (auto simp: projectFailureOntoPaymentMethod_def get_parent_def parent_key_def recordPaymentMethodEvent_def effects_def Let_def
        split: if_splits prod.splits sum.splits)
  with fails(1) show thesis by (rule failed)
qed

section \<open>Facts: who writes\<close>

text \<open>Every patch of a parent comes from one of the three functions.\<close>

lemma emits_own: "emits Q m \<Longrightarrow> (\<And>e s. e \<in> set (effects m s) \<Longrightarrow> R e) \<Longrightarrow> emits R m"
  using emits_trace [of Q m] by (intro emitsI) (auto simp: list_all_iff)

abbreviation pm_writes :: "(effect \<Rightarrow> bool) \<Rightarrow> effect \<Rightarrow> bool" where
  "pm_writes R e \<equiv> (\<forall>q ok. e = PMStatusPatch q ok \<longrightarrow> R e)"

lemma reconcile_parent_patches:
  assumes "PMStatusPatch q ok \<in> set (effects (Reconcile_StripePaymentMethod E rc req) s)"
  shows "\<exists>x t. PMStatusPatch q ok \<in> set (effects (ensurePaymentMethodAwaiting E x) t)"
proof -
  let ?R = "\<lambda>e. \<exists>x t. e \<in> set (effects (ensurePaymentMethodAwaiting E x) t)"
  have own: "emits (pm_writes ?R) (ensurePaymentMethodAwaiting E x)" for x
    by (rule emits_own [OF ensurePaymentMethodAwaiting_emits]) blast
  have "emits (pm_writes ?R) (Ensure E (EnsureCustomer S rt) ba)" for S rt ba
    by (rule emits_mono [OF Ensure_emits])
      (auto simp: is_ensure_effect_def is_sc_effect_def creates_customer_def is_tax_effect_def)
  moreover have "emits (pm_writes ?R) (publishSetupIntent E rc S x c taxErr)" for S x c taxErr
    unfolding publishSetupIntent_def publish_status_def
    by (intro effect_rules own emits_mono [OF CreateSetupIntent_emits]) auto
  ultimately have "emits (pm_writes ?R) (reconcileSetupIntent E rc x)" for x
    unfolding reconcileSetupIntent_def by (intro effect_rules)
  moreover have "emits (pm_writes ?R) (reconcileDelete E rc x)" for x
    by (rule emits_mono [OF reconcileDelete_emits]) auto
  moreover have "emits (pm_writes ?R) (cancel_expired E rc i)" for i
    unfolding cancel_expired_def by (intro effect_rules emits_mono [OF CancelSetupIntent_emits]; auto)
  ultimately have "emits (pm_writes ?R) (reconcile_spm E rc x)" for x
    unfolding reconcile_spm_def by (intro effect_rules own) simp_all
  then have "emits (pm_writes ?R) (Reconcile_StripePaymentMethod E rc req)"
    unfolding Reconcile_StripePaymentMethod_def by (intro effect_rules)
  from emitsD [OF this assms] show ?thesis by blast
qed

lemma dispatch_parent_patches:
  assumes "PMStatusPatch q ok \<in> set (effects (dispatch E wh ev) s)"
  shows "(\<exists>x d t. PMStatusPatch q ok \<in> set (effects (projectOntoPaymentMethod E wh x d) t)) \<or>
    (\<exists>x si t. PMStatusPatch q ok \<in> set (effects (projectFailureOntoPaymentMethod E wh x si) t))"
proof -
  let ?R = "\<lambda>e. (\<exists>x d t. e \<in> set (effects (projectOntoPaymentMethod E wh x d) t)) \<or>
    (\<exists>x si t. e \<in> set (effects (projectFailureOntoPaymentMethod E wh x si) t))"
  have "emits (pm_writes ?R) (projectOntoPaymentMethod E wh x d)"
    "emits (pm_writes ?R) (projectFailureOntoPaymentMethod E wh x si)" for x d si
    by (rule emits_own [OF projectOnto_emits] emits_own [OF projectFailure_emits]; blast)+
  then have "emits (pm_writes ?R) (record_success E wh x si d)" "emits (pm_writes ?R) (record_setup_failure E wh x si)" for x si d
    unfolding record_success_def record_setup_failure_def patchStripeSuccess_def patchStripeFailure_def
    by (intro effect_rules; simp)+
  moreover have "emits (pm_writes ?R) (RetrievePaymentMethod S i)" for S i
    unfolding RetrievePaymentMethod_def by (intro effect_rules)
  moreover have "emits (pm_writes ?R) (BackfillCustomerName S c n)" for S c n
    by (rule emits_mono [OF BackfillCustomerName_emits]) auto
  ultimately have "emits (pm_writes ?R) (dispatch E wh ev)"
    unfolding dispatch_def handleSetupIntentSucceeded_def handleSetupIntentFailed_def with_resource_def confirm_with_stripe_def
    by (intro effect_rules)
  from emitsD [OF this assms] show ?thesis by blast
qed

section \<open>Facts: what a stale write keeps\<close>

definition parent_kept :: "payment_method \<Rightarrow> payment_method \<Rightarrow> bool" where
  "parent_kept d c \<longleftrightarrow> (taken_up d \<longrightarrow> taken_up c) \<and> (pm_Details d \<noteq> None \<longrightarrow> pm_Details c \<noteq> None) \<and>
     (pm_FailureReason d \<noteq> '''' \<longrightarrow> pm_FailureReason c \<noteq> '''') \<and>
     (pm_FailureMessage d \<noteq> '''' \<longrightarrow> pm_FailureMessage c \<noteq> '''')"

lemma awaiting_pm_fields:
  "pm_Phase (awaiting_pm L p) = PMAwaitingConfirmation" "pm_Details (awaiting_pm L p) = pm_Details p"
  "pm_FailureReason (awaiting_pm L p) = pm_FailureReason p"
  "pm_FailureMessage (awaiting_pm L p) = pm_FailureMessage p"
  by (simp_all add: awaiting_pm_def)

lemma active_pm_keeps:
  "pm_Phase (active_pm L p d) = PMActive" "pm_FailureReason (active_pm L p d) = pm_FailureReason p"
  "pm_FailureMessage (active_pm L p d) = pm_FailureMessage p"
  "pm_Details (active_pm L p d) = pm_Details p \<or> pm_Details (active_pm L p d) \<noteq> None"
  by (simp_all add: active_pm_def Let_def)

lemma failed_pm_keeps:
  "pm_Phase (failed_pm L p si) = PMFailed" "pm_Details (failed_pm L p si) = pm_Details p"
  "pm_FailureReason (failed_pm L p si) = pm_FailureReason p \<or> pm_FailureReason (failed_pm L p si) \<noteq> ''''"
  "pm_FailureMessage (failed_pm L p si) = pm_FailureMessage p \<or> pm_FailureMessage (failed_pm L p si) \<noteq> ''''"
  by (simp_all add: failed_pm_def Let_def split: option.split)

lemma parent_write_kept:
  assumes "parent_merge_ok mg" and "parent_writes E wh k a p q"
  shows "parent_kept c (mg p q c)"
proof -
  have kept: "parent_kept c (mg p q c)"
    if "pm_Phase q \<in> {PMAwaitingConfirmation, PMActive, PMFailed}" "pm_Details q = pm_Details p \<or> pm_Details q \<noteq> None"
      "pm_FailureReason q = pm_FailureReason p \<or> pm_FailureReason q \<noteq> ''''"
      "pm_FailureMessage q = pm_FailureMessage p \<or> pm_FailureMessage q \<noteq> ''''"
  proof -
    have "pm_Details c \<noteq> None \<Longrightarrow> pm_Details (mg p q c) \<noteq> None"
      using that(2) parent_merge_fields(5,6) [OF assms(1), of p q c] by metis
    then show ?thesis
      unfolding parent_kept_def taken_up_def parent_merge_fields(1-3) [OF assms(1)] merged_field_def
      using that(1,3,4) by auto
  qed
  from assms(2) show ?thesis
  proof (cases rule: parent_writes_cases)
    case awaiting
    then show ?thesis by (intro kept) (simp_all add: awaiting_pm_fields)
  next
    case (active d)
    then show ?thesis using active_pm_keeps(4) by (intro kept) (simp_all add: active_pm_keeps(1-3))
  next
    case (failed si)
    then show ?thesis using failed_pm_keeps(3,4) by (intro kept) (simp_all add: failed_pm_keeps(1,2))
  qed
qed

lemma parent_kept_trans: "parent_kept d c \<Longrightarrow> parent_kept c z \<Longrightarrow> parent_kept d z"
  by (auto simp: parent_kept_def)

lemma parent_kept_refl: "parent_kept c c"
  by (simp add: parent_kept_def)

lemma history_parent_kept:
  assumes "parent_merge_ok mg" and "parent_history mg E wh k hs" and "d \<in> set hs"
  shows "parent_kept d (hd hs)"
  using assms(2,3)
proof (induction rule: parent_history.induct)
  case (lands c cs p a q)
  with parent_write_kept [OF assms(1) lands.hyps(3), of c] parent_kept_refl parent_kept_trans show ?case by fastforce
qed (simp add: parent_kept_refl)

section \<open>Properties\<close>

text \<open>
  C30 (invariant): in every interleaving of the patches of a parent PaymentMethod, however old what they
  started from, a parent that the provider has taken up stays so, and card details, a failure reason and
  a failure message are never lost; and a parent that is Active or Failed goes back to
  AwaitingConfirmation only when the reconciler decided on a reading from before the parent was taken up.
\<close>

theorem parent_survives_stale_writes:
  assumes "parent_merge_ok mg" and "parent_history mg E wh k (c # b # bs)"
  shows "(\<forall>d \<in> set (b # bs). (taken_up d \<longrightarrow> taken_up c) \<and> (pm_Details d \<noteq> None \<longrightarrow> pm_Details c \<noteq> None) \<and>
      (pm_FailureReason d \<noteq> '''' \<longrightarrow> pm_FailureReason c \<noteq> '''') \<and>
      (pm_FailureMessage d \<noteq> '''' \<longrightarrow> pm_FailureMessage c \<noteq> '''')) \<and>
    (pm_Phase b \<in> {PMActive, PMFailed} \<and> pm_Phase c = PMAwaitingConfirmation \<longrightarrow> (\<exists>p \<in> set bs. \<not> taken_up p))"
proof
  have "parent_kept d c" if "d \<in> set (b # bs)" for d
    using history_parent_kept [OF assms, of d] that by simp
  then show "\<forall>d \<in> set (b # bs). (taken_up d \<longrightarrow> taken_up c) \<and> (pm_Details d \<noteq> None \<longrightarrow> pm_Details c \<noteq> None) \<and>
      (pm_FailureReason d \<noteq> '''' \<longrightarrow> pm_FailureReason c \<noteq> '''') \<and>
      (pm_FailureMessage d \<noteq> '''' \<longrightarrow> pm_FailureMessage c \<noteq> '''')"
    unfolding parent_kept_def by blast
next
  from assms(2) obtain p a q where p: "p \<in> set (b # bs)" "parent_writes E wh k a p q" "c = mg p q b"
    by (cases rule: parent_history.cases) auto
  show "pm_Phase b \<in> {PMActive, PMFailed} \<and> pm_Phase c = PMAwaitingConfirmation \<longrightarrow> (\<exists>p \<in> set bs. \<not> taken_up p)"
    using p(2)
  proof (cases rule: parent_writes_cases)
    case awaiting
    with p(1) show ?thesis by (auto simp: taken_up_def)
  qed (auto simp: p(3) parent_merge_fields(1) [OF assms(1)] merged_field_def active_pm_keeps failed_pm_keeps)
qed

text \<open>
  That way back is open, and there is no way forward again: the reconciler that read the parent before it
  was taken up demotes an Active parent, while the child is Active, for which the reconciler does nothing
  more.
\<close>

lemma stale_reading_demotes:
  assumes "parent_merge_ok mg" and "parent_writes E wh k Reconciler p q" and "pm_Phase c = PMActive"
    and "Phase (spm_status x) = Active" and "DeletionTimestamp (spm_meta x) = None"
    and "ContainsFinalizer (lib E) (spm_meta x) stripePaymentMethodFinalizer"
  shows "pm_Phase (mg p q c) = PMAwaitingConfirmation" and "pm_Details (mg p q c) = pm_Details c"
    and "effects (reconcile_spm E rc x) s = []"
proof -
  from assms(2) have q: "\<not> taken_up p" "q = awaiting_pm (lib E) p" by (cases rule: parent_writes_cases; simp)+
  then show "pm_Phase (mg p q c) = PMAwaitingConfirmation" "pm_Details (mg p q c) = pm_Details c"
    by (auto simp: parent_merge_fields [OF assms(1)] merged_field_def awaiting_pm_fields taken_up_def)
  show "effects (reconcile_spm E rc x) s = []" using assms(4-6) by (simp add: reconcile_spm_def effects_def)
qed

section \<open>Witnesses\<close>

definition parent_by_field :: parent_merge where
  "parent_by_field x y c = c\<lparr>pm_Phase := merged_field (pm_Phase x) (pm_Phase y) (pm_Phase c),
     pm_Details := merged_field (pm_Details x) (pm_Details y) (pm_Details c),
     pm_FailureReason := merged_field (pm_FailureReason x) (pm_FailureReason y) (pm_FailureReason c),
     pm_FailureMessage := merged_field (pm_FailureMessage x) (pm_FailureMessage y) (pm_FailureMessage c),
     pm_Conditions := merged_field (pm_Conditions x) (pm_Conditions y) (pm_Conditions c)\<rparr>"

lemma parent_by_field_ok: "parent_merge_ok parent_by_field"
  by (simp add: parent_merge_ok_def parent_by_field_def merged_field_def)

text \<open>A parent that is confirmed while the reconciler is about to record that it waits.\<close>

theorem parent_survives_stale_writes_witness:
  "\<exists>c b. parent_history parent_by_field owned_env sample_wh (''org'', ''card-1'') [c, b, sample_pm] \<and>
     pm_Phase b = PMActive \<and> pm_Phase c = PMAwaitingConfirmation \<and> taken_up c \<and> \<not> taken_up sample_pm"
proof -
  let ?x = "live_spm empty_spm_status" and ?k = "(''org'', ''card-1'')"
  have key: "parent_key ?x = ?k" by (simp add: parent_key_def live_spm_def new_object_meta_def sample_spm_def)
  have read: "get_pm (kube owned_env) ?k (world (st0 ())) = (Inr sample_pm, ())" by simp
  let ?b = "parent_by_field sample_pm (active_pm sample_lib sample_pm sample_pmd) sample_pm"
  have "PMStatusPatch (active_pm sample_lib sample_pm sample_pmd) True
      \<in> set (effects (projectOntoPaymentMethod owned_env sample_wh ?x sample_pmd) (st0 ()))"
    using sample_projection [of ?x "st0 ()"] by force
  then have "parent_writes owned_env sample_wh ?k StripeEvent sample_pm (active_pm sample_lib sample_pm sample_pmd)"
    by (rule parent_writes.succeeds [OF key read])
  then have b: "parent_history parent_by_field owned_env sample_wh ?k [?b, sample_pm]"
    by (intro parent_history.lands [OF parent_history.found]) simp
  obtain q where "PMStatusPatch q True \<in> set (effects (ensurePaymentMethodAwaiting owned_env ?x) (st0 ()))"
    by (simp add: ensurePaymentMethodAwaiting_def effects_def Let_def sample_pm_def)
  then have q: "parent_writes owned_env sample_wh ?k Reconciler sample_pm q"
    by (rule parent_writes.awaits [OF key read])
  then have new: "\<not> taken_up sample_pm" by (cases rule: parent_writes_cases) simp_all
  let ?c = "parent_by_field sample_pm q ?b"
  have c: "parent_history parent_by_field owned_env sample_wh ?k [?c, ?b, sample_pm]"
    by (rule parent_history.lands [OF b _ q]) simp
  have phase: "pm_Phase ?b = PMActive"
    using new by (simp add: parent_merge_fields [OF parent_by_field_ok] merged_field_def active_pm_keeps taken_up_def)
  from q have "q = awaiting_pm (lib owned_env) sample_pm" by (cases rule: parent_writes_cases) simp_all
  with new have "pm_Phase ?c = PMAwaitingConfirmation"
    by (simp add: parent_merge_fields [OF parent_by_field_ok] merged_field_def awaiting_pm_fields taken_up_def)
  moreover have "taken_up ?c" using parent_survives_stale_writes [OF parent_by_field_ok c] phase by (simp add: taken_up_def)
  ultimately show ?thesis using c phase new by blast
qed

end
