(* ===== verification/Spec2Isabelle.thy ===== *)
theory Spec2Isabelle
  imports StripeClient DeduperCalls Resolver CustomerLookup StripeCustomers EnsureLocks PaymentMethods
    PaymentMethodWatch BillingAccounts ProviderConfig WebhookServer EnsureProtocol Lifecycle StaleWrites
    PatchBases CommandLine Recovery Wakeups Settling Scheme StaleIssuance ParentWrites
begin

text \<open>
  A model of the Stripe payment provider: the Kubernetes controllers and the webhook receiver that
  keep one Stripe customer per billing account, collect cards through SetupIntents, and report the
  outcome on the platform's payment methods.

  \<^bold>\<open>The program and its parts.\<close>
  An account is billed through its \<open>StripeCustomer\<close>; each \<open>PaymentMethod\<close> of the provider's class
  has a child \<open>StripePaymentMethod\<close>.
  \<^item> \<open>PaymentMethodWatcher\<close> creates the child of a payment method.
  \<^item> \<open>StripePaymentMethodReconciler\<close> guards the child with a finalizer, asks \<open>StripeCustomers\<close>
    for the account's customer, creates the SetupIntent the user confirms, renews it when it expires, and
    cleans up in Stripe on deletion.
  \<^item> \<open>BillingAccountReconciler\<close> keeps the customer's details in step with the account, through the
    same \<open>StripeCustomers\<close>.
  \<^item> \<open>StripeCustomers.Ensure\<close> is the only place where customers are created: under a lock per
    account it reads the \<open>StripeCustomer\<close>, adopts, searches or creates the customer with the Stripe
    client, and publishes the ID and conditions on the status.
  \<^item> \<open>Webhook\<close> receives Stripe's signed events, drops duplicates and records success or failure of a
    SetupIntent on the child and its parent.
  \<^item> \<open>StripeProviderConfigReconciler\<close> publishes the table of tax ID types.

  \<^bold>\<open>How the code is read.\<close>
  A Go function that talks to anything outside the process is a program of the state monad of
  \<open>Prelude\<close>, over an opaque world \<open>'w\<close> and a trace of the calls that change something
  (\<open>effect\<close>, in \<open>Interfaces\<close>). What is called, the Kubernetes client, the Stripe SDK,
  the helpers of apimachinery, controller-runtime and billing, the clock, the environment, the order
  of a map range, JSON decoding and the signature check, is a parameter (the record \<open>env\<close>); it may
  answer anything and change its mind between calls, which is how the properties cover failures and other
  writers. An error is a value of \<open>go_error\<close> with its wrapping, so that \<open>errors.As\<close> and
  \<open>errors.Is\<close> are computed as the code does. A method's mutation of the object it was given is a
  new value that the caller goes on with. Structs are records, enumerations datatypes, strings byte
  lists, nil pointers and nil maps \<open>None\<close>.

  \<^bold>\<open>Theories.\<close>
  \<^item> \<open>Prelude\<close>, \<open>GoText\<close>, \<open>GoErrors\<close>: the monad with its rules for the calls a program
    makes and the answers it gives; the string operations and conversions of Go that the code uses; errors
    (\<open>internal/stripe/errors.go\<close>).
  \<^item> \<open>ApiTypes\<close> (\<open>api/v1alpha1\<close>), \<open>Interfaces\<close> (parameters, effects and the documented
    behaviour assumed of them), \<open>Samples\<close> (concrete parameters for the witnesses).
  \<^item> \<open>StripeClient\<close> (\<open>internal/stripe/client.go\<close>): every operation of the client. The search
    escape cannot be broken out of; what a customer is stamped with; the tax ID loop makes exactly the
    missing and stale calls; \<open>EnsureCustomer\<close> creates only when nothing is known and nothing found.
  \<^item> \<open>Deduper\<close> (\<open>internal/stripe/deduper.go\<close>): the interface \<open>event_deduper\<close> and
    \<open>MemoryDeduper\<close>, which refines a least-recently-used list and remembers exactly the last
    \<open>capacity\<close> distinct IDs. \<open>DeduperCalls\<close>: concurrent calls of it, statement by statement under
    its mutex, take effect one after the other.
  \<^item> \<open>Resolver\<close> (\<open>internal/stripe/resolver.go\<close>), \<open>CustomerLookup\<close>
    (\<open>internal/controller/customer_id_lookup.go\<close>): configuration and what the cluster knows.
  \<^item> \<open>StripeCustomers\<close> (\<open>internal/controller/stripe_customers.go\<close>): \<open>Ensure\<close> over any
    \<open>customer_ensurer\<close>, the interface \<open>stripeCustomerEnsurer\<close> of the code with the laws
    \<open>Ensure\<close> relies on; the Stripe client is its instance.
  \<^item> \<open>EnsureLocks\<close>: the two levels of locking and the interleavings of \<open>Ensure\<close> calls as a
    step relation of any number of callers, with every statement of \<open>lock\<close> a step of its own (the
    lookup in the map, the allocation and the insertion are kept together by \<open>s.mu\<close> alone): mutual
    exclusion, no duplicate customer, no deadlock, and every call returns.
  \<^item> \<open>EnsureProtocol\<close> joins the two: what the program \<open>Ensure\<close> does to Stripe and to the
    status between lock and unlock is one path of the step relation, so that what holds of every
    interleaving holds of the program; over any number of calls whose reads see what was published, an
    account gets one customer more than it lost publications at most.
  \<^item> \<open>Recovery\<close>: with Stripe's search in the picture not even lost publications cost a second
    customer, when the search for the account's UID shows what was created before or fails.
  \<^item> \<open>PaymentMethods\<close> (\<open>stripepaymentmethod_controller.go\<close>), \<open>PaymentMethodWatch\<close>
    (\<open>paymentmethod_watcher.go\<close>), \<open>BillingAccounts\<close> (\<open>billingaccount_controller.go\<close>),
    \<open>ProviderConfig\<close> (\<open>stripeproviderconfig_controller.go\<close>, \<open>internal/taxids\<close>): the
    reconcilers.
  \<^item> \<open>Webhook\<close> (\<open>internal/webhook\<close>): request guards, deduplication, both handlers, timeline
    events. The facts on redelivery hold of every \<open>event_deduper\<close>.
  \<^item> \<open>WebhookServer\<close>: any handler in the place of \<open>dispatch\<close>, the recovery from its panics, and
    the metrics; the contract \<open>webhook_handler\<close> that \<open>dispatch\<close> meets, and that the counters
    agree with the answers.
  \<^item> \<open>Lifecycle\<close>: the phases of a payment method as a state machine with two writers, the
    reconciler and the webhook, which the programs of \<open>PaymentMethods\<close> and \<open>Webhook\<close>
    refine; a write computes a well-formed status from a well-formed one.
  \<^item> \<open>StaleWrites\<close>: all interleavings of the two writers, with reads as old as one likes and
    patches applied as JSON merge patches: what every stored status is like, what survives such
    writes, and what does not. \<open>ParentWrites\<close>: the
    same of the parent \<open>PaymentMethod\<close>, which both patch, too.
  \<^item> \<open>Issuance\<close>: what one reconcile costs: each SetupIntent it creates is paid for by a status that then
    holds it, by a lost patch or by an expiry. \<open>StaleIssuance\<close>: the bill over the life of a resource, in all
    the interleavings of \<open>StaleWrites\<close>. \<open>Renewal\<close>: what becomes of the resource when its SetupIntent
    expires, across both programs, and that no waiting resource is forgotten.
  \<^item> \<open>GoHeap\<close>, \<open>DeepCopies\<close> (\<open>api/v1alpha1/zz_generated.deepcopy.go\<close>), \<open>CopiedObjects\<close>:
    pointers and slices on a heap, the generated copies, and the contract \<open>deep_copy\<close> that they meet.
  \<^item> \<open>Editing\<close>, \<open>PatchBases\<close>: an object changed in place through its pointers, for the three kinds of
    object (the interface \<open>edited_object\<close>), and why the patches and the comparison of the program see the
    object as read beside the object as changed, which the other theories take for granted when they
    read objects as values.
  \<^item> \<open>Operator\<close> (\<open>cmd/main.go\<close> and the \<open>SetupWithManager\<close> functions): flags,
    options, registrations, and the order of the set-up with its exits. \<open>CommandLine\<close>: the flags as
    they are declared, Go's \<open>flag.Parse\<close> with \<open>ParseBool\<close> and \<open>ParseInt\<close>, and the process
    from its arguments to its exit code. \<open>Scheme\<close>
    (\<open>groupversion_info.go\<close>, the \<open>init\<close> functions, the generated defaults): the types the program
    adds to its scheme, whatever the order of the \<open>init\<close> functions.
  \<^item> \<open>Wakeups\<close>, \<open>Settling\<close>: the registration of the account reconciler against the programs, with
    controller-runtime as a parameter (\<open>controller_runtime\<close>): of the changes of the cluster that alter
    what Stripe is told of an account, exactly which wake it (all but those of a default whose payment method
    is gone or another account's), that the reconciler's own writes do not wake it, and that it then writes nothing more.
  \<^item> This theory: the properties that span components: an account with a published customer never
    gets another, from either reconciler; the way of a card from the SetupIntent of the reconciler to the
    two statuses the webhook writes.

  \<^bold>\<open>Bounds.\<close>
  There is no fuel: every loop of the code runs over a finite list and is structural recursion here, and
  the two loops over a shrinking string and the one over the arguments have a termination proof. The interleavings of \<open>Ensure\<close> end
  because each running call has a bounded number of steps left (\<open>steps_left\<close>, ten at most). A deletion gives up at the twelfth
  attempt, a request body is cut at 256 KiB, the deduplicator keeps 4096 IDs, metadata lists stay within
  500 bytes; these are the code's constants. Counters wrap at their width (\<open>wrap64\<close>,
  \<open>int32_of\<close>); lengths, durations and times are unbounded.

  \<^bold>\<open>Hypotheses on the parameters.\<close>
  \<open>conditions_ok\<close> and \<open>finalizers_ok\<close> (the documented behaviour of the condition and finalizer
  helpers), \<open>map_range_ok\<close> (a range visits each entry once), \<open>kube_errors_ok\<close> (the Kubernetes
  client's errors do not wrap this program's errors), \<open>updates_succeed\<close> (the API server accepts updates, for
  the bound on deletions), \<open>stripe_answers_ok\<close> and \<open>creates_as_given\<close> (a created Stripe customer has
  an ID; a created object is the one that was sent), \<open>secrets_given\<close> (a created SetupIntent has a client
  secret), \<open>resolves\<close> (the provider's configuration is there), \<open>reads_published\<close> (the uncached read of a
  \<open>StripeCustomer\<close> under the lock shows what was published before), \<open>apimachinery_ok\<close> (the copies of
  apimachinery are deep, \<open>SetStatusCondition\<close> writes to its slice or a new one), \<open>merge_patch_ok\<close> and
  \<open>parent_merge_ok\<close> (the API server applies merge patches by field), \<open>cluster_apart\<close> and \<open>search_current\<close> (calls to the cluster
  do not change what Stripe's search shows, and a customer created before is shown when the next call begins),
  \<open>controller_runtime_ok\<close> (controller-runtime evaluates predicates and enqueues requests as its documentation says),
  \<open>generation_tracks_spec\<close> and \<open>children_named\<close> (the API server's generations, the
  names that the watcher gives), \<open>conditions_settle\<close>
  (\<open>SetStatusCondition\<close> leaves a condition alone that is set already), \<open>runtime_ok\<close> (a scheme forgets no
  type, its builder runs its functions in order). \<open>Samples\<close> and the witnesses have an instance of each.

  \<^bold>\<open>Not modelled.\<close>
  Logs; the library of the metrics (a measurement is the call made to it); panics of anything but a handler;
  \<open>LastTransitionTime\<close>, which the condition helper sets; the
  cache, the queue and the retries of controller-runtime (what it enqueues for an event of a registration is
  a hypothesis of \<open>Wakeups\<close>).
\<close>

section \<open>Properties that span components\<close>

text \<open>
  The event of a SetupIntent finds the resource it was created for: when the webhook
  receives the metadata that the reconciler put on a SetupIntent, it looks up the StripePaymentMethod of
  exactly the namespace and name that was reconciled, and answers with what the cluster has there.
\<close>

lemma setup_intent_event_finds_resource:
  assumes "get_spm (kube E) req (world s) = (Inr spm, w)"
    and "SetupIntentsNew p ok \<in> set (effects (Reconcile_StripePaymentMethod E rc req) s)"
    and "sp_Metadata si = sip_Metadata p"
    and "Namespace (spm_meta spm) \<noteq> ''''" and "Name (spm_meta spm) \<noteq> ''''"
    and "get_spm K (key_of (spm_meta spm)) (world t) = (Inr x, w')"
  shows "run_state (findStripePaymentMethod K si) t = (Inr (Some x), t\<lparr>world := w'\<rparr>)"
proof -
  obtain c where "p = setup_intent_params_for c (Namespace (spm_meta spm)) (Name (spm_meta spm))"
    using emitsD [OF reconcile_spm_stamped assms(2) [unfolded Reconcile_read [OF assms(1)]]] by blast
  with assms(3) have "metadata_value si ''stripe_payment_method_namespace'' = Namespace (spm_meta spm)"
    "metadata_value si ''stripe_payment_method_name'' = Name (spm_meta spm)"
    by (simp_all add: metadata_value_def setup_intent_params_for_def)
  with assms(4-6) show ?thesis by (simp add: findStripePaymentMethod_def key_of_def Let_def)
qed

text \<open>
  C20 (functional): the way of a card, across the reconciler and the webhook. For a SetupIntent that the
  reconciler created for a resource, Stripe's event that the user confirmed it is answered 200 only after
  the event's payment method was retrieved with the configuration in force, the same resource, as the
  cluster has it by then, was patched to Active with it, and after that the PaymentMethod that the
  resource, as that patch returned it, names in its own namespace was read and patched to Active with the
  same card; in every other case the answer is 500, and Stripe delivers the event again. The two programs
  run in different surroundings, at different times.
\<close>

theorem confirmed_card_activates_its_resource:
  assumes "get_spm (kube E) req (world s) = (Inr spm, w)"
    and "SetupIntentsNew p ok \<in> set (effects (Reconcile_StripePaymentMethod E rc req) s)"
    and "Namespace (spm_meta spm) \<noteq> ''''" and "Name (spm_meta spm) \<noteq> ''''"
    and "ev_Type ev = ''setup_intent.succeeded''" and "decodeSetupIntent (os W) ev = Inr si"
    and "sp_Metadata si = sip_Metadata p"
    and "get_spm (kube W) (key_of (spm_meta spm)) (world t) = (Inr x, w')"
  shows "fst (run_state (dispatch W wh ev) t) = InternalServerErrorResponse \<or>
    fst (run_state (dispatch W wh ev) t) = OkResponse \<and>
    (\<exists>t1 cfg t2 d w2 x' now w3 y w4 parent w5 pre es.
      run_state (ResolveConfig W (wh_ProviderConfigName wh)) t1 = (Inr cfg, t2) \<and>
      payment_methods_get (NewClient W cfg) (sp_PaymentMethod si) (world t2) = (Inr d, w2) \<and>
      x' = x\<lparr>spm_status := success_status (lib W) x si (payment_method_details_of d) now\<rparr> \<and>
      patch_spm_status (kube W) x x' w3 = (Inr y, w4) \<and>
      get_pm (kube W) (Namespace (spm_meta y), spm_PaymentMethodRef y) w4 = (Inr parent, w5) \<and>
      effects (dispatch W wh ev) t = pre @ SPMStatusPatch x' True #
        PMStatusPatch (active_pm (lib W) parent (payment_method_details_of d)) True # es)"
proof -
  from acknowledged_confirmation_recorded [OF assms(6,5)
      setup_intent_event_finds_resource [OF assms(1,2,7,3,4,8)], of wh] show ?thesis
    unfolding card_recorded_def by (elim disjE conjE exE) (rule disjI1, assumption, blast)
qed

text \<open>An account whose StripeCustomer, owned by it, publishes a customer in every state of the cluster.\<close>

definition customer_published :: "'w env \<Rightarrow> billing_account \<Rightarrow> bool" where
  "customer_published E ba \<longleftrightarrow> (\<forall>w. \<exists>sc w' owner.
     read_sc (kube E) (key_of (ba_meta ba)) w = (Inr sc, w') \<and>
     GetControllerOf (lib E) (sc_meta sc) = Some owner \<and> or_UID owner = UID (ba_meta ba) \<and>
     sc_StripeCustomerID (sc_status sc) \<noteq> '''')"

lemma Ensure_published_emits:
  fixes E :: "'w env"
  assumes "customer_published E ba"
  shows "emits (\<lambda>e. \<not> creates_customer e) (Ensure E (EnsureCustomer S rt) ba)"
proof (rule emitsI)
  fix s :: "('w, effect) st"
  obtain sc w' owner where sc: "read_sc (kube E) (key_of (ba_meta ba)) (world s) = (Inr sc, w')"
    "GetControllerOf (lib E) (sc_meta sc) = Some owner" "or_UID owner = UID (ba_meta ba)"
    "sc_StripeCustomerID (sc_status sc) \<noteq> ''''"
    using assms unfolding customer_published_def by blast
  then have "run_state (getOrCreate E ba) s = (Inr sc, s\<lparr>world := w'\<rparr>)"
    by (simp add: getOrCreate_def Let_def)
  from stripe_client.Ensure_known [OF this refl sc(4)]
  have "list_all (\<lambda>e. \<not> creates_customer e) (effects (Ensure E (EnsureCustomer S rt) ba) s)"
    by (auto simp: list_all_iff)
  then show "\<exists>es. trace (snd (run_state (Ensure E (EnsureCustomer S rt) ba) s)) = trace s @ es \<and>
      list_all (\<lambda>e. \<not> creates_customer e) es"
    using emits_trace [OF Ensure_emits, of E S rt ba s] by blast
qed

text \<open>
  C1 (safety): one customer per account, across both reconcilers: while every account the cluster shows
  has a published customer, neither the reconcile of an account nor that of a payment method ever
  creates a customer in Stripe, whatever Stripe and the rest of the cluster answer. The account reconciler
  is the one in production, without the factory of the tests.
\<close>

theorem published_account_never_duplicated:
  assumes "\<forall>k w ba w'. get_ba (kube E) k w = (Inr ba, w') \<longrightarrow> customer_published E ba"
    and "e \<in> set (effects (Reconcile_BillingAccount E ar req) s) \<or>
      e \<in> set (effects (reconcileSetupIntent E rc spm) s)"
    and "stripeClientFactory ar = None"
  shows "\<not> creates_customer e"
proof -
  have read: "customer_published E ba" if run: "run_state (ask (get_ba (kube E) k)) s0 = (x, s1)" "x = Inr ba"
    for k s0 ba s1 x
  proof -
    obtain r w' where g: "get_ba (kube E) k (world s0) = (r, w')" by fastforce
    with run have "r = Inr ba" by simp
    with g assms(1) show ?thesis by blast
  qed
  have publish: "emits (\<lambda>e. \<not> creates_customer e) (publishSetupIntent E rc S spm c t)" for S c t
    by (rule emits_mono [OF publishSetupIntent_emits]) (auto simp: creates_customer_def)
  have ensure: "emits (\<lambda>e. \<not> creates_customer e) (Ensure E stripe ba)"
    if "customer_published E ba" "run_state (buildStripeClient E ar) s0 = (x, s1)" "x = Inr stripe" for ba s0 x s1 stripe
    using that Ensure_published_emits by (auto elim!: production_ensurer [OF _ assms(3)])
  have account: "emits (\<lambda>e. \<not> creates_customer e) (Reconcile_BillingAccount E ar req)"
    unfolding Reconcile_BillingAccount_def sync_account_def
    by (intro emits_bind_run emits_ask emits_sum emits_if emits_ret needsStripeCustomer_emits
        buildStripeClient_emits) (rule ensure, erule (1) read)
  have payment: "emits (\<lambda>e. \<not> creates_customer e) (reconcileSetupIntent E rc spm)"
    unfolding reconcileSetupIntent_def Let_def
    by (intro emits_bind_run emits_ask emits_sum emits_if emits_ret emits_prod emits_option
        ResolveConfig_emits Ensure_published_emits publish) (erule (1) read)
  from assms(2) show ?thesis using emitsD [OF account] emitsD [OF payment] by (elim disjE)
qed


section \<open>Witnesses\<close>

definition confirmed_payload :: "setup_intent_params \<Rightarrow> setup_intent_payload" where
  "confirmed_payload p = sample_payload\<lparr>sp_Metadata := sip_Metadata p\<rparr>"

definition confirmed_card :: sdk_payment_method where
  "confirmed_card = \<lparr>spm_ID = ''pm_1'', spm_Type = ''card'', spm_Card = None, spm_BillingDetails = None\<rparr>"

definition confirming_env :: "setup_intent_params \<Rightarrow> unit env" where
  "confirming_env p = owned_env\<lparr>sdk := \<lambda>_. sample_stripe\<lparr>payment_methods_get := \<lambda>_. answer confirmed_card\<rparr>,
     os := sample_os\<lparr>unmarshal_setup_intent := \<lambda>_. Inr (confirmed_payload p)\<rparr>\<rparr>"

lemma confirming_env_fields [simp]:
  "lib (confirming_env p) = sample_lib" "kube (confirming_env p) = kube owned_env"
  "clock (os (confirming_env p)) w = (0, w)"
  "payment_methods_get (NewClient (confirming_env p) cfg) n w = (Inr confirmed_card, w)"
  by (simp_all add: confirming_env_def owned_env_def NewClient_def sample_env_def sample_os_def answer_def)

lemma confirming_ResolveConfig:
  "run_state (ResolveConfig (confirming_env p) n) s = (Inr owned_config, s)"
  by (simp add: ResolveConfig_def confirming_env_def owned_env_def owned_config_def sample_defs)

lemma confirming_confirms:
  "fst (run_state (confirm_with_stripe (confirming_env p) sample_wh (live_spm empty_spm_status) (confirmed_payload p)) s) = None"
  by (simp add: confirm_with_stripe_def confirming_ResolveConfig RetrievePaymentMethod_def confirmed_card_def
      payment_method_details_of_def Let_def record_success_def patchStripeSuccess_def
      projectOntoPaymentMethod_def get_parent_def split: prod.split)

theorem confirmed_card_activates_its_resource_witness:
  "\<exists>p pre x bm es. effects (dispatch (confirming_env p) sample_wh sample_event) (st0 ()) =
       pre @ SPMStatusPatch x True # PMStatusPatch bm True # es \<and>
     Phase (spm_status x) = Active \<and> StripePaymentMethodID (spm_status x) = ''pm_1''"
proof -
  let ?x = "live_spm empty_spm_status" and ?fields = "spm_meta (live_spm empty_spm_status)"
  obtain p where p: "SetupIntentsNew p True \<in> set (effects (Reconcile_StripePaymentMethod owned_env
      sample_rc (''org'', ''card-1'')) (st0 ()))" using owned_creates by blast
  have names: "Namespace ?fields = ''org''" "Name ?fields = ''card-1''"
    by (simp_all add: live_spm_def new_object_meta_def)
  have type: "ev_Type sample_event = ''setup_intent.succeeded''" by (simp add: sample_event_def)
  have decode: "decodeSetupIntent (os (confirming_env p)) sample_event = Inr (confirmed_payload p)"
    by (simp add: decodeSetupIntent_def confirming_env_def sample_event_def confirmed_payload_def sample_payload_def)
  have meta: "sp_Metadata (confirmed_payload p) = sip_Metadata p" by (simp add: confirmed_payload_def)
  have found: "get_spm (kube (confirming_env p)) (key_of ?fields) (world (st0 ())) = (Inr ?x, ())" by simp
  have "run_state (findStripePaymentMethod (kube (confirming_env p)) (confirmed_payload p)) (st0 ()) =
      (Inr (Some ?x), st0 ())"
    using setup_intent_event_finds_resource [of owned_env "(''org'', ''card-1'')" "st0 ()" ?x "()",
        OF _ p meta _ _ found] names by simp
  from succeeded_run(1) [OF decode type this, of sample_wh]
  have "fst (run_state (dispatch (confirming_env p) sample_wh sample_event) (st0 ())) = OkResponse"
    using confirming_confirms [of p "st0 ()"] by (auto simp: status_of_def split: prod.split)
  then obtain t1 cfg t2 d w2 x' now w3 y w4 parent w5 pre es where
    d: "payment_methods_get (NewClient (confirming_env p) cfg) (sp_PaymentMethod (confirmed_payload p)) (world t2) = (Inr d, w2)"
    and x: "x' = ?x\<lparr>spm_status := success_status sample_lib ?x (confirmed_payload p) (payment_method_details_of d) now\<rparr>"
    and parent: "get_pm (kube (confirming_env p)) (Namespace (spm_meta y), spm_PaymentMethodRef y) w4 = (Inr parent, w5)"
    and e: "effects (dispatch (confirming_env p) sample_wh sample_event) (st0 ()) = pre @ SPMStatusPatch x' True #
      PMStatusPatch (active_pm sample_lib parent (payment_method_details_of d)) True # es"
    using confirmed_card_activates_its_resource [of owned_env "(''org'', ''card-1'')" "st0 ()" ?x "()",
      OF _ p _ _ type decode meta found, of sample_wh] names
    by (simp add: OkResponse_def InternalServerErrorResponse_def) blast
  from parent have "parent = sample_pm" by simp
  moreover from d have "pmd_ID (payment_method_details_of d) = ''pm_1''"
    by (auto simp: confirmed_card_def payment_method_details_of_def)
  ultimately show ?thesis
    using x by - (intro exI conjI, rule e, simp_all add: success_status_fields)
qed

lemma owned_published: "customer_published owned_env sample_ba"
  by (simp add: customer_published_def owned_env_def owned_sc_def sample_env_def sample_kube_def
      sample_lib_def answer_def owner_reference_def new_object_meta_def)

theorem published_account_never_duplicated_witness:
  "\<exists>e. e \<in> set (effects (reconcileSetupIntent owned_env sample_rc (live_spm empty_spm_status)) (st0 ())) \<and>
     \<not> creates_customer e"
proof -
  obtain p where "SetupIntentsNew p True \<in> set (effects (Reconcile_StripePaymentMethod owned_env
      sample_rc (''org'', ''card-1'')) (st0 ()))" using owned_creates by blast
  moreover have "reconcile_spm owned_env sample_rc (live_spm empty_spm_status) =
      reconcileSetupIntent owned_env sample_rc (live_spm empty_spm_status)"
    by (simp add: reconcile_spm_def) (simp add: empty_spm_status_def)
  ultimately have e: "SetupIntentsNew p True
      \<in> set (effects (reconcileSetupIntent owned_env sample_rc (live_spm empty_spm_status)) (st0 ()))"
    using Reconcile_read [of owned_env "(''org'', ''card-1'')" "st0 ()" "live_spm empty_spm_status" "()"
        sample_rc] by simp
  moreover have "\<not> creates_customer (SetupIntentsNew p True)"
    by (rule published_account_never_duplicated [where E = owned_env and ar = production and rc = sample_rc, OF _ disjI2, OF _ e])
      (simp_all add: owned_published production_def)
  ultimately show ?thesis by blast
qed

end
